(* ===== verification/Prelude.thy ===== *)
theory Prelude
  imports Main "HOL-Library.Word"
begin

text \<open>
  Shared vocabulary of the development: the machine types of the C++ sources
  (\<^verbatim>\<open>uint8_t\<close>, \<^verbatim>\<open>uint32_t\<close>, \<^verbatim>\<open>uint64_t\<close>, byte vectors), the errors its functions throw,
  the sequencing of fallible computations, the conversions between \<^verbatim>\<open>std::string\<close> and
  bytes, and the generic lemmas on words and lists that the components share.
\<close>

unbundle bit_operations_syntax

section \<open>Machine types\<close>

type_synonym byte = "8 word"
type_synonym u32 = "32 word"
type_synonym u64 = "64 word"
type_synonym bytes = "byte list"

named_theorems exact_arith \<open>unsigned readings of checked 64-bit arithmetic\<close>
named_theorems parse_rules \<open>what a reader yields on the bytes a writer produced\<close>
named_theorems read_rules \<open>what a reader guarantees on any bytes\<close>

section \<open>Errors\<close>

text \<open>
  One constructor for each \<^verbatim>\<open>throw\<close> statement of the modelled sources, in the order the
  files have them, those of the database, of the node and of the services around it (the
  network, the server, the wallet, the bindings) in types of their own. The text of the
  message is not modelled.
\<close>

datatype (plugins only: code size) db_error =
    Db_open_failed
  | Commit_db_closed
  | Commit_begin_failed
  | Commit_block_put_failed
  | Commit_index_put_failed
  | Commit_image_put_failed
  | Commit_utxo_put_failed
  | Commit_deposit_put_failed
  | Commit_height_put_failed
  | Commit_vault_put_failed
  | Commit_failed

datatype (plugins only: code size) node_error =
    Buy_quorum_insufficient
  | Transfer_not_owner
  | Transfer_amount_overflow
  | Transfer_insufficient_funds
  | Transfer_output_unknown
  | Transfer_double_spend
  | Transfer_signature_invalid
  | Withdrawal_bad_destination
  | Withdrawal_not_owner
  | Withdrawal_output_short
  | Withdrawal_output_unknown
  | Withdrawal_double_spend
  | Submit_bad_image
  | Submit_image_torsion_failed
  | Submit_image_small_order
  | Submit_double_spend
  | Submit_bad_ring_key
  | Submit_ring_duplicate
  | Submit_ring_mixed
  | Submit_ring_unknown
  | Submit_zero_output
  | Submit_amount_overflow
  | Submit_unbalanced
  | Submit_bad_hash
  | Submit_bad_signature

datatype (plugins only: code size) service_error =
    Amount_invalid
  | Number_missing
  | Number_out_of_range
  | Json_failed
  | Json_undefined
  | Read_past_end
  | Scan_bad_key_length
  | Deposit_amount_missing
  | Deposit_bad_key_length
  | Deposit_recipient_missing
  | Transfer_bad_key_length
  | Transfer_input_not_found
  | Push_bad_hash_length
  | Push_bad_output_key_length
  | Push_bad_signature_length
  | Push_bad_ring_key_length
  | Push_bad_response_length
  | Withdrawal_bad_key_length
  | Withdrawal_input_not_found
  | Wallet_bad_mnemonic
  | Wallet_not_loaded
  | Wallet_nothing_to_save
  | Wallet_file_not_writable
  | Wallet_file_not_readable
  | Wasm_bad_key_length
  | Wasm_bad_wallet_key_length
  | Wasm_bad_output_key_length
  | Wasm_bad_private_key_length
  | Wasm_bad_public_key_length
  | Wasm_bad_hash_length
  | Wasm_bad_ring_key_length

datatype (plugins only: code size) error =
    Fee_rate_above_limit
  | Hex_odd_length
  | Hex_bad_char
  | String_too_large
  | Read_overflow
  | String_limit_exceeded
  | Deposit_zero
  | Deposit_above_limit
  | Deposit_fee_underflow
  | Deposit_balance_overflow
  | Deposit_invariant_broken
  | Withdraw_zero
  | Withdraw_above_limit
  | Withdraw_supply_short
  | Withdraw_fee_underflow
  | Withdraw_insolvent
  | Withdraw_balance_overflow
  | Withdraw_invariant_broken
  | Claim_zero
  | Claim_above_limit
  | Claim_bad_address
  | Claim_reserve_short
  | Claim_balance_overflow
  | Claim_invariant_broken
  | Fee_config_above_limit
  | Restore_inconsistent
  | Stealth_bad_format
  | Stealth_rB_failed
  | Stealth_sum_failed
  | Stealth_bR_failed
  | Hash_to_point_map_failed
  | Hash_to_point_cofactor_failed
  | Key_image_failed
  | Ring_empty
  | Ring_index_out_of_range
  | Ring_R_failed
  | Ring_cP_failed
  | Ring_sG_cP_failed
  | Ring_sHp_failed
  | Ring_cI_failed
  | Ring_sHp_cI_failed
  | Burn_L_failed
  | Burn_R_failed
  | Output_bad_ephemeral
  | Output_bad_destination
  | Ring_sig_bad_image
  | Ring_sig_bad_count
  | Ring_sig_count_mismatch
  | Ring_sig_bad_key
  | Tx_too_many_outputs
  | Header_quorum_limit
  | Block_tx_limit
  | Block_deposit_limit
  | Block_withdrawal_limit
  | Block_deposit_output_limit
  | Block_withdrawal_output_limit
  | Mnemonic_invalid
  | Pedersen_H_map_failed
  | Pedersen_H_cofactor_failed
  | Pedersen_vH_failed
  | Pedersen_sum_failed
  | Pedersen_add_failed
  | Pedersen_sub_failed
  | Db_error db_error
  | Node_error node_error
  | Service_error service_error

section \<open>Sequencing fallible computations\<close>

text \<open>
  \<open>ebind m f\<close> runs \<open>m\<close> and continues with \<open>f\<close> unless \<open>m\<close> stopped: \<open>Inl\<close> is an exception,
  or whatever else ends the computation early.
\<close>

definition ebind :: "'e + 'a \<Rightarrow> ('a \<Rightarrow> 'e + 'b) \<Rightarrow> 'e + 'b" where
  "ebind m f = (case m of Inl e \<Rightarrow> Inl e | Inr x \<Rightarrow> f x)"

lemma ebind_simps [simp]:
  "ebind (Inl e) f = Inl e"
  "ebind (Inr x) f = f x"
  by (simp_all add: ebind_def)

lemma ebind_eq_Inr: "ebind m f = Inr y \<longleftrightarrow> (\<exists>x. m = Inr x \<and> f x = Inr y)"
  by (cases m) auto

lemma ebind_Inr_E:
  assumes "ebind m f = Inr y"
  obtains x where "m = Inr x" and "f x = Inr y"
  using assms by (auto simp: ebind_eq_Inr)

lemma option_error_eq_Inr:
  "(case m of None \<Rightarrow> Inl e | Some x \<Rightarrow> f x) = Inr y \<longleftrightarrow> (\<exists>x. m = Some x \<and> f x = Inr y)"
  by (cases m) auto

lemma option_none_eq_Some:
  "(case m of None \<Rightarrow> Inr None | Some x \<Rightarrow> f x) = Inr (Some y)
     \<longleftrightarrow> (\<exists>x. m = Some x \<and> f x = Inr (Some y))"
  by (cases m) auto

section \<open>Words\<close>

lemma unat_add_exact [exact_arith]:
  fixes a b :: "'a::len word"
  shows "unat a + unat b < 2 ^ LENGTH('a) \<Longrightarrow> unat (a + b) = unat a + unat b"
  by (simp add: unat_word_ariths)

lemma u64_add_exact: "unat a + unat (b :: u64) < 2 ^ 64 \<Longrightarrow> unat (a + b) = unat a + unat b"
  by (rule unat_add_exact) simp

lemma unat_sub_exact [exact_arith]:
  fixes a b :: "'a::len word"
  shows "b \<le> a \<Longrightarrow> unat (a - b) = unat a - unat b"
  by (simp add: unat_sub word_le_nat_alt)

lemma unat64_less [simp]: "unat (a :: u64) < 18446744073709551616"
  using unsigned_less [of a, where ?'a = nat] by simp

lemma unat32_less [simp]: "unat (a :: u32) < 4294967296"
  using unsigned_less [of a, where ?'a = nat] by simp

lemma unat8_less [simp]: "unat (b :: byte) < 256"
  using unsigned_less [of b, where ?'a = nat] by simp

section \<open>Strings as bytes\<close>

text \<open>A \<^verbatim>\<open>std::string\<close> is a sequence of 8-bit characters; HOL's \<^typ>\<open>char\<close> is the same.\<close>

definition bytes_of_string :: "string \<Rightarrow> bytes" where
  "bytes_of_string s = map (\<lambda>c. of_char c) s"

definition string_of_bytes :: "bytes \<Rightarrow> string" where
  "string_of_bytes bs = map (\<lambda>b. char_of (unat b)) bs"

lemma unat_of_char: "unat (of_char c :: byte) = of_char c"
proof -
  have "(of_char c :: byte) = of_nat (of_char c)"
    by (rule of_nat_of_char [symmetric])
  then have "unat (of_char c :: byte) = of_char c mod 256"
    by (simp only: unat_of_nat) simp
  then show ?thesis
    by simp
qed

lemma string_of_bytes_inverse [simp]: "string_of_bytes (bytes_of_string s) = s"
  by (simp add: string_of_bytes_def bytes_of_string_def o_def unat_of_char)

lemma of_char_of_byte [simp]: "of_char (char_of (unat b)) = (b :: byte)"
proof -
  have "unat (of_char (char_of (unat b)) :: byte) = unat b mod 256"
    by (simp only: unat_of_char of_char_of)
  also have "\<dots> = unat b"
    by (rule mod_less) (rule unat8_less)
  finally show ?thesis
    by (simp only: word_unat_eq_iff)
qed

lemma bytes_of_string_inverse [simp]: "bytes_of_string (string_of_bytes bs) = bs"
  by (simp add: string_of_bytes_def bytes_of_string_def o_def)

lemma unat_ucast: "unat (ucast (a :: 'a::len word) :: 'b::len word) = unat a mod 2 ^ LENGTH('b)"
  by (simp add: unsigned_ucast_eq take_bit_eq_mod)

lemma unat_ucast_up:
  assumes "LENGTH('a) \<le> LENGTH('b)"
  shows "unat (ucast (a :: 'a::len word) :: 'b::len word) = unat a"
proof -
  have "unat a < 2 ^ LENGTH('a)"
    by (rule unsigned_less)
  also have "\<dots> \<le> 2 ^ LENGTH('b)"
    using assms by simp
  finally show ?thesis
    by (simp add: unat_ucast)
qed

lemma bytes_of_string_inject [simp]: "bytes_of_string s = bytes_of_string t \<longleftrightarrow> s = t"
  by (metis string_of_bytes_inverse)

lemma length_bytes_of_string [simp]: "length (bytes_of_string s) = length s"
  by (simp add: bytes_of_string_def)

section \<open>Lexicographic order of bytes\<close>

text \<open>
  \<^verbatim>\<open>std::lexicographical_compare\<close> on byte arrays, which is also the key order of LMDB, and
  its agreement with the numeric order of the big-endian values of equally long arrays.
\<close>

fun lex_less :: "bytes \<Rightarrow> bytes \<Rightarrow> bool" where
  "lex_less [] [] = False"
| "lex_less [] (y # ys) = True"
| "lex_less (x # xs) [] = False"
| "lex_less (x # xs) (y # ys) = (if x < y then True else if y < x then False else lex_less xs ys)"

lemma lex_less_irrefl [simp]: "\<not> lex_less xs xs"
  by (induction xs) simp_all

lemma lex_less_trans: "lex_less xs ys \<Longrightarrow> lex_less ys zs \<Longrightarrow> lex_less xs zs"
proof (induction xs ys arbitrary: zs rule: lex_less.induct)
  case (2 y ys)
  then show ?case by (cases zs) simp_all
next
  case (4 x xs y ys)
  then show ?case by (cases zs) (auto split: if_splits)
qed simp_all

lemma lex_less_total: "xs \<noteq> ys \<Longrightarrow> \<not> lex_less xs ys \<Longrightarrow> lex_less ys xs"
  by (induction xs ys rule: lex_less.induct) (auto split: if_splits)

definition be_value :: "bytes \<Rightarrow> nat" where
  "be_value bs = foldl (\<lambda>v b. 256 * v + unat b) 0 bs"

lemma be_value_Nil [simp]: "be_value [] = 0"
  by (simp add: be_value_def)

lemma be_value_snoc [simp]: "be_value (bs @ [b]) = 256 * be_value bs + unat b"
  by (simp add: be_value_def)

lemma be_value_Cons: "be_value (b # bs) = unat b * 256 ^ length bs + be_value bs"
proof (induction bs rule: rev_induct)
  case Nil
  show ?case by (simp add: be_value_def)
next
  case (snoc x xs)
  have "be_value (b # xs @ [x]) = 256 * be_value (b # xs) + unat x"
    using be_value_snoc [of "b # xs" x] by simp
  with snoc show ?case by (simp add: algebra_simps)
qed

lemma be_value_bound: "be_value bs < 256 ^ length bs"
proof (induction bs rule: rev_induct)
  case (snoc x xs)
  then have "256 * be_value xs + unat x < 256 * be_value xs + 256" by simp
  also have "\<dots> \<le> 256 * 256 ^ length xs" using snoc by simp
  finally show ?case by simp
qed simp

lemma lex_less_be_value:
  "length xs = length ys \<Longrightarrow> lex_less xs ys \<longleftrightarrow> be_value xs < be_value ys"
proof (induction xs ys rule: lex_less.induct)
  case (4 x xs y ys)
  have b: "be_value xs < 256 ^ length ys" "be_value ys < 256 ^ length ys"
    using be_value_bound [of xs] be_value_bound [of ys] 4 by simp_all
  consider "x < y" | "y < x" | "x = y" by fastforce
  then show ?case
  proof cases
    case 1
    then have "Suc (unat x) \<le> unat y" by (simp add: word_less_nat_alt)
    then have "Suc (unat x) * 256 ^ length ys \<le> unat y * 256 ^ length ys" by (rule mult_le_mono1)
    with 1 b 4 show ?thesis by (simp add: be_value_Cons)
  next
    case 2
    then have "Suc (unat y) \<le> unat x" by (simp add: word_less_nat_alt)
    then have "Suc (unat y) * 256 ^ length ys \<le> unat x * 256 ^ length ys" by (rule mult_le_mono1)
    with 2 b 4 show ?thesis by (auto simp add: be_value_Cons)
  next
    case 3
    with 4 show ?thesis by (simp add: be_value_Cons)
  qed
qed simp_all

section \<open>Components with atomic operations\<close>

text \<open>
  The contract between a component and its callers that catch its exceptions: every
  operation keeps the invariant, and an operation that throws leaves no trace.
  \<open>run_ops\<close> is a client that issues operations and swallows the errors.
\<close>

definition run_ops :: "('s \<Rightarrow> 'op \<Rightarrow> 's \<times> (error + 'r)) \<Rightarrow> 's \<Rightarrow> 'op list \<Rightarrow> 's" where
  "run_ops exec s ops = foldl (\<lambda>s op. fst (exec s op)) s ops"

lemma run_ops_simps [simp]:
  "run_ops exec s [] = s"
  "run_ops exec s (op # ops) = run_ops exec (fst (exec s op)) ops"
  by (simp_all add: run_ops_def)

text \<open>The operations of a run that returned normally.\<close>

fun succeeded :: "('s \<Rightarrow> 'op \<Rightarrow> 's \<times> (error + 'r)) \<Rightarrow> 's \<Rightarrow> 'op list \<Rightarrow> 'op list" where
  "succeeded exec s [] = []"
| "succeeded exec s (op # ops) =
     (case exec s op of (s', Inl e) \<Rightarrow> succeeded exec s' ops
      | (s', Inr r) \<Rightarrow> op # succeeded exec s' ops)"

locale atomic_ops =
  fixes exec :: "'s \<Rightarrow> 'op \<Rightarrow> 's \<times> (error + 'r)"
    and inv :: "'s \<Rightarrow> bool"
  assumes exec_inv: "inv s \<Longrightarrow> inv (fst (exec s op))"
    and exec_error: "inv s \<Longrightarrow> exec s op = (s', Inl e) \<Longrightarrow> s' = s"
begin

lemma run_inv: "inv s \<Longrightarrow> inv (run_ops exec s ops)"
  by (induction ops arbitrary: s) (simp_all add: exec_inv)

lemma run_succeeded: "inv s \<Longrightarrow> run_ops exec s (succeeded exec s ops) = run_ops exec s ops"
proof (induction ops arbitrary: s)
  case (Cons op ops)
  obtain s' r where ex: "exec s op = (s', r)"
    by fastforce
  with Cons.prems exec_inv [of s op] have "inv s'"
    by simp
  with Cons ex show ?case
    by (cases r) (auto dest: exec_error)
qed simp

end

section \<open>Blocks of equal length\<close>

lemma append_eq_same_length:
  "length a = length b \<Longrightarrow> a @ s = b @ t \<longleftrightarrow> a = b \<and> s = t"
  by simp

lemma concat_blocks_inject:
  assumes "length xs = length ys"
    and "\<forall>x \<in> set xs. length x = k" and "\<forall>y \<in> set ys. length y = k"
  shows "concat xs @ s = concat ys @ t \<longleftrightarrow> xs = ys \<and> s = t"
  using assms by (induction xs ys rule: list_induct2) auto

section \<open>Registers that accept a value once\<close>

text \<open>
  The contract of the registers that prevent double spending and replay: \<open>register\<close>
  reports whether the value was new, \<open>taken\<close> looks it up, \<open>same\<close> is the equality the
  register decides by. \<open>accepted\<close> is a client that offers values and keeps those that
  were reported new.
\<close>

fun accepted :: "('s \<Rightarrow> 'i \<Rightarrow> 's \<times> bool) \<Rightarrow> 's \<Rightarrow> 'i list \<Rightarrow> 'i list" where
  "accepted register s [] = []"
| "accepted register s (i # is) =
     (case register s i of (s', new) \<Rightarrow>
       if new then i # accepted register s' is else accepted register s' is)"

locale once_register =
  fixes register :: "'s \<Rightarrow> 'i \<Rightarrow> 's \<times> bool"
    and taken :: "'s \<Rightarrow> 'i \<Rightarrow> bool"
    and same :: "'i \<Rightarrow> 'i \<Rightarrow> bool"
  assumes register_new: "snd (register s i) \<longleftrightarrow> \<not> taken s i"
    and taken_register: "taken (fst (register s i)) j \<longleftrightarrow> taken s j \<or> same i j"
begin

lemma accepted_not_taken: "j \<in> set (accepted register s is) \<Longrightarrow> \<not> taken s j"
proof (induction "is" arbitrary: s)
  case (Cons i "is")
  obtain s' new where r: "register s i = (s', new)"
    by fastforce
  from Cons.prems r register_new [of s i] taken_register [of s i] Cons.IH [of s'] show ?case
    by (auto split: if_splits)
qed simp

lemma accepted_once: "sorted_wrt (\<lambda>i j. \<not> same i j) (accepted register s is)"
proof (induction "is" arbitrary: s)
  case (Cons i "is")
  obtain s' new where r: "register s i = (s', new)"
    by fastforce
  have "\<not> same i j" if "j \<in> set (accepted register s' is)" for j
    using accepted_not_taken [OF that] taken_register [of s i j] r by simp
  with Cons.IH [of s'] r show ?case
    by simp
qed simp

lemma second_refused:
  assumes "same i j"
  shows "\<not> snd (register (fst (register s i)) j)"
  using assms by (simp add: register_new taken_register)

end

end
