(* ===== verification/Amounts.thy ===== *)
theory Amounts
  imports Prelude
begin

text \<open>
  Model of the pure helpers of \<^verbatim>\<open>include/types.hpp\<close>: checked 64-bit amounts in
  micro-USDT, the fixed-point fee, hexadecimal encoding and decoding, the formatting of
  an amount and the validation of EVM addresses.
\<close>

section \<open>Amounts\<close>

type_synonym amount = u64

definition USDT_UNIT :: amount where
  "USDT_UNIT = 1000000"

definition PROTOCOL_VERSION :: u32 where
  "PROTOCOL_VERSION = 3"

definition MAX_TRANSACTION_AMOUNT :: amount where
  "MAX_TRANSACTION_AMOUNT = 100000000000000"

text \<open>
  The C++ functions return a success flag and write an output parameter that no caller
  reads after a failure: \<open>None\<close> is the \<^verbatim>\<open>false\<close> result.
\<close>

definition safe_add_amount :: "amount \<Rightarrow> amount \<Rightarrow> amount option" where
  "safe_add_amount a b = (if unat a + unat b < 2 ^ 64 then Some (a + b) else None)"

definition safe_sub_amount :: "amount \<Rightarrow> amount \<Rightarrow> amount option" where
  "safe_sub_amount a b = (if a < b then None else Some (a - b))"

definition safe_fee_calc :: "amount \<Rightarrow> u32 \<Rightarrow> error + amount" where
  "safe_fee_calc amt bps =
     (if bps > 10000 then Inl Fee_rate_above_limit
      else let product = (ucast amt :: 128 word) * ucast bps
           in Inr (ucast (product div 10000)))"

text \<open>Evaluation tests the wrapped sum instead of comparing large natural numbers.\<close>

lemma safe_add_amount_code [code]:
  "safe_add_amount a b = (if a \<le> a + b then Some (a + b) else None)"
  using no_olen_add_nat [of a b] by (simp add: safe_add_amount_def)

lemma safe_add_amount_eq_Some:
  "safe_add_amount a b = Some c \<longleftrightarrow> unat a + unat b < 2 ^ 64 \<and> c = a + b"
  by (auto simp: safe_add_amount_def)

lemma safe_add_amount_eq_None: "safe_add_amount a b = None \<longleftrightarrow> 2 ^ 64 \<le> unat a + unat b"
  by (auto simp: safe_add_amount_def)

lemma safe_sub_amount_eq_Some: "safe_sub_amount a b = Some c \<longleftrightarrow> b \<le> a \<and> c = a - b"
  by (auto simp: safe_sub_amount_def)

lemma safe_sub_amount_eq_None: "safe_sub_amount a b = None \<longleftrightarrow> a < b"
  by (simp add: safe_sub_amount_def)

lemma unat_safe_add [exact_arith]:
  "safe_add_amount a b = Some c \<Longrightarrow> unat c = unat a + unat b"
  by (auto simp: safe_add_amount_eq_Some exact_arith)

lemma unat_safe_sub [exact_arith]:
  "safe_sub_amount a b = Some c \<Longrightarrow> unat c = unat a - unat b \<and> unat b \<le> unat a"
  by (auto simp: safe_sub_amount_eq_Some exact_arith word_le_nat_alt)

lemma fee_le_amount: "r \<le> 10000 \<Longrightarrow> n * r div 10000 \<le> (n :: nat)"
  by (metis div_le_mono mult_le_mono2 nonzero_mult_div_cancel_right zero_neq_numeral)

text \<open>The fee never overflows and is the exact floor of \<open>amount * bps / 10000\<close>.\<close>

lemma unat_safe_fee_calc:
  assumes "bps \<le> 10000"
  obtains fee where "safe_fee_calc amt bps = Inr fee"
    and "unat fee = unat amt * unat bps div 10000"
proof
  let ?p = "(ucast amt :: 128 word) * ucast bps"
  have bps: "unat bps \<le> 10000"
    using assms by (simp add: word_le_nat_alt)
  have "unat amt * unat bps < 18446744073709551616 * 10001"
    by (rule mult_strict_mono) (use bps in auto)
  then have p: "unat ?p = unat amt * unat bps"
    by (simp add: unat_word_ariths unat_ucast_up)
  have "unat amt * unat bps div 10000 \<le> unat amt"
    by (rule fee_le_amount [OF bps])
  then have small: "unat amt * unat bps div 10000 < 2 ^ 64"
    by (rule le_less_trans) simp
  show "safe_fee_calc amt bps = Inr (ucast (?p div 10000))"
    using assms by (simp add: safe_fee_calc_def not_less Let_def)
  show "unat (ucast (?p div 10000) :: amount) = unat amt * unat bps div 10000"
    using small by (simp add: unat_ucast unat_div p)
qed

lemma safe_fee_calc_Inr:
  assumes "safe_fee_calc amt bps = Inr fee"
  shows "bps \<le> 10000" and "unat fee = unat amt * unat bps div 10000" and "fee \<le> amt"
proof -
  show b: "bps \<le> 10000"
    using assms by (auto simp: safe_fee_calc_def not_less split: if_splits)
  show f: "unat fee = unat amt * unat bps div 10000"
    using assms by (rule_tac unat_safe_fee_calc [OF b, of amt]) simp
  show "fee \<le> amt"
    using b by (simp add: word_le_nat_alt f fee_le_amount)
qed

lemma safe_fee_calc_Inl:
  "safe_fee_calc amt bps = Inl e \<longleftrightarrow> bps > 10000 \<and> e = Fee_rate_above_limit"
  by (auto simp: safe_fee_calc_def Let_def)

section \<open>Hexadecimal strings\<close>

definition hex_digit :: "nat \<Rightarrow> char" where
  "hex_digit n = ''0123456789abcdef'' ! n"

text \<open>
  \<^verbatim>\<open>std::hex << std::setw(2) << std::setfill('0')\<close> prints the two lower-case digits of
  each byte.
\<close>

definition to_hex :: "bytes \<Rightarrow> string" where
  "to_hex data = concat (map (\<lambda>b. [hex_digit (unat b div 16), hex_digit (unat b mod 16)]) data)"

text \<open>\<^verbatim>\<open>std::isxdigit\<close> in the C locale, and the value \<^verbatim>\<open>std::stoul(_, _, 16)\<close> gives a digit.\<close>

definition isxdigit :: "char \<Rightarrow> bool" where
  "isxdigit c = (let n = (of_char c :: nat) in
     48 \<le> n \<and> n \<le> 57 \<or> 65 \<le> n \<and> n \<le> 70 \<or> 97 \<le> n \<and> n \<le> 102)"

definition hex_value :: "char \<Rightarrow> nat" where
  "hex_value c = (let n = (of_char c :: nat) in
     if n \<le> 57 then n - 48 else if n \<le> 70 then n - 55 else n - 87)"

text \<open>
  The loop of \<^verbatim>\<open>from_hex\<close> over the substrings of two characters. \<^verbatim>\<open>std::stoul\<close> consumes
  both characters of a substring of two digits, so its \<^verbatim>\<open>idx != 2\<close> branch is never taken.
\<close>

fun hex_pairs :: "string \<Rightarrow> bytes" where
  "hex_pairs (c # d # s) = of_nat (16 * hex_value c + hex_value d) # hex_pairs s"
| "hex_pairs _ = []"

definition from_hex :: "string \<Rightarrow> error + bytes" where
  "from_hex hex =
     (if length hex mod 2 \<noteq> 0 then Inl Hex_odd_length
      else if \<not> list_all isxdigit hex then Inl Hex_bad_char
      else Inr (hex_pairs hex))"

lemma hex_digit_cases:
  assumes "n < 16"
  shows "isxdigit (hex_digit n) \<and> hex_value (hex_digit n) = n"
proof -
  have "list_all (\<lambda>n. isxdigit (hex_digit n) \<and> hex_value (hex_digit n) = n) [0..<16]"
    by code_simp
  then show ?thesis
    using assms by (simp add: list_all_iff)
qed

lemma isxdigit_hex_digit [simp]: "n < 16 \<Longrightarrow> isxdigit (hex_digit n)"
  by (simp add: hex_digit_cases)

lemma hex_value_hex_digit [simp]: "n < 16 \<Longrightarrow> hex_value (hex_digit n) = n"
  by (simp add: hex_digit_cases)

lemma to_hex_Nil [simp]: "to_hex [] = []"
  by (simp add: to_hex_def)

lemma to_hex_Cons [simp]:
  "to_hex (b # bs) = hex_digit (unat b div 16) # hex_digit (unat b mod 16) # to_hex bs"
  by (simp add: to_hex_def)

lemma length_to_hex [simp]: "length (to_hex bs) = 2 * length bs"
  by (induction bs) simp_all

lemma byte_div_16 [simp]: "unat (b :: byte) div 16 < 16"
  by (rule less_mult_imp_div_less) simp

lemma isxdigit_to_hex: "list_all isxdigit (to_hex bs)"
  by (induction bs) simp_all

lemma hex_pairs_to_hex: "hex_pairs (to_hex bs) = bs"
  by (induction bs) simp_all

lemma from_hex_to_hex [simp]: "from_hex (to_hex bs) = Inr bs"
  by (simp add: from_hex_def isxdigit_to_hex hex_pairs_to_hex)

lemma to_hex_inject [simp]: "to_hex a = to_hex b \<longleftrightarrow> a = b"
  by (metis hex_pairs_to_hex)

lemma length_hex_pairs: "length (hex_pairs s) = length s div 2"
  by (induction s rule: hex_pairs.induct) simp_all

lemma from_hex_length: "from_hex s = Inr bs \<Longrightarrow> length s = 2 * length bs"
  by (auto simp: from_hex_def length_hex_pairs split: if_splits)

section \<open>Decimal formatting\<close>

definition dec_digit :: "nat \<Rightarrow> char" where
  "dec_digit n = char_of (48 + n)"

fun dec_string :: "nat \<Rightarrow> string" where
  "dec_string n =
     (if n < 10 then [dec_digit n] else dec_string (n div 10) @ [dec_digit (n mod 10)])"

declare dec_string.simps [simp del]

definition set_width :: "nat \<Rightarrow> string \<Rightarrow> string" where
  "set_width w s = replicate (w - length s) (CHR ''0'') @ s"

definition format_usdt :: "amount \<Rightarrow> string" where
  "format_usdt micro_usdt =
     (let whole = micro_usdt div USDT_UNIT;
          frac = micro_usdt mod USDT_UNIT
      in dec_string (unat whole) @ ''.'' @ set_width 6 (dec_string (unat frac)) @ '' USDT'')"

text \<open>The number a string of decimal digits denotes.\<close>

definition dec_value :: "string \<Rightarrow> nat" where
  "dec_value s = foldl (\<lambda>v c. 10 * v + (of_char c - 48)) 0 s"

lemma of_char_dec_digit: "n < 10 \<Longrightarrow> of_char (dec_digit n) = 48 + n"
  by (simp add: dec_digit_def)

lemma dec_value_dec_string [simp]: "dec_value (dec_string n) = n"
proof (induction n rule: dec_string.induct)
  case (1 n)
  show ?case
  proof (cases "n < 10")
    case True
    then show ?thesis
      by (simp add: dec_string.simps [of n] dec_value_def of_char_dec_digit)
  next
    case False
    with 1 show ?thesis
      by (simp add: dec_string.simps [of n] dec_value_def of_char_dec_digit)
  qed
qed

lemma dec_value_set_width [simp]: "dec_value (set_width w s) = dec_value s"
proof -
  have "foldl (\<lambda>v c. 10 * v + (of_char c - 48)) 0 (replicate k (CHR ''0'')) = (0::nat)" for k
    by (induction k) simp_all
  then show ?thesis
    by (simp add: set_width_def dec_value_def)
qed

lemma dec_string_digits: "\<forall>c \<in> set (dec_string n). of_char c \<in> {48..57::nat}"
proof (induction n rule: dec_string.induct)
  case (1 n)
  then show ?case
    by (cases "n < 10") (auto simp: dec_string.simps [of n] of_char_dec_digit)
qed

lemma dec_string_no_dot: "CHR ''.'' \<notin> set (dec_string n)"
proof
  assume "CHR ''.'' \<in> set (dec_string n)"
  then have "of_char CHR ''.'' \<in> {48..57::nat}"
    using dec_string_digits by blast
  then show False
    by simp
qed

lemma takeWhile_dec_string:
  "takeWhile (\<lambda>c. c \<noteq> CHR ''.'') (dec_string n @ CHR ''.'' # s) = dec_string n"
  using dec_string_no_dot [of n] by (subst takeWhile_append2) auto

section \<open>EVM addresses\<close>

text \<open>The loop over the 40 digits, with the flag that all of them were zero so far.\<close>

fun evm_scan :: "string \<Rightarrow> bool \<Rightarrow> bool" where
  "evm_scan [] all_zero = (\<not> all_zero)"
| "evm_scan (c # cs) all_zero =
     (if \<not> isxdigit c then False
      else evm_scan cs (if c \<noteq> CHR ''0'' then False else all_zero))"

definition is_valid_evm_address :: "string \<Rightarrow> bool" where
  "is_valid_evm_address addr =
     (if length addr \<noteq> 42 then False
      else if addr ! 0 \<noteq> CHR ''0'' \<or> addr ! 1 \<noteq> CHR ''x'' \<and> addr ! 1 \<noteq> CHR ''X'' then False
      else evm_scan (drop 2 addr) True)"

lemma evm_scan_iff:
  "evm_scan s z \<longleftrightarrow> list_all isxdigit s \<and> (z \<longrightarrow> (\<exists>c \<in> set s. c \<noteq> CHR ''0''))"
  by (induction s arbitrary: z) auto

end
