(* ===== verification/Serial.thy ===== *)
theory Serial
  imports Prelude
begin

text \<open>
  Model of \<^verbatim>\<open>include/serialization.hpp\<close>. A \<^verbatim>\<open>ByteWriter\<close> is its buffer; a \<^verbatim>\<open>ByteReader\<close> is the
  data with the cursor, and each read either throws or returns a value and the reader
  with the advanced cursor. \<open>parses d bs x\<close> is the contract a decoder has with the bytes
  some encoder produced, in any context, and the locale \<open>codec\<close> is that contract as an
  interface with what follows from it: injectivity, unique decoding, and the same for
  counted lists.
\<close>

section \<open>Writer\<close>

type_synonym writer = bytes

definition write_u8 :: "writer \<Rightarrow> byte \<Rightarrow> writer" where
  "write_u8 w val = w @ [val]"

definition write_u32 :: "writer \<Rightarrow> u32 \<Rightarrow> writer" where
  "write_u32 w val = foldl (\<lambda>w i. w @ [ucast (drop_bit (i * 8) val AND 0xFF)]) w [0..<4]"

definition write_u64 :: "writer \<Rightarrow> u64 \<Rightarrow> writer" where
  "write_u64 w val = foldl (\<lambda>w i. w @ [ucast (drop_bit (i * 8) val AND 0xFF)]) w [0..<8]"

definition write_bytes :: "writer \<Rightarrow> bytes \<Rightarrow> writer" where
  "write_bytes w data = (if length data > 0 then w @ data else w)"

definition write_array :: "writer \<Rightarrow> bytes \<Rightarrow> writer" where
  "write_array w arr = write_bytes w arr"

definition write_string :: "writer \<Rightarrow> string \<Rightarrow> error + writer" where
  "write_string w str =
     (if length str > 4294967295 then Inl String_too_large
      else let w' = write_u32 w (of_nat (length str))
           in Inr (if str \<noteq> [] then write_bytes w' (bytes_of_string str) else w'))"

text \<open>Evaluation compares the length as an integer.\<close>

lemma write_string_code [code]:
  "write_string w str =
     (if int (length str) > 4294967295 then Inl String_too_large
      else Inr (write_bytes (write_u32 w (of_nat (length str))) (bytes_of_string str)))"
  by (cases "str = []") (auto simp: write_string_def write_bytes_def bytes_of_string_def)

section \<open>Reader\<close>

record reader =
  rd_data :: bytes
  rd_cursor :: nat

type_synonym 'a read = "reader \<Rightarrow> error + ('a \<times> reader)"

definition MAX_SERIALIZED_STRING_BYTES :: nat where
  "MAX_SERIALIZED_STRING_BYTES = 64 * 1024"

definition new_reader :: "bytes \<Rightarrow> reader" where
  "new_reader data = \<lparr>rd_data = data, rd_cursor = 0\<rparr>"

definition remaining :: "reader \<Rightarrow> nat" where
  "remaining r =
     (if rd_cursor r \<le> length (rd_data r) then length (rd_data r) - rd_cursor r else 0)"

definition require_remaining :: "nat \<Rightarrow> reader \<Rightarrow> error + unit" where
  "require_remaining len r =
     (if rd_cursor r > length (rd_data r) \<or> len > length (rd_data r) - rd_cursor r
      then Inl Read_overflow else Inr ())"

definition advance :: "nat \<Rightarrow> reader \<Rightarrow> reader" where
  "advance n r = r\<lparr>rd_cursor := rd_cursor r + n\<rparr>"

definition read_u8 :: "byte read" where
  "read_u8 r = ebind (require_remaining 1 r) (\<lambda>_.
     Inr (rd_data r ! rd_cursor r, advance 1 r))"

definition read_u32 :: "u32 read" where
  "read_u32 r = ebind (require_remaining 4 r) (\<lambda>_.
     Inr (foldl (\<lambda>(val, r) i.
                   (val OR push_bit (i * 8) (ucast (rd_data r ! rd_cursor r)), advance 1 r))
                (0, r) [0..<4]))"

definition read_u64 :: "u64 read" where
  "read_u64 r = ebind (require_remaining 8 r) (\<lambda>_.
     Inr (foldl (\<lambda>(val, r) i.
                   (val OR push_bit (i * 8) (ucast (rd_data r ! rd_cursor r)), advance 1 r))
                (0, r) [0..<8]))"

definition read_bytes :: "nat \<Rightarrow> bytes read" where
  "read_bytes len r = ebind (require_remaining len r) (\<lambda>_.
     Inr (take len (drop (rd_cursor r) (rd_data r)), advance len r))"

definition read_array :: "nat \<Rightarrow> bytes read" where
  "read_array N r = read_bytes N r"

definition read_string :: "string read" where
  "read_string r = ebind (read_u32 r) (\<lambda>(len, r).
     if unat len > MAX_SERIALIZED_STRING_BYTES then Inl String_limit_exceeded
     else ebind (require_remaining (unat len) r) (\<lambda>_.
       Inr (string_of_bytes (take (unat len) (drop (rd_cursor r) (rd_data r))),
            advance (unat len) r)))"

text \<open>Sequencing of reads, and the counted loops \<^verbatim>\<open>for (i < n) v.push_back(read(r))\<close>.\<close>

definition rbind :: "'a read \<Rightarrow> ('a \<Rightarrow> 'b read) \<Rightarrow> 'b read" where
  "rbind p f r = ebind (p r) (\<lambda>(x, r'). f x r')"

definition rpure :: "'a \<Rightarrow> 'a read" where
  "rpure x r = Inr (x, r)"

definition rfail :: "error \<Rightarrow> 'a read" where
  "rfail e r = Inl e"

fun read_n :: "nat \<Rightarrow> 'a read \<Rightarrow> 'a list read" where
  "read_n 0 p = rpure []"
| "read_n (Suc n) p = rbind p (\<lambda>x. rbind (read_n n p) (\<lambda>xs. rpure (x # xs)))"

section \<open>Big-endian keys\<close>

definition to_big_endian_64 :: "u64 \<Rightarrow> u64" where
  "to_big_endian_64 val =
     drop_bit 56 (val AND 0xFF00000000000000) OR
     drop_bit 40 (val AND 0x00FF000000000000) OR
     drop_bit 24 (val AND 0x0000FF0000000000) OR
     drop_bit 8  (val AND 0x000000FF00000000) OR
     push_bit 8  (val AND 0x00000000FF000000) OR
     push_bit 24 (val AND 0x0000000000FF0000) OR
     push_bit 40 (val AND 0x000000000000FF00) OR
     push_bit 56 (val AND 0x00000000000000FF)"

definition from_big_endian_64 :: "u64 \<Rightarrow> u64" where
  "from_big_endian_64 val = to_big_endian_64 val"

section \<open>Little-endian bytes\<close>

definition le_bytes :: "nat \<Rightarrow> 'a::len word \<Rightarrow> bytes" where
  "le_bytes n val = map (\<lambda>i. ucast (drop_bit (i * 8) val)) [0..<n]"

definition le_value :: "bytes \<Rightarrow> 'a::len word" where
  "le_value bs = foldl (\<lambda>v i. v OR push_bit (i * 8) (ucast (bs ! i))) 0 [0..<length bs]"

lemma length_le_bytes [simp]: "length (le_bytes n v) = n"
  by (simp add: le_bytes_def)

lemma bit_le_fold:
  "bit (foldl (\<lambda>v i. v OR push_bit (i * 8) (ucast (f i :: byte))) (0 :: 'a::len word) [0..<n]) k
   \<longleftrightarrow> k < LENGTH('a) \<and> k < 8 * n \<and> bit (f (k div 8)) (k mod 8)"
proof (induction n)
  case (Suc n)
  have *: "bit (push_bit (n * 8) (ucast (f n) :: 'a word)) k
      \<longleftrightarrow> k < LENGTH('a) \<and> k div 8 = n \<and> bit (f n) (k mod 8)"
  proof (cases "k div 8 = n")
    case True
    then show ?thesis
      by (auto simp: bit_push_bit_iff bit_ucast_iff minus_div_mult_eq_mod)
  next
    case False
    then show ?thesis
      by (auto simp: bit_push_bit_iff bit_ucast_iff dest: bit_imp_le_length)
  qed
  moreover have "k div 8 = n \<longleftrightarrow> 8 * n \<le> k \<and> k < 8 * Suc n"
    by auto
  ultimately show ?case
    using Suc by (auto simp: bit_or_iff)
qed simp

lemma le_value_le_bytes:
  assumes "8 * n = LENGTH('a::len)"
  shows "le_value (le_bytes n v) = (v :: 'a word)"
proof (rule bit_word_eqI)
  fix k
  assume k: "k < LENGTH('a)"
  then have "k div 8 < n"
    using assms by simp
  moreover have "k div 8 * 8 + k mod 8 = k"
    by simp
  ultimately show "bit (le_value (le_bytes n v) :: 'a word) k \<longleftrightarrow> bit v k"
    using k assms
    by (simp add: le_value_def bit_le_fold le_bytes_def bit_ucast_iff bit_drop_bit_eq)
qed

lemma ucast_and_255: "ucast (x AND 0xFF) = (ucast (x :: 'a::len word) :: byte)"
proof -
  have "x AND 0xFF = take_bit 8 x"
    by (simp add: take_bit_eq_mask mask_eq_exp_minus_1)
  then show ?thesis
    by (intro bit_word_eqI) (auto simp: bit_ucast_iff bit_take_bit_iff dest: bit_imp_le_length)
qed

lemma foldl_snoc: "foldl (\<lambda>w i. w @ [f i]) w is = w @ map f is"
  by (induction "is" arbitrary: w) simp_all

lemma write_u8_eq: "write_u8 w v = w @ [v]"
  by (simp add: write_u8_def)

lemma write_u32_eq: "write_u32 w v = w @ le_bytes 4 v"
  by (simp only: write_u32_def foldl_snoc le_bytes_def ucast_and_255)

lemma write_u64_eq: "write_u64 w v = w @ le_bytes 8 v"
  by (simp only: write_u64_def foldl_snoc le_bytes_def ucast_and_255)

lemma write_array_eq: "write_array w a = w @ a"
  by (simp add: write_array_def write_bytes_def)

text \<open>The bytes of a serialised string: its length and its characters.\<close>

definition string_layout :: "string \<Rightarrow> bytes" where
  "string_layout s = le_bytes 4 (of_nat (length s) :: u32) @ bytes_of_string s"

lemma write_string_eq:
  "write_string w s = (if length s > 4294967295 then Inl String_too_large else Inr (w @ string_layout s))"
  by (simp add: write_string_def write_u32_eq write_bytes_def string_layout_def Let_def
      bytes_of_string_def)

lemmas writer_simps = write_u8_eq write_u32_eq write_u64_eq write_array_eq

section \<open>Height keys\<close>

lemma le_bytes_Suc: "le_bytes (Suc n) v = le_bytes n v @ [ucast (drop_bit (n * 8) v)]"
  by (simp add: le_bytes_def)

lemma unat_byte_of: "unat (ucast (drop_bit (n * 8) (v :: u64)) :: byte) = unat v div 256 ^ n mod 256"
  by (simp only: unat_ucast unat_drop_bit_eq) (simp add: drop_bit_eq_div power_mult mult.commute [of n])

lemma be_value_rev_le_bytes: "be_value (rev (le_bytes n (v :: u64))) = unat v mod 256 ^ n"
proof (induction n)
  case 0 show ?case by (simp add: le_bytes_def)
next
  case (Suc n)
  have "be_value (rev (le_bytes (Suc n) v)) = unat v div 256 ^ n mod 256 * 256 ^ n + unat v mod 256 ^ n"
    by (simp add: le_bytes_Suc be_value_Cons Suc unat_byte_of)
  also have "\<dots> = unat v mod (256 ^ n * 256)"
    by (subst mod_mult2_eq) simp
  finally show ?case by (simp add: mult.commute)
qed


lemma byte_masks:
  "(0xFF00000000000000 :: u64) = push_bit 56 (mask 8)"
  "(0x00FF000000000000 :: u64) = push_bit 48 (mask 8)"
  "(0x0000FF0000000000 :: u64) = push_bit 40 (mask 8)"
  "(0x000000FF00000000 :: u64) = push_bit 32 (mask 8)"
  "(0x00000000FF000000 :: u64) = push_bit 24 (mask 8)"
  "(0x0000000000FF0000 :: u64) = push_bit 16 (mask 8)"
  "(0x000000000000FF00 :: u64) = push_bit 8 (mask 8)"
  "(0x00000000000000FF :: u64) = push_bit 0 (mask 8)"
  by (simp_all add: mask_eq_exp_minus_1 push_bit_eq_mult)

lemma bit_to_big_endian:
  assumes "i < 8" and "j < 8"
  shows "bit (to_big_endian_64 v) (i * 8 + j) \<longleftrightarrow> bit v ((7 - i) * 8 + j)"
proof -
  have "i \<in> {0, 1, 2, 3, 4, 5, 6, 7}"
    using assms(1) by auto
  then show ?thesis
    using assms(2)
    by (elim insertE) (simp_all add: to_big_endian_64_def byte_masks bit_or_iff bit_and_iff
        bit_drop_bit_eq bit_push_bit_iff bit_mask_iff)
qed

lemma le_bytes_to_big_endian: "le_bytes 8 (to_big_endian_64 v) = rev (le_bytes 8 v)"
proof (rule nth_equalityI)
  fix i
  assume "i < length (le_bytes 8 (to_big_endian_64 v))"
  then have i: "i < 8"
    by simp
  have "ucast (drop_bit (i * 8) (to_big_endian_64 v)) = (ucast (drop_bit ((7 - i) * 8) v) :: byte)"
    by (rule bit_word_eqI) (simp add: bit_ucast_iff bit_drop_bit_eq bit_to_big_endian [OF i])
  moreover have "[0..<8] ! (7 - i) = 7 - i"
    using nth_upt [of 0 "7 - i" 8] by simp
  ultimately show "le_bytes 8 (to_big_endian_64 v) ! i = rev (le_bytes 8 v) ! i"
    using i by (simp add: rev_nth le_bytes_def)
qed simp

lemma from_to_big_endian [simp]: "from_big_endian_64 (to_big_endian_64 v) = v"
proof (rule bit_word_eqI)
  fix k :: nat
  assume "k < LENGTH(64)"
  then have k: "k div 8 < 8" "k mod 8 < 8" "7 - (7 - k div 8) = k div 8" "7 - k div 8 < 8"
    by auto
  have "bit (to_big_endian_64 (to_big_endian_64 v)) (k div 8 * 8 + k mod 8)
      \<longleftrightarrow> bit v (k div 8 * 8 + k mod 8)"
    by (simp only: bit_to_big_endian k)
  then show "bit (from_big_endian_64 (to_big_endian_64 v)) k \<longleftrightarrow> bit v k"
    by (simp add: from_big_endian_64_def)
qed
section \<open>The decoder contract\<close>

text \<open>A reader that has consumed \<open>pre\<close> and still has \<open>rest\<close>.\<close>

definition reader_at :: "bytes \<Rightarrow> bytes \<Rightarrow> reader" where
  "reader_at pre rest = \<lparr>rd_data = pre @ rest, rd_cursor = length pre\<rparr>"

definition parses :: "'a read \<Rightarrow> bytes \<Rightarrow> 'a \<Rightarrow> bool" where
  "parses p bs x \<longleftrightarrow> (\<forall>pre rest. p (reader_at pre (bs @ rest)) = Inr (x, reader_at (pre @ bs) rest))"

lemma new_reader_at: "new_reader bs = reader_at [] bs"
  by (simp add: new_reader_def reader_at_def)

lemma remaining_at [simp]: "remaining (reader_at pre rest) = length rest"
  by (simp add: remaining_def reader_at_def)

lemma require_at [simp]:
  "require_remaining n (reader_at pre rest) = (if length rest < n then Inl Read_overflow else Inr ())"
  by (simp add: require_remaining_def reader_at_def)

lemma advance_at: "length bs = n \<Longrightarrow> advance n (reader_at pre (bs @ rest)) = reader_at (pre @ bs) rest"
  by (simp add: advance_def reader_at_def)

lemma read_loop:
  "foldl (\<lambda>(val, r) i. (val OR push_bit (i * 8) (ucast (rd_data r ! rd_cursor r)), advance 1 r))
     (0 :: 'a::len word, r) [0..<n]
   = (foldl (\<lambda>v i. v OR push_bit (i * 8) (ucast (rd_data r ! (rd_cursor r + i)))) 0 [0..<n], advance n r)"
  by (induction n) (simp_all add: advance_def)

lemma read_loop_at:
  assumes "length bs = n"
  shows "foldl (\<lambda>(val, r) i. (val OR push_bit (i * 8) (ucast (rd_data r ! rd_cursor r)), advance 1 r))
     (0 :: 'a::len word, reader_at pre (bs @ rest)) [0..<n] = (le_value bs, reader_at (pre @ bs) rest)"
proof -
  have "foldl (\<lambda>v i. v OR push_bit (i * 8) (ucast (rd_data (reader_at pre (bs @ rest)) !
          (rd_cursor (reader_at pre (bs @ rest)) + i)))) 0 [0..<n] = (le_value bs :: 'a word)"
    unfolding le_value_def assms
    by (rule foldl_cong) (simp_all add: reader_at_def nth_append assms)
  then show ?thesis
    by (simp only: read_loop advance_at [OF assms])
qed

lemma parses_u8 [parse_rules]: "parses read_u8 [v] v"
  using advance_at [where bs = "[v]" and n = 1]
  by (simp add: parses_def read_u8_def) (simp add: reader_at_def)

lemma parses_u32 [parse_rules]: "parses read_u32 (le_bytes 4 v) v"
  by (simp add: parses_def read_u32_def read_loop_at le_value_le_bytes del: One_nat_def)

lemma parses_u64 [parse_rules]: "parses read_u64 (le_bytes 8 v) v"
  by (simp add: parses_def read_u64_def read_loop_at le_value_le_bytes del: One_nat_def)

lemma parses_array [parse_rules]: "length a = n \<Longrightarrow> parses (read_array n) a a"
  by (simp add: parses_def read_array_def read_bytes_def advance_at) (simp add: reader_at_def)

lemma parses_rbind [parse_rules]:
  "parses p bs x \<Longrightarrow> parses (f x) cs y \<Longrightarrow> parses (rbind p f) (bs @ cs) y"
  by (simp add: parses_def rbind_def)

lemma parses_rpure [parse_rules]: "parses (rpure x) [] x"
  by (simp add: parses_def rpure_def)

lemma parses_rbind_last:
  "parses p bs x \<Longrightarrow> parses (f x) [] y \<Longrightarrow> parses (rbind p f) bs y"
  using parses_rbind [of p bs x f "[]" y] by simp

lemma parses_checked [parse_rules]:
  "\<not> b \<Longrightarrow> parses k bs x \<Longrightarrow> parses (if b then rfail e else k) bs x"
  by simp

lemma parses_string [parse_rules]:
  assumes "length s \<le> MAX_SERIALIZED_STRING_BYTES"
  shows "parses read_string (string_layout s) s"
proof -
  have len: "unat (of_nat (length s) :: u32) = length s"
    using assms by (simp add: unat_of_nat MAX_SERIALIZED_STRING_BYTES_def)
  have u32: "read_u32 (reader_at pre (le_bytes 4 (of_nat (length s) :: u32) @ rest))
      = Inr (of_nat (length s), reader_at (pre @ le_bytes 4 (of_nat (length s) :: u32)) rest)" for pre rest
    using parses_u32 by (simp only: parses_def)
  show ?thesis
    using assms
    by (simp add: parses_def read_string_def string_layout_def u32 len advance_at)
       (simp add: reader_at_def)
qed

lemma parses_fails_not: "parses p bs x \<Longrightarrow> p (reader_at pre (bs @ rest)) \<noteq> Inl e"
  by (simp add: parses_def)

text \<open>Optional tails: the code reads a field only if enough bytes remain.\<close>

lemma parses_if_remaining [parse_rules]:
  "n \<le> length bs \<Longrightarrow> parses p bs x \<Longrightarrow>
   parses (\<lambda>r. if n \<le> remaining r then p r else q r) bs x"
  by (simp add: parses_def)

lemma parses_if_remaining_less [parse_rules]:
  "n < length bs \<Longrightarrow> parses p bs x \<Longrightarrow>
   parses (\<lambda>r. if n < remaining r then p r else q r) bs x"
  by (simp add: parses_def)

text \<open>The bytes after the field count as remaining too.\<close>

lemma parses_rbind_if_remaining_less:
  "n < length bs \<Longrightarrow> parses (rbind p f) bs x \<Longrightarrow>
   parses (rbind (\<lambda>r. if n < remaining r then p r else q r) f) bs x"
  by (simp add: parses_def rbind_def)

lemma parses_if_version [parse_rules]:
  "P \<Longrightarrow> n \<le> length bs \<Longrightarrow> parses p bs x \<Longrightarrow>
   parses (\<lambda>r. if P \<and> n \<le> remaining r then p r else q r) bs x"
  by (simp add: parses_def)

lemmas parse_steps = parse_rules parses_rbind_last

lemma parses_read_n:
  "(\<And>x. x \<in> set xs \<Longrightarrow> parses p (enc x) x) \<Longrightarrow> parses (read_n (length xs) p) (concat (map enc xs)) xs"
proof (induction xs)
  case Nil
  show ?case
    by (simp add: parses_rpure)
next
  case (Cons x xs)
  have "parses (rbind (read_n (length xs) p) (\<lambda>xs. rpure (x # xs))) (concat (map enc xs)) (x # xs)"
    using Cons by (intro parses_rbind_last [OF _ parses_rpure]) simp
  then have "parses (rbind p (\<lambda>x. rbind (read_n (length xs) p) (\<lambda>xs. rpure (x # xs))))
      (enc x @ concat (map enc xs)) (x # xs)"
    using Cons.prems by (intro parses_rbind) simp_all
  then show ?case
    by simp
qed

section \<open>What a reader guarantees on any bytes\<close>

text \<open>
  \<open>follows r r'\<close>: the same data, the cursor moved only forward and not past the end.
  \<open>reads p Q\<close>: started with the cursor inside the data, \<open>p\<close> returns a value that satisfies
  \<open>Q\<close> and a reader that follows.
\<close>

definition in_data :: "reader \<Rightarrow> bool" where
  "in_data r \<longleftrightarrow> rd_cursor r \<le> length (rd_data r)"

definition follows :: "reader \<Rightarrow> reader \<Rightarrow> bool" where
  "follows r r' \<longleftrightarrow> rd_data r' = rd_data r \<and> rd_cursor r \<le> rd_cursor r' \<and> in_data r'"

definition reads :: "'a read \<Rightarrow> ('a \<Rightarrow> bool) \<Rightarrow> bool" where
  "reads p Q \<longleftrightarrow> (\<forall>r x r'. in_data r \<longrightarrow> p r = Inr (x, r') \<longrightarrow> Q x \<and> follows r r')"

lemma readsI: "(\<And>r x r'. in_data r \<Longrightarrow> p r = Inr (x, r') \<Longrightarrow> Q x \<and> follows r r') \<Longrightarrow> reads p Q"
  by (simp add: reads_def)

lemma readsD: "reads p Q \<Longrightarrow> in_data r \<Longrightarrow> p r = Inr (x, r') \<Longrightarrow> Q x \<and> follows r r'"
  by (simp add: reads_def)

lemma follows_trans: "follows r1 r2 \<Longrightarrow> follows r2 r3 \<Longrightarrow> follows r1 r3"
  by (simp add: follows_def)

lemma follows_in_data: "follows r r' \<Longrightarrow> in_data r'"
  by (simp add: follows_def)

lemma follows_refl: "in_data r \<Longrightarrow> follows r r"
  by (simp add: follows_def)

lemma follows_advance:
  "require_remaining n r = Inr u \<Longrightarrow> follows r (advance n r)"
  by (auto simp: require_remaining_def follows_def advance_def in_data_def split: if_splits)

lemma reads_weaken: "reads p Q \<Longrightarrow> (\<And>x. Q x \<Longrightarrow> R x) \<Longrightarrow> reads p R"
  unfolding reads_def by blast

lemma reads_rpure [read_rules]: "Q x \<Longrightarrow> reads (rpure x) Q"
  by (simp add: reads_def rpure_def follows_refl)

lemma reads_rfail [read_rules]: "reads (rfail e) Q"
  by (simp add: reads_def rfail_def)

lemma reads_rbind:
  assumes "reads p P" and "\<And>x. P x \<Longrightarrow> reads (f x) Q"
  shows "reads (rbind p f) Q"
proof (rule readsI)
  fix r y r'
  assume r: "in_data r" and "rbind p f r = Inr (y, r')"
  then obtain x r1 where p: "p r = Inr (x, r1)" and f: "f x r1 = Inr (y, r')"
    by (auto simp: rbind_def ebind_eq_Inr)
  from readsD [OF assms(1) r p] have 1: "P x" "follows r r1"
    by simp_all
  from readsD [OF assms(2) [OF 1(1)] follows_in_data [OF 1(2)] f] 1(2)
  show "Q y \<and> follows r r'"
    using follows_trans by blast
qed

lemma reads_checked [read_rules]: "(\<not> b \<Longrightarrow> reads k Q) \<Longrightarrow> reads (if b then rfail e else k) Q"
  by (simp add: reads_rfail)

lemma reads_if_reader [read_rules]:
  "reads p Q \<Longrightarrow> reads q Q \<Longrightarrow> reads (\<lambda>r. if b r then p r else q r) Q"
  unfolding reads_def by simp

lemma reads_u32 [read_rules]: "reads read_u32 (\<lambda>_. True)"
proof (rule readsI)
  fix r x r'
  assume "read_u32 r = Inr (x, r')"
  then have "r' = advance 4 r" and "\<exists>u. require_remaining 4 r = Inr u"
    unfolding read_u32_def by (auto simp only: read_loop ebind_eq_Inr sum.inject prod.inject)
  then show "True \<and> follows r r'"
    using follows_advance by blast
qed

lemma reads_u64 [read_rules]: "reads read_u64 (\<lambda>_. True)"
proof (rule readsI)
  fix r x r'
  assume "read_u64 r = Inr (x, r')"
  then have "r' = advance 8 r" and "\<exists>u. require_remaining 8 r = Inr u"
    unfolding read_u64_def by (auto simp only: read_loop ebind_eq_Inr sum.inject prod.inject)
  then show "True \<and> follows r r'"
    using follows_advance by blast
qed

lemma reads_array [read_rules]: "reads (read_array n) (\<lambda>a. length a = n)"
proof (rule readsI)
  fix r x r'
  assume "read_array n r = Inr (x, r')"
  then have "r' = advance n r" and "\<exists>u. require_remaining n r = Inr u"
    and "x = take n (drop (rd_cursor r) (rd_data r))"
    by (auto simp: read_array_def read_bytes_def ebind_eq_Inr)
  then show "length x = n \<and> follows r r'"
    using follows_advance by (auto simp: require_remaining_def split: if_splits)
qed

lemma reads_string [read_rules]: "reads read_string (\<lambda>s. length s \<le> MAX_SERIALIZED_STRING_BYTES)"
proof (rule readsI)
  fix r s r'
  assume r: "in_data r" and "read_string r = Inr (s, r')"
  then obtain len r1 u where u: "read_u32 r = Inr (len, r1)"
    and len: "unat len \<le> MAX_SERIALIZED_STRING_BYTES"
    and req: "require_remaining (unat len) r1 = Inr u"
    and s: "s = string_of_bytes (take (unat len) (drop (rd_cursor r1) (rd_data r1)))"
    and r': "r' = advance (unat len) r1"
    by (auto simp: read_string_def ebind_eq_Inr not_less split: if_splits)
  have "follows r r'"
    using follows_trans [OF _ follows_advance [OF req]] readsD [OF reads_u32 r u] r' by blast
  then show "length s \<le> MAX_SERIALIZED_STRING_BYTES \<and> follows r r'"
    using len by (simp add: s string_of_bytes_def)
qed

lemma reads_read_n:
  assumes "reads p Q"
  shows "reads (read_n n p) (\<lambda>xs. length xs = n \<and> list_all Q xs)"
proof (induction n)
  case 0
  show ?case
    by (simp add: reads_rpure)
next
  case (Suc n)
  show ?case
    unfolding read_n.simps
    by (rule reads_rbind [OF assms], rule reads_rbind [OF Suc]) (simp add: reads_rpure)
qed

section \<open>Codecs\<close>

text \<open>An encoder and a decoder that agree on the well-formed values.\<close>

locale codec =
  fixes enc :: "'a \<Rightarrow> bytes"
    and dec :: "'a read"
    and ok :: "'a \<Rightarrow> bool"
  assumes decode: "ok x \<Longrightarrow> parses dec (enc x) x"
begin

lemma decode_at: "ok x \<Longrightarrow> dec (reader_at pre (enc x @ rest)) = Inr (x, reader_at (pre @ enc x) rest)"
  using decode by (simp add: parses_def)

lemma encode_prefix_free:
  assumes "ok x" and "ok y" and "enc x @ s = enc y @ t"
  shows "x = y \<and> s = t"
proof -
  have "Inr (x, reader_at (enc x) s) = (Inr (y, reader_at (enc y) t) :: error + _)"
    using decode_at [OF assms(1), of "[]" s] decode_at [OF assms(2), of "[]" t] assms(3) by simp
  then show ?thesis
    using assms(3) by simp
qed

lemma encode_inject: "ok x \<Longrightarrow> ok y \<Longrightarrow> enc x = enc y \<Longrightarrow> x = y"
  using encode_prefix_free [of x y "[]" "[]"] by simp

lemma decode_list:
  "list_all ok xs \<Longrightarrow> parses (read_n (length xs) dec) (concat (map enc xs)) xs"
  by (rule parses_read_n) (simp add: decode list_all_iff)

end

interpretation u32_codec: codec "le_bytes 4" read_u32 "\<lambda>_. True"
  by unfold_locales (rule parses_u32)

interpretation u64_codec: codec "le_bytes 8" read_u64 "\<lambda>_. True"
  by unfold_locales (rule parses_u64)

interpretation key_codec: codec "\<lambda>a. a" "read_array 32" "\<lambda>a. length a = 32"
  by unfold_locales (rule parses_array)

interpretation string_codec: codec string_layout read_string
    "\<lambda>s. length s \<le> MAX_SERIALIZED_STRING_BYTES"
  by unfold_locales (rule parses_string)

section \<open>Properties\<close>

text \<open>
  The height keys of the database sort as the heights: the bytes in memory of
  \<open>to_big_endian_64 a\<close> precede those of \<open>to_big_endian_64 b\<close> lexicographically exactly
  when \<open>a < b\<close>, and the conversion is undone by its inverse.
\<close>

theorem height_keys_ordered:
  "(lex_less (le_bytes 8 (to_big_endian_64 a)) (le_bytes 8 (to_big_endian_64 b)) \<longleftrightarrow> a < b)
     \<and> from_big_endian_64 (to_big_endian_64 a) = a"
  by (simp add: le_bytes_to_big_endian lex_less_be_value be_value_rev_le_bytes word_less_nat_alt)

end
