(* ===== verification/Sodium.thy ===== *)
theory Sodium
  imports Amounts Serial
begin

text \<open>
  The interface to libsodium and OpenSSL, which are not part of the repository: a record
  of functions that every definition using them takes as an argument. A function whose
  return code the code tests returns an option (\<open>None\<close> is a non-zero return);
  \<open>mult_base\<close> returns code and output, because several callers ignore the code. What a
  theorem relies on is one of the named hypotheses below. The theory also models the two
  hashing helpers of \<^verbatim>\<open>include/types.hpp\<close>.
\<close>

section \<open>The library interface\<close>

record sodium =
  generichash :: "nat \<Rightarrow> bytes \<Rightarrow> bytes \<Rightarrow> bytes"
    \<comment> \<open>\<^verbatim>\<open>crypto_generichash\<close>: output length, input, key (empty: none)\<close>
  sha256 :: "bytes \<Rightarrow> bytes"
  is_valid_point :: "bytes \<Rightarrow> bool"
  from_uniform :: "bytes \<Rightarrow> bytes option"
  ed_add :: "bytes \<Rightarrow> bytes \<Rightarrow> bytes option"
  ed_sub :: "bytes \<Rightarrow> bytes \<Rightarrow> bytes option"
  mult_base :: "bytes \<Rightarrow> bool \<times> bytes"
    \<comment> \<open>\<^verbatim>\<open>crypto_scalarmult_ed25519_base_noclamp\<close>: whether it returned 0, output\<close>
  mult_noclamp :: "bytes \<Rightarrow> bytes \<Rightarrow> bytes option"
  scalar_reduce :: "bytes \<Rightarrow> bytes"
  scalar_add :: "bytes \<Rightarrow> bytes \<Rightarrow> bytes"
  scalar_mul :: "bytes \<Rightarrow> bytes \<Rightarrow> bytes"
  scalar_sub :: "bytes \<Rightarrow> bytes \<Rightarrow> bytes"
  sign_detached :: "bytes \<Rightarrow> bytes \<Rightarrow> bytes"
    \<comment> \<open>message, secret key\<close>
  verify_detached :: "bytes \<Rightarrow> bytes \<Rightarrow> bytes \<Rightarrow> bool"
    \<comment> \<open>signature, message, public key\<close>
  sk_to_pk :: "bytes \<Rightarrow> bytes"

text \<open>\<open>base_point S s\<close> is the encoding of \<open>s * G\<close>, whatever the return code.\<close>

definition base_point :: "sodium \<Rightarrow> bytes \<Rightarrow> bytes" where
  "base_point S s = snd (mult_base S s)"

section \<open>Hypotheses on the library\<close>

text \<open>
  Documented laws of the group of prime order in which the library works. \<open>sc\<close> are the
  canonical scalars, \<open>grp\<close> the encodings of the points other than the identity, \<open>G\<close> the
  base point. A multiplication fails exactly on a zero scalar, because the library
  refuses the identity as a result. \<open>dh_commutes\<close>: \<open>a (b G) = b (a G)\<close>, success
  included. \<open>base_additive\<close>: \<open>s G + a G = (s + a) G\<close>.
\<close>

definition nonzero_scalar :: "sodium \<Rightarrow> bytes \<Rightarrow> bool" where
  "nonzero_scalar S s = fst (mult_base S s)"

definition ed25519_identity :: bytes where
  "ed25519_identity = 1 # replicate 31 0"

definition eight_scalar :: bytes where
  "eight_scalar = 8 # replicate 31 0"

definition dh_commutes :: "sodium \<Rightarrow> (bytes \<Rightarrow> bool) \<Rightarrow> bool" where
  "dh_commutes S sc \<longleftrightarrow>
     (\<forall>a b. sc a \<longrightarrow> sc b \<longrightarrow> mult_noclamp S a (base_point S b) = mult_noclamp S b (base_point S a))"

definition base_additive :: "sodium \<Rightarrow> (bytes \<Rightarrow> bool) \<Rightarrow> bool" where
  "base_additive S sc \<longleftrightarrow>
     (\<forall>s a P. sc s \<longrightarrow> sc a \<longrightarrow> ed_add S (base_point S s) (base_point S a) = Some P
        \<longrightarrow> base_point S (scalar_add S s a) = P)"

definition reduces_to :: "sodium \<Rightarrow> (bytes \<Rightarrow> bool) \<Rightarrow> bool" where
  "reduces_to S sc \<longleftrightarrow> (\<forall>x. sc (scalar_reduce S x))"

definition scalar_field :: "sodium \<Rightarrow> (bytes \<Rightarrow> bool) \<Rightarrow> bool" where
  "scalar_field S sc \<longleftrightarrow>
     reduces_to S sc \<and> sc eight_scalar \<and> nonzero_scalar S eight_scalar
   \<and> (\<forall>a b. sc a \<longrightarrow> sc b \<longrightarrow>
        sc (scalar_mul S a b) \<and> sc (scalar_sub S a b)
      \<and> scalar_add S (scalar_sub S a b) b = a
      \<and> (nonzero_scalar S (scalar_mul S a b) \<longleftrightarrow> nonzero_scalar S a \<and> nonzero_scalar S b))"

definition prime_group :: "sodium \<Rightarrow> (bytes \<Rightarrow> bool) \<Rightarrow> (bytes \<Rightarrow> bool) \<Rightarrow> bytes \<Rightarrow> bool" where
  "prime_group S sc grp G \<longleftrightarrow>
     grp G
   \<and> (\<forall>H. grp H \<longrightarrow> is_valid_point S H \<and> H \<noteq> ed25519_identity)
   \<and> (\<forall>a. sc a \<longrightarrow> nonzero_scalar S a \<longrightarrow> mult_noclamp S a G = Some (base_point S a))
   \<and> (\<forall>a H. sc a \<longrightarrow> grp H \<longrightarrow>
        (mult_noclamp S a H = None \<longleftrightarrow> \<not> nonzero_scalar S a)
      \<and> (\<forall>A. mult_noclamp S a H = Some A \<longrightarrow> grp A))
   \<and> (\<forall>c x H I. sc c \<longrightarrow> sc x \<longrightarrow> grp H \<longrightarrow> mult_noclamp S x H = Some I
        \<longrightarrow> mult_noclamp S c I = mult_noclamp S (scalar_mul S c x) H)
   \<and> (\<forall>a b H A B C. sc a \<longrightarrow> sc b \<longrightarrow> grp H \<longrightarrow> mult_noclamp S a H = Some A
        \<longrightarrow> mult_noclamp S b H = Some B \<longrightarrow> mult_noclamp S (scalar_add S a b) H = Some C
        \<longrightarrow> ed_add S A B = Some C)"

lemma prime_groupD:
  assumes "prime_group S sc grp G"
  shows "grp G"
    and "grp H \<Longrightarrow> is_valid_point S H"
    and "grp H \<Longrightarrow> H \<noteq> ed25519_identity"
    and "sc a \<Longrightarrow> nonzero_scalar S a \<Longrightarrow> mult_noclamp S a G = Some (base_point S a)"
    and "sc a \<Longrightarrow> grp H \<Longrightarrow> mult_noclamp S a H = None \<longleftrightarrow> \<not> nonzero_scalar S a"
    and "sc a \<Longrightarrow> grp H \<Longrightarrow> mult_noclamp S a H = Some A \<Longrightarrow> grp A"
    and "sc c \<Longrightarrow> sc x \<Longrightarrow> grp H \<Longrightarrow> mult_noclamp S x H = Some I
      \<Longrightarrow> mult_noclamp S c I = mult_noclamp S (scalar_mul S c x) H"
    and "sc a \<Longrightarrow> sc b \<Longrightarrow> grp H \<Longrightarrow> mult_noclamp S a H = Some A \<Longrightarrow> mult_noclamp S b H = Some B
      \<Longrightarrow> mult_noclamp S (scalar_add S a b) H = Some C \<Longrightarrow> ed_add S A B = Some C"
  using assms unfolding prime_group_def by blast+

lemma scalar_fieldD:
  assumes "scalar_field S sc"
  shows "reduces_to S sc" and "sc eight_scalar" and "nonzero_scalar S eight_scalar"
    and "sc a \<Longrightarrow> sc b \<Longrightarrow> sc (scalar_mul S a b)"
    and "sc a \<Longrightarrow> sc b \<Longrightarrow> sc (scalar_sub S a b)"
    and "sc a \<Longrightarrow> sc b \<Longrightarrow> scalar_add S (scalar_sub S a b) b = a"
    and "sc a \<Longrightarrow> sc b \<Longrightarrow>
      nonzero_scalar S (scalar_mul S a b) \<longleftrightarrow> nonzero_scalar S a \<and> nonzero_scalar S b"
  using assms unfolding scalar_field_def by blast+

text \<open>A nonzero multiple of a point of the group is a valid key image for the verifiers.\<close>

lemma group_image_valid:
  assumes "scalar_field S sc" and "prime_group S sc grp G" and "sc x" and "grp H"
    and "mult_noclamp S x H = Some I"
  obtains I8 where "is_valid_point S I" and "mult_noclamp S eight_scalar I = Some I8"
    and "I8 \<noteq> ed25519_identity"
proof -
  note G = prime_groupD [OF assms(2)]
  note F = scalar_fieldD [OF assms(1)]
  have I: "grp I"
    by (rule G(6) [OF assms(3,4,5)])
  then obtain I8 where I8: "mult_noclamp S eight_scalar I = Some I8"
    using G(5) [OF F(2) I] F(3) by (cases "mult_noclamp S eight_scalar I") auto
  show ?thesis
    using that [OF G(2) [OF I] I8 G(3) [OF G(6) [OF F(2) I I8]]] .
qed

section \<open>Helpers of types.hpp\<close>

definition canonical_key_image :: "sodium \<Rightarrow> bytes \<Rightarrow> bytes" where
  "canonical_key_image S img =
     (case ed_add S img img of None \<Rightarrow> img
      | Some p2 \<Rightarrow> (case ed_add S p2 p2 of None \<Rightarrow> img
      | Some p4 \<Rightarrow> (case ed_add S p4 p4 of None \<Rightarrow> img
      | Some p8 \<Rightarrow> p8)))"

text \<open>
  The integers are hashed from memory, in the little-endian order of the supported
  platforms.
\<close>

definition attestation_input ::
  "u64 \<Rightarrow> string \<Rightarrow> string \<Rightarrow> u32 \<Rightarrow> amount \<Rightarrow> bytes \<Rightarrow> bytes \<Rightarrow> u64 \<Rightarrow> bytes" where
  "attestation_input chain_id contract_address tx_hash log_index gross_amount view_pub spend_pub
     l2_block_number =
     bytes_of_string ''DEPOSIT_ATTESTATION_V1''
     @ le_bytes 8 chain_id
     @ bytes_of_string contract_address
     @ bytes_of_string tx_hash
     @ le_bytes 4 log_index
     @ le_bytes 8 gross_amount
     @ view_pub
     @ spend_pub
     @ le_bytes 8 l2_block_number"

definition compute_deposit_attestation_hash ::
  "sodium \<Rightarrow> u64 \<Rightarrow> string \<Rightarrow> string \<Rightarrow> u32 \<Rightarrow> amount \<Rightarrow> bytes \<Rightarrow> bytes \<Rightarrow> u64 \<Rightarrow> bytes" where
  "compute_deposit_attestation_hash S chain_id contract_address tx_hash log_index gross_amount
     view_pub spend_pub l2_block_number =
     sha256 S (attestation_input chain_id contract_address tx_hash log_index gross_amount
                 view_pub spend_pub l2_block_number)"

section \<open>A reference instance\<close>

text \<open>
  An instance of the interface on which the hypotheses hold and everything computes; it
  is used by the witnesses. The group is the integers modulo 13; the scalar of value \<open>n\<close>
  is encoded as the byte \<open>n\<close> followed by zeros, the point of value \<open>n\<close> as the byte
  \<open>n + 1\<close> followed by zeros (so that the identity has the encoding the sources test for),
  multiplication fails on the identity as the library's does, and a signature is the
  message tagged with the key.
\<close>

definition lead :: "bytes \<Rightarrow> byte" where
  "lead xs = (case xs of [] \<Rightarrow> 0 | x # _ \<Rightarrow> x)"

definition pad32 :: "byte \<Rightarrow> bytes" where
  "pad32 b = b # replicate 31 0"

definition scalar :: "nat \<Rightarrow> bytes" where
  "scalar n = pad32 (of_nat (n mod 13))"

definition scalar_value :: "bytes \<Rightarrow> nat" where
  "scalar_value s = unat (lead s) mod 13"

definition point :: "nat \<Rightarrow> bytes" where
  "point n = pad32 (of_nat (n mod 13 + 1))"

definition point_value :: "bytes \<Rightarrow> nat" where
  "point_value p = (unat (lead p) + 12) mod 13"

definition mix :: "bytes \<Rightarrow> byte" where
  "mix m = foldl (+) 1 m"

definition toy_mult :: "nat \<Rightarrow> nat \<Rightarrow> bytes option" where
  "toy_mult a p = (if a * p mod 13 = 0 then None else Some (point (a * p)))"

definition toy_sodium :: sodium where
  "toy_sodium =
     \<lparr>generichash = (\<lambda>n m k. mix (m @ k) # replicate (n - 1) 0),
      sha256 = (\<lambda>m. mix m # replicate 31 0),
      is_valid_point = (\<lambda>p. length p = 32 \<and> point_value p \<noteq> 0),
      from_uniform = (\<lambda>u. Some (point (unat (lead u) mod 12 + 1))),
      ed_add = (\<lambda>p q. Some (point (point_value p + point_value q))),
      ed_sub = (\<lambda>p q. Some (point (point_value p + (13 - point_value q)))),
      mult_base = (\<lambda>s. (scalar_value s \<noteq> 0, point (scalar_value s))),
      mult_noclamp = (\<lambda>s p. toy_mult (scalar_value s) (point_value p)),
      scalar_reduce = (\<lambda>x. scalar (unat (lead x))),
      scalar_add = (\<lambda>a b. scalar (scalar_value a + scalar_value b)),
      scalar_mul = (\<lambda>a b. scalar (scalar_value a * scalar_value b)),
      scalar_sub = (\<lambda>a b. scalar (scalar_value a + (13 - scalar_value b))),
      sign_detached = (\<lambda>m sk. pad32 (mix m + lead sk) @ replicate 32 0),
      verify_detached = (\<lambda>s m pk. lead s = mix m + lead pk),
      sk_to_pk = (\<lambda>sk. pad32 (lead sk))\<rparr>"

lemma lead_pad32 [simp]: "lead (pad32 b) = b"
  by (simp add: lead_def pad32_def)

lemma lead_Cons [simp]: "lead (b # bs) = b"
  by (simp add: lead_def)

lemma length_pad32 [simp]: "length (pad32 b) = 32"
  by (simp add: pad32_def)

lemma length_point [simp]: "length (point b) = 32"
  by (simp add: point_def)

lemma length_scalar [simp]: "length (scalar b) = 32"
  by (simp add: scalar_def)

lemma unat_small: "n \<le> 13 \<Longrightarrow> unat (of_nat n :: byte) = n"
  by (simp add: unat_of_nat)

lemma lead_point: "unat (lead (point n)) = n mod 13 + 1"
  using unat_small [of "n mod 13 + 1"] by (simp add: point_def)

lemma lead_scalar: "unat (lead (scalar n)) = n mod 13"
  using unat_small [of "n mod 13"] by (simp add: scalar_def)

lemma point_value_point [simp]: "point_value (point n) = n mod 13"
  by (simp add: point_value_def lead_point)

lemma scalar_value_scalar [simp]: "scalar_value (scalar n) = n mod 13"
  by (simp add: scalar_value_def lead_scalar)

lemma scalar_value_less [simp]: "scalar_value s < 13"
  by (simp add: scalar_value_def)

lemma point_value_less [simp]: "point_value s < 13"
  by (simp add: point_value_def)

lemma point_mod [simp]: "point (n mod 13) = point n"
  by (simp add: point_def)

lemma scalar_mod [simp]: "scalar (n mod 13) = scalar n"
  by (simp add: scalar_def)

lemma point_eq_iff [simp]: "point m = point n \<longleftrightarrow> m mod 13 = n mod 13"
  by (metis point_mod point_value_point)

lemma scalar_eq_iff [simp]: "scalar m = scalar n \<longleftrightarrow> m mod 13 = n mod 13"
  by (metis scalar_mod scalar_value_scalar)

lemma toy_simps [simp]:
  "generichash toy_sodium n m k = mix (m @ k) # replicate (n - 1) 0"
  "sha256 toy_sodium m = mix m # replicate 31 0"
  "is_valid_point toy_sodium p \<longleftrightarrow> length p = 32 \<and> point_value p \<noteq> 0"
  "from_uniform toy_sodium m = Some (point (unat (lead m) mod 12 + 1))"
  "ed_add toy_sodium p q = Some (point (point_value p + point_value q))"
  "ed_sub toy_sodium p q = Some (point (point_value p + (13 - point_value q)))"
  "mult_base toy_sodium s = (scalar_value s \<noteq> 0, point (scalar_value s))"
  "mult_noclamp toy_sodium s p = toy_mult (scalar_value s) (point_value p)"
  "scalar_reduce toy_sodium m = scalar (unat (lead m))"
  "scalar_add toy_sodium s r = scalar (scalar_value s + scalar_value r)"
  "scalar_mul toy_sodium s r = scalar (scalar_value s * scalar_value r)"
  "scalar_sub toy_sodium s r = scalar (scalar_value s + (13 - scalar_value r))"
  "sign_detached toy_sodium m s = pad32 (mix m + lead s) @ replicate 32 0"
  "verify_detached toy_sodium p m q \<longleftrightarrow> lead p = mix m + lead q"
  "sk_to_pk toy_sodium s = pad32 (lead s)"
  by (simp_all add: toy_sodium_def)

lemma foldl_zeros: "foldl (+) b (replicate n 0) = (b :: byte)"
  by (induction n) simp_all

lemma mix_pad32 [simp]: "mix (pad32 b) = b + 1"
  by (simp add: mix_def pad32_def foldl_zeros)

lemma mix_point [simp]: "mix (point n) = of_nat (n mod 13 + 2)"
  by (simp add: point_def)

lemma toy_base_point [simp]: "base_point toy_sodium s = point (scalar_value s)"
  by (simp add: base_point_def)

lemma toy_nonzero [simp]: "nonzero_scalar toy_sodium s \<longleftrightarrow> scalar_value s \<noteq> 0"
  by (simp add: nonzero_scalar_def)

definition toy_scalar :: "bytes \<Rightarrow> bool" where
  "toy_scalar s \<longleftrightarrow> s = scalar (scalar_value s)"

definition toy_point :: "bytes \<Rightarrow> bool" where
  "toy_point p \<longleftrightarrow> p = point (point_value p) \<and> point_value p \<noteq> 0"

lemma toy_scalar_scalar [simp]: "toy_scalar (scalar n)"
  by (simp add: toy_scalar_def)

lemma toy_point_point [simp]: "toy_point (point n) \<longleftrightarrow> n mod 13 \<noteq> 0"
  by (simp add: toy_point_def)

lemma coprime_13:
  assumes "0 < a" and "a < 13"
  shows "coprime a (13 :: nat)"
proof -
  have "list_all (\<lambda>a. gcd a (13 :: nat) = 1) [1..<13]"
    by code_simp
  then show ?thesis
    using assms by (simp add: list_all_iff coprime_iff_gcd_eq_1)
qed

lemma mod_13_mult: "a < 13 \<Longrightarrow> a * b mod 13 = 0 \<longleftrightarrow> a = 0 \<or> b mod 13 = (0 :: nat)"
  using coprime_13 [of a] by (cases "a = 0") (auto simp: coprime_dvd_mult_right_iff coprime_commute
      mod_eq_0_iff_dvd)

lemma toy_mult_None: "a < 13 \<Longrightarrow> b < 13 \<Longrightarrow> toy_mult a b = None \<longleftrightarrow> a = 0 \<or> b = 0"
  by (auto simp: toy_mult_def mod_13_mult)

lemma toy_dh_commutes: "dh_commutes toy_sodium sc"
  by (simp add: dh_commutes_def toy_mult_def mult.commute)

lemma toy_base_additive: "base_additive toy_sodium sc"
  by (auto simp: base_additive_def)

lemma toy_reduces_to: "reduces_to toy_sodium toy_scalar"
  by (simp add: reduces_to_def)

lemma toy_eight [simp]: "scalar_value eight_scalar = 8"
  by (simp add: scalar_value_def eight_scalar_def)

lemma toy_sub_add: "a < 13 \<Longrightarrow> b < 13 \<Longrightarrow> scalar ((a + (13 - b)) mod 13 + b) = scalar a"
  by (metis add.assoc le_add_diff_inverse2 less_imp_le mod_add_left_eq mod_add_self2 scalar_mod)

lemma toy_scalar_field: "scalar_field toy_sodium toy_scalar"
  unfolding scalar_field_def
  by (auto simp: toy_reduces_to toy_sub_add mod_13_mult) (auto simp: toy_scalar_def eight_scalar_def
      scalar_value_def pad32_def scalar_def)

lemma toy_mult_Some: "toy_mult a p = Some A \<longleftrightarrow> a * p mod 13 \<noteq> 0 \<and> A = point (a * p)"
  by (auto simp: toy_mult_def)

lemma identity_point: "ed25519_identity = point 0"
  by (simp add: ed25519_identity_def point_def pad32_def)

lemma point_eq_identity: "point n = ed25519_identity \<longleftrightarrow> n mod 13 = 0"
  unfolding identity_point by simp

lemma toy_valid: "toy_point p \<Longrightarrow> is_valid_point toy_sodium p \<and> p \<noteq> ed25519_identity"
  unfolding toy_point_def
  by (metis length_point mod_less point_eq_identity point_value_less toy_simps(3))

lemma toy_prime_group: "prime_group toy_sodium toy_scalar toy_point (point 1)"
  unfolding prime_group_def
proof (intro conjI allI impI)
  show "toy_point (point 1)"
    by simp
next
  fix H assume "toy_point H"
  then show "is_valid_point toy_sodium H" and "H \<noteq> ed25519_identity"
    using toy_valid by blast+
next
  fix a assume "nonzero_scalar toy_sodium a"
  then show "mult_noclamp toy_sodium a (point 1) = Some (base_point toy_sodium a)"
    by (simp add: toy_mult_def)
next
  fix a H assume "toy_point H"
  then show "mult_noclamp toy_sodium a H = None \<longleftrightarrow> \<not> nonzero_scalar toy_sodium a"
    by (simp add: toy_mult_None toy_point_def)
next
  fix a H A assume "mult_noclamp toy_sodium a H = Some A"
  then show "toy_point A"
    by (auto simp: toy_mult_Some)
next
  fix c x H I assume "mult_noclamp toy_sodium x H = Some I"
  then show "mult_noclamp toy_sodium c I = mult_noclamp toy_sodium (scalar_mul toy_sodium c x) H"
    by (simp add: toy_mult_Some)
       (simp add: toy_mult_def point_eq_iff mod_mult_left_eq mod_mult_right_eq ac_simps)
next
  fix a b H A B C
  assume "mult_noclamp toy_sodium a H = Some A" and "mult_noclamp toy_sodium b H = Some B"
    and "mult_noclamp toy_sodium (scalar_add toy_sodium a b) H = Some C"
  then show "ed_add toy_sodium A B = Some C"
    by (simp add: toy_mult_Some)
       (simp add: point_eq_iff mod_add_eq mod_mult_left_eq distrib_right)
qed

section \<open>Properties\<close>

text \<open>
  The deposit attestation does not bind where the contract address ends and the
  transaction hash begins: moving a character across the border changes both fields but
  not the attested hash, so a certificate for one event certifies the other.
\<close>

theorem attestation_border_ambiguous:
  "compute_deposit_attestation_hash S chain contract (x # tx) idx amt vp sp blk
   = compute_deposit_attestation_hash S chain (contract @ [x]) tx idx amt vp sp blk"
  by (simp add: compute_deposit_attestation_hash_def attestation_input_def bytes_of_string_def)

end
