(* ===== verification/Pedersen.thy ===== *)
theory Pedersen
  imports Sodium
begin

text \<open>
  Model of \<^verbatim>\<open>include/pedersen.hpp\<close> and \<^verbatim>\<open>src/pedersen.cpp\<close>: commitments \<open>C = r G + v H\<close>
  and the check that a list of input commitments balances a list of output commitments
  and a public fee. The random blinding factor of \<open>commit\<close> is an argument.
\<close>

section \<open>Commitments\<close>

record pedersen_commitment =
  commitment_point :: bytes
  blinding_factor :: bytes
  committed_value :: amount

text \<open>
  The cached \<open>H\<close> of \<^verbatim>\<open>get_H\<close> is a constant of the library: a failed initialisation is
  repeated, with the same result, by the next call.
\<close>

definition init_generator_H :: "sodium \<Rightarrow> error + bytes" where
  "init_generator_H S =
     (let hash = generichash S 32 (bytes_of_string ''CryptoPegUSDT_RingCT_Pedersen_Generator_H_Point'') []
      in case from_uniform S hash of None \<Rightarrow> Inl Pedersen_H_map_failed
       | Some H_raw \<Rightarrow>
          (case mult_noclamp S eight_scalar H_raw of None \<Rightarrow> Inl Pedersen_H_cofactor_failed
           | Some H \<Rightarrow> Inr H))"

definition amount_to_scalar :: "sodium \<Rightarrow> amount \<Rightarrow> bytes" where
  "amount_to_scalar S amount = scalar_reduce S (le_bytes 8 amount @ replicate 56 0)"

definition commit_with_blinding :: "sodium \<Rightarrow> amount \<Rightarrow> bytes \<Rightarrow> error + bytes" where
  "commit_with_blinding S amount blinding =
     (let rG = base_point S blinding;
          v_scalar = amount_to_scalar S amount
      in ebind (init_generator_H S) (\<lambda>H.
           case mult_noclamp S v_scalar H of None \<Rightarrow> Inl Pedersen_vH_failed
           | Some vH \<Rightarrow>
              (case ed_add S rG vH of None \<Rightarrow> Inl Pedersen_sum_failed | Some C \<Rightarrow> Inr C)))"

definition pedersen_commit :: "sodium \<Rightarrow> bytes \<Rightarrow> amount \<Rightarrow> error + pedersen_commitment" where
  "pedersen_commit S blinding amount =
     ebind (commit_with_blinding S amount blinding) (\<lambda>C.
       Inr \<lparr>commitment_point = C, blinding_factor = blinding, committed_value = amount\<rparr>)"

definition add_commitments :: "sodium \<Rightarrow> bytes \<Rightarrow> bytes \<Rightarrow> error + bytes" where
  "add_commitments S c1 c2 =
     (case ed_add S c1 c2 of None \<Rightarrow> Inl Pedersen_add_failed | Some res \<Rightarrow> Inr res)"

definition sub_commitments :: "sodium \<Rightarrow> bytes \<Rightarrow> bytes \<Rightarrow> error + bytes" where
  "sub_commitments S c1 c2 =
     (case ed_sub S c1 c2 of None \<Rightarrow> Inl Pedersen_sub_failed | Some res \<Rightarrow> Inr res)"

fun sum_commitments :: "sodium \<Rightarrow> bytes \<Rightarrow> bytes list \<Rightarrow> error + bytes" where
  "sum_commitments S acc [] = Inr acc"
| "sum_commitments S acc (c # cs) =
     ebind (add_commitments S acc c) (\<lambda>acc. sum_commitments S acc cs)"

definition total_with_fee :: "sodium \<Rightarrow> bytes \<Rightarrow> amount \<Rightarrow> error + bytes option" where
  "total_with_fee S sum_out public_fee =
     (if public_fee > 0 then
        ebind (init_generator_H S) (\<lambda>H.
          case mult_noclamp S (amount_to_scalar S public_fee) H of None \<Rightarrow> Inr None
          | Some fee_H \<Rightarrow> ebind (add_commitments S sum_out fee_H) (\<lambda>t. Inr (Some t)))
      else Inr (Some sum_out))"

definition verify_balance_conservation ::
  "sodium \<Rightarrow> bytes list \<Rightarrow> bytes list \<Rightarrow> amount \<Rightarrow> bytes \<Rightarrow> error + bool" where
  "verify_balance_conservation S in_commitments out_commitments public_fee excess =
     (if in_commitments = [] \<or> out_commitments = [] then Inr False
      else if \<not> list_all (is_valid_point S) in_commitments then Inr False
      else if \<not> list_all (is_valid_point S) out_commitments then Inr False
      else if \<not> is_valid_point S excess then Inr False
      else ebind (sum_commitments S (hd in_commitments) (tl in_commitments)) (\<lambda>sum_in.
           ebind (sum_commitments S (hd out_commitments) (tl out_commitments)) (\<lambda>sum_out.
           ebind (total_with_fee S sum_out public_fee) (\<lambda>total.
             case total of None \<Rightarrow> Inr False
             | Some total_out \<Rightarrow>
                 ebind (sub_commitments S sum_in total_out) (\<lambda>diff. Inr (diff = excess))))))"

section \<open>The group written additively\<close>

text \<open>
  The documented behaviour of the group operations on the subgroup of prime order \<open>q\<close>:
  \<open>enc a\<close> is the encoding of \<open>a G\<close> and \<open>val s\<close> the number a scalar stands for. Sums and
  differences are total; the identity, \<open>enc 0\<close>, is not a valid point and a multiplication
  whose result it is fails.
\<close>

definition additive_group :: "sodium \<Rightarrow> int \<Rightarrow> (int \<Rightarrow> bytes) \<Rightarrow> (bytes \<Rightarrow> int) \<Rightarrow> bool" where
  "additive_group S q enc val \<longleftrightarrow>
     (\<forall>a b. enc a = enc b \<longleftrightarrow> a mod q = b mod q)
   \<and> (\<forall>a b. ed_add S (enc a) (enc b) = Some (enc (a + b)))
   \<and> (\<forall>a b. ed_sub S (enc a) (enc b) = Some (enc (a - b)))
   \<and> (\<forall>a. is_valid_point S (enc a) \<longleftrightarrow> a mod q \<noteq> 0)
   \<and> (\<forall>s. base_point S s = enc (val s))
   \<and> (\<forall>s a. mult_noclamp S s (enc a)
        = (if val s * a mod q = 0 then None else Some (enc (val s * a))))
   \<and> (\<forall>v :: u64. val (scalar_reduce S (le_bytes 8 v @ replicate 56 0)) = int (unat v) mod q)"

lemma additive_groupD:
  assumes "additive_group S q enc val"
  shows "enc a = enc b \<longleftrightarrow> a mod q = b mod q"
    and "ed_add S (enc a) (enc b) = Some (enc (a + b))"
    and "ed_sub S (enc a) (enc b) = Some (enc (a - b))"
    and "is_valid_point S (enc a) \<longleftrightarrow> a mod q \<noteq> 0"
    and "base_point S s = enc (val s)"
    and "mult_noclamp S s (enc a) = (if val s * a mod q = 0 then None else Some (enc (val s * a)))"
    and "val (amount_to_scalar S v) = int (unat v) mod q"
  using assms by (simp_all add: additive_group_def amount_to_scalar_def)

lemma mult_amount:
  assumes "additive_group S q enc val"
  shows "mult_noclamp S (amount_to_scalar S v) (enc h)
    = (if int (unat v) * h mod q = 0 then None else Some (enc (int (unat v) * h)))"
  using additive_groupD(6) [OF assms, of "amount_to_scalar S v" h]
    additive_groupD(1) [OF assms, of "int (unat v) mod q * h" "int (unat v) * h"]
  by (simp add: additive_groupD(7) [OF assms] mod_mult_left_eq)

text \<open>The opening of a commitment: a commitment exists exactly for amounts with \<open>v H \<noteq> 0\<close>.\<close>

lemma commit_with_blinding_eq:
  assumes "additive_group S q enc val" and "init_generator_H S = Inr (enc h)"
  shows "commit_with_blinding S v r
    = (if int (unat v) * h mod q = 0 then Inl Pedersen_vH_failed
       else Inr (enc (val r + int (unat v) * h)))"
  using assms(2) mult_amount [OF assms(1), of v h]
  by (simp add: commit_with_blinding_def additive_groupD(2,5) [OF assms(1)])

lemma commit_zero_throws:
  assumes "additive_group S q enc val" and "init_generator_H S = Inr (enc h)"
  shows "pedersen_commit S r 0 = Inl Pedersen_vH_failed"
  by (simp add: pedersen_commit_def commit_with_blinding_eq [OF assms])

lemma sum_commitments_enc:
  assumes "additive_group S q enc val"
  shows "sum_commitments S (enc a) (map enc bs) = Inr (enc (a + sum_list bs))"
  by (induction bs arbitrary: a)
     (simp_all add: add_commitments_def additive_groupD(2) [OF assms] add.assoc)

lemma total_with_fee_enc:
  assumes "additive_group S q enc val" and "init_generator_H S = Inr (enc h)"
  shows "total_with_fee S (enc a) fee
    = (if fee \<noteq> 0 \<and> int (unat fee) * h mod q = 0 then Inr None
       else Inr (Some (enc (a + int (unat fee) * h))))"
  using mult_amount [OF assms(1), of fee h]
  by (simp add: total_with_fee_def assms(2) add_commitments_def additive_groupD(2) [OF assms(1)]
      word_gt_0 del: word_neq_0_conv)

lemma balance_enc:
  assumes "additive_group S q enc val" and "init_generator_H S = Inr (enc h)"
  shows "verify_balance_conservation S (map enc ins) (map enc outs) fee (enc e)
    = Inr (ins \<noteq> [] \<and> outs \<noteq> [] \<and> (\<forall>a \<in> set ins \<union> set outs \<union> {e}. a mod q \<noteq> 0)
        \<and> (fee \<noteq> 0 \<longrightarrow> int (unat fee) * h mod q \<noteq> 0)
        \<and> (sum_list ins - (sum_list outs + int (unat fee) * h)) mod q = e mod q)"
proof (cases "ins = [] \<or> outs = []")
  case False
  then obtain i ins' u outs' where eqs: "ins = i # ins'" "outs = u # outs'"
    by (auto simp: neq_Nil_conv)
  have valid: "list_all (is_valid_point S) (map enc xs) \<longleftrightarrow> (\<forall>a \<in> set xs. a mod q \<noteq> 0)" for xs
    by (auto simp: list_all_iff additive_groupD(4) [OF assms(1)])
  have diff: "sub_commitments S (enc a) (enc b) = Inr (enc (a - b))" for a b
    by (simp add: sub_commitments_def additive_groupD(3) [OF assms(1)])
  have hds: "hd (map enc ins) = enc i" "tl (map enc ins) = map enc ins'"
    "hd (map enc outs) = enc u" "tl (map enc outs) = map enc outs'"
    by (simp_all add: eqs)
  have sums: "i + sum_list ins' = sum_list ins" "u + sum_list outs' = sum_list outs"
    by (simp_all add: eqs)
  show ?thesis
    using False
    unfolding verify_balance_conservation_def valid hds sum_commitments_enc [OF assms(1)] sums
      ebind_simps total_with_fee_enc [OF assms] additive_groupD(4) [OF assms(1)]
    by (auto simp: diff ball_Un additive_groupD(1) [OF assms(1)])
qed (auto simp: verify_balance_conservation_def)

definition opened :: "(bytes \<Rightarrow> int) \<Rightarrow> int \<Rightarrow> amount \<times> bytes \<Rightarrow> int" where
  "opened val h = (\<lambda>(v, r). val r + int (unat v) * h)"

lemma openings_enc:
  assumes "additive_group S q enc val" and "init_generator_H S = Inr (enc h)"
    and "list_all2 (\<lambda>(v, r) C. commit_with_blinding S v r = Inr C) os Cs"
  shows "Cs = map enc (map (opened val h) os)"
  using assms(3)
  by (induction os Cs rule: list_all2_induct)
     (auto simp: commit_with_blinding_eq [OF assms(1,2)] opened_def split: if_splits)

lemma sum_openings:
  "sum_list (map (opened val h) os)
   = (\<Sum>(v, r)\<leftarrow>os. val r) + h * int (\<Sum>(v, r)\<leftarrow>os. unat v)"
  by (induction os) (auto simp: opened_def algebra_simps)

section \<open>Properties\<close>

text \<open>
  C39: the balance check is exact on commitments that were made by the commitment
  function: it returns normally, and returns true just when there are inputs and outputs,
  no commitment and no excess is the identity, the fee is zero or a multiple \<open>fee H\<close>
  exists, and the inputs balance the outputs, the fee and the excess: the blinding
  factors and \<open>H\<close> times the amounts have the same sum modulo the group order.
\<close>

theorem balance_check_exact:
  assumes "additive_group S q enc val" and "init_generator_H S = Inr (enc h)"
    and "list_all2 (\<lambda>(v, r) C. commit_with_blinding S v r = Inr C) ins Cin"
    and "list_all2 (\<lambda>(v, r) C. commit_with_blinding S v r = Inr C) outs Cout"
  shows "verify_balance_conservation S Cin Cout fee (base_point S x)
    = Inr (Cin \<noteq> [] \<and> Cout \<noteq> []
        \<and> (\<forall>C \<in> set Cin \<union> set Cout \<union> {base_point S x}. C \<noteq> enc 0)
        \<and> (fee \<noteq> 0 \<longrightarrow> int (unat fee) * h mod q \<noteq> 0)
        \<and> ((\<Sum>(v, r)\<leftarrow>ins. val r) + h * int (\<Sum>(v, r)\<leftarrow>ins. unat v)) mod q
          = ((\<Sum>(v, r)\<leftarrow>outs. val r) + h * int ((\<Sum>(v, r)\<leftarrow>outs. unat v) + unat fee) + val x) mod q)"
proof -
  have move: "(a - b) mod q = c mod q \<longleftrightarrow> a mod q = (b + c) mod q" for a b c
    by (simp add: mod_eq_dvd_iff algebra_simps)
  have nonid: "(\<forall>C \<in> set (map enc as) \<union> set (map enc bs) \<union> {enc c}. C \<noteq> enc 0)
      \<longleftrightarrow> (\<forall>a \<in> set as \<union> set bs \<union> {c}. a mod q \<noteq> 0)" for as bs c
    by (auto simp: ball_Un additive_groupD(1) [OF assms(1)])
  show ?thesis
    unfolding openings_enc [OF assms(1,2,3)] openings_enc [OF assms(1,2,4)]
      additive_groupD(5) [OF assms(1)] balance_enc [OF assms(1,2)] nonid sum_openings move
    by (simp add: algebra_simps)
qed

text \<open>The reference instance with scalars reduced from all their bytes.\<close>

definition toy_pedersen :: sodium where
  "toy_pedersen = toy_sodium\<lparr>scalar_reduce := (\<lambda>x. scalar (unat (le_value x :: 512 word)))\<rparr>"

definition toy_enc :: "int \<Rightarrow> bytes" where
  "toy_enc a = point (nat (a mod 13))"

definition toy_val :: "bytes \<Rightarrow> int" where
  "toy_val s = int (scalar_value s)"

lemma toy_reduce_amount:
  "toy_val (scalar (unat (le_value (le_bytes 8 (v :: u64) @ replicate 56 0) :: 512 word)))
   = int (unat v) mod 13"
proof -
  have "le_bytes 8 v @ replicate 56 0 = le_bytes 64 (ucast v :: 512 word)"
  proof (rule nth_equalityI)
    fix i
    assume "i < length (le_bytes 8 v @ replicate 56 0)"
    then have i: "i < 64"
      by simp
    show "(le_bytes 8 v @ replicate 56 0) ! i = le_bytes 64 (ucast v :: 512 word) ! i"
    proof (rule bit_word_eqI)
      fix n :: nat
      assume "n < LENGTH(8)"
      then show "bit ((le_bytes 8 v @ replicate 56 0) ! i) n
          \<longleftrightarrow> bit (le_bytes 64 (ucast v :: 512 word) ! i) n"
        using i bit_imp_le_length [of v "i * 8 + n"]
        by (auto simp: nth_append le_bytes_def bit_ucast_iff bit_drop_bit_eq)
    qed
  qed simp
  then have "le_value (le_bytes 8 v @ replicate 56 0) = (ucast v :: 512 word)"
    using le_value_le_bytes [of 64 "ucast v :: 512 word"] by simp
  then show ?thesis
    by (simp add: toy_val_def unat_ucast_up zmod_int)
qed

lemma toy_pedersen_simps [simp]:
  "generichash toy_pedersen = generichash toy_sodium"
  "from_uniform toy_pedersen = from_uniform toy_sodium"
  "ed_add toy_pedersen = ed_add toy_sodium"
  "ed_sub toy_pedersen = ed_sub toy_sodium"
  "is_valid_point toy_pedersen = is_valid_point toy_sodium"
  "mult_base toy_pedersen = mult_base toy_sodium"
  "mult_noclamp toy_pedersen = mult_noclamp toy_sodium"
  "scalar_reduce toy_pedersen x = scalar (unat (le_value x :: 512 word))"
  by (simp_all add: toy_pedersen_def)

lemma point_value_enc [simp]: "point_value (toy_enc a) = nat (a mod 13)"
  by (simp add: toy_enc_def)

lemma length_toy_enc [simp]: "length (toy_enc a) = 32"
  by (simp add: toy_enc_def)

lemma point_enc: "point n = toy_enc (int n)"
  by (simp add: toy_enc_def nat_mod_distrib)

lemma toy_enc_eq: "toy_enc a = toy_enc b \<longleftrightarrow> a mod 13 = b mod 13"
  by (metis point_value_enc eq_nat_nat_iff pos_mod_sign zero_less_numeral toy_enc_def)

lemma toy_additive_group: "additive_group toy_pedersen 13 toy_enc toy_val"
  unfolding additive_group_def
proof (intro conjI allI)
  fix a b s and v :: u64
  show "(toy_enc a = toy_enc b) = (a mod 13 = b mod 13)"
    by (rule toy_enc_eq)
  show "ed_add toy_pedersen (toy_enc a) (toy_enc b) = Some (toy_enc (a + b))"
    by (simp add: point_enc toy_enc_eq mod_add_eq)
  show "ed_sub toy_pedersen (toy_enc a) (toy_enc b) = Some (toy_enc (a - b))"
  proof -
    have "int (nat (a mod 13) + (13 - nat (b mod 13))) = a mod 13 - b mod 13 + 13"
      by simp
    then have "toy_enc (int (nat (a mod 13) + (13 - nat (b mod 13)))) = toy_enc (a - b)"
      unfolding toy_enc_eq by (simp only: mod_add_self2 mod_diff_eq)
    then show ?thesis
      by (simp add: point_enc del: of_nat_add)
  qed
  show "is_valid_point toy_pedersen (toy_enc a) \<longleftrightarrow> a mod 13 \<noteq> 0"
    using pos_mod_sign [of 13 a] by (simp del: pos_mod_sign)
  show "base_point toy_pedersen s = toy_enc (toy_val s)"
    by (simp add: base_point_def point_enc toy_val_def)
  show "mult_noclamp toy_pedersen s (toy_enc a)
      = (if toy_val s * a mod 13 = 0 then None else Some (toy_enc (toy_val s * a)))"
  proof -
    have "int (scalar_value s * nat (a mod 13) mod 13) = toy_val s * a mod 13"
      by (simp add: toy_val_def zmod_int mod_mult_right_eq)
    moreover have "toy_enc (int (scalar_value s * nat (a mod 13))) = toy_enc (toy_val s * a)"
      by (simp add: toy_enc_eq toy_val_def mod_mult_right_eq)
    ultimately show ?thesis
      by (simp add: toy_mult_def point_enc)
  qed
  show "toy_val (scalar_reduce toy_pedersen (le_bytes 8 v @ replicate 56 0)) = int (unat v) mod 13"
    unfolding toy_pedersen_simps by (rule toy_reduce_amount)
qed

theorem balance_check_exact_witness:
  "verify_balance_conservation toy_pedersen [toy_enc 7] [toy_enc 12] 1 (toy_enc 2) = Inr True"
proof -
  have H: "init_generator_H toy_pedersen = Inr (toy_enc 6)"
    by code_simp
  have c: "commit_with_blinding toy_pedersen v (scalar n)
      = (if int (unat v) * 6 mod 13 = 0 then Inl Pedersen_vH_failed
         else Inr (toy_enc (int (n mod 13) + int (unat v) * 6)))" for v n
    by (simp add: commit_with_blinding_eq [OF toy_additive_group H] toy_val_def)
  have "list_all2 (\<lambda>(v, r) C. commit_with_blinding toy_pedersen v r = Inr C) [(5, scalar 3)] [toy_enc 7]"
    and "list_all2 (\<lambda>(v, r) C. commit_with_blinding toy_pedersen v r = Inr C) [(4, scalar 1)] [toy_enc 12]"
    by (simp_all add: c toy_enc_eq)
  moreover have "base_point toy_pedersen (scalar 2) = toy_enc 2"
    by (simp add: base_point_def point_enc)
  ultimately show ?thesis
    using balance_check_exact [OF toy_additive_group H, of "[(5, scalar 3)]" "[toy_enc 7]"
        "[(4, scalar 1)]" "[toy_enc 12]" 1 "scalar 2"]
    by (simp add: toy_enc_eq toy_val_def)
qed

end
