(* ===== verification/Tumbler.thy ===== *)
theory Tumbler
  imports Amounts
begin

text \<open>
  Model of \<^verbatim>\<open>include/tumbler.hpp\<close> and \<^verbatim>\<open>src/tumbler.cpp\<close>: the plan that splits a
  withdrawal into fragments, each sent along a route of ephemeral addresses. What the
  random generators draw, floating point results included, is the argument \<open>draws\<close>. The
  printing and sleeping of \<^verbatim>\<open>execute_tumbling_plan\<close> is not modelled.
\<close>

section \<open>Data\<close>

record micro_hop =
  hop_from :: string
  hop_to :: string
  hop_amount :: amount
  hop_delay_ms :: u32
  hop_tx_hash :: string

record tumbler_route =
  fragment_index :: nat
  fragment_amount :: amount
  route_hops :: "micro_hop list"

record tumbling_plan =
  plan_order_id :: string
  plan_total_gross_tokens :: amount
  plan_fee_deducted :: amount
  plan_total_net_usdt :: amount
  plan_destination :: string
  plan_total_fragments :: nat
  plan_routes :: "tumbler_route list"
  plan_duration_ms :: u64

record tumbler_engine =
  min_fragments :: nat
  max_fragments :: nat
  min_hops :: nat
  max_hops :: nat
  mean_delay_ms :: u32

text \<open>
  The random draws: the number of fragments, \<open>static_cast<Amount>(remaining * ratio)\<close> for
  the fragment \<open>i\<close>, the hops of each route and, for each hop, address bytes, delay and
  transaction bytes. The distributions are uniform on the configured bounds, and a ratio
  is a weight divided by a sum it is part of.
\<close>

record draws =
  draw_fragments :: nat
  draw_cut :: "nat \<Rightarrow> amount \<Rightarrow> amount"
  draw_hops :: "nat \<Rightarrow> nat"
  draw_address :: "nat \<Rightarrow> nat \<Rightarrow> bytes"
  draw_delay :: "nat \<Rightarrow> nat \<Rightarrow> u32"
  draw_tx :: "nat \<Rightarrow> nat \<Rightarrow> bytes"

definition draws_within :: "tumbler_engine \<Rightarrow> draws \<Rightarrow> bool" where
  "draws_within e D \<longleftrightarrow>
     min_fragments e \<le> draw_fragments D \<and> draw_fragments D \<le> max_fragments e
   \<and> (\<forall>i rem. draw_cut D i rem \<le> rem)
   \<and> (\<forall>i. min_hops e \<le> draw_hops D i \<and> draw_hops D i \<le> max_hops e)"

section \<open>Operations\<close>

definition partition_amount :: "draws \<Rightarrow> amount \<Rightarrow> nat \<Rightarrow> amount list" where
  "partition_amount D total_amount count =
     (if count \<le> 1 \<or> unat total_amount < count then [total_amount]
      else let (fragments, remaining) =
             foldl (\<lambda>(fragments, remaining) i.
                      let add = draw_cut D i remaining
                      in (fragments[i := fragments ! i + add], remaining - add))
               (replicate count 1, total_amount - of_nat count) [0..<count - 1]
           in fragments[count - 1 := fragments ! (count - 1) + remaining])"

definition generate_ephemeral_address :: "bytes \<Rightarrow> string" where
  "generate_ephemeral_address rand_bytes = ''0x'' @ to_hex rand_bytes"

definition generate_tx_hash :: "bytes \<Rightarrow> string" where
  "generate_tx_hash rand_bytes = ''0x'' @ to_hex rand_bytes"

definition pool_vault_origin :: string where
  "pool_vault_origin = ''0xVaultCollateralReserveUSDT''"

definition plan_hop :: "draws \<Rightarrow> nat \<Rightarrow> nat \<Rightarrow> string \<Rightarrow> amount \<Rightarrow> string \<Rightarrow> nat \<Rightarrow> micro_hop" where
  "plan_hop D i hops_count destination part current_source h =
     \<lparr>hop_from = current_source,
      hop_to = (if h = hops_count - 1 then destination
                else generate_ephemeral_address (draw_address D i h)),
      hop_amount = part,
      hop_delay_ms = max 50 (draw_delay D i h),
      hop_tx_hash = generate_tx_hash (draw_tx D i h)\<rparr>"

text \<open>The loop over the hops: source, hops so far and duration.\<close>

definition plan_hops ::
  "draws \<Rightarrow> nat \<Rightarrow> nat \<Rightarrow> string \<Rightarrow> amount \<Rightarrow> nat \<Rightarrow> string \<times> micro_hop list \<times> u64" where
  "plan_hops D i hops_count destination part n =
     foldl (\<lambda>(source, hops, duration) h.
              let hop = plan_hop D i hops_count destination part source h
              in (hop_to hop, hops @ [hop], duration + ucast (hop_delay_ms hop)))
       (pool_vault_origin, [], 0) [0..<n]"

definition plan_route :: "draws \<Rightarrow> string \<Rightarrow> amount list \<Rightarrow> nat \<Rightarrow> tumbler_route \<times> u64" where
  "plan_route D destination parts i =
     (let hops_count = draw_hops D i;
          (_, hops, route_duration) = plan_hops D i hops_count destination (parts ! i) hops_count
      in (\<lparr>fragment_index = i + 1, fragment_amount = parts ! i, route_hops = hops\<rparr>, route_duration))"

definition add_route :: "draws \<Rightarrow> string \<Rightarrow> amount list \<Rightarrow> tumbling_plan \<Rightarrow> nat \<Rightarrow> tumbling_plan" where
  "add_route D destination parts plan i =
     (let (route, route_duration) = plan_route D destination parts i
      in plan\<lparr>plan_duration_ms := max (plan_duration_ms plan) route_duration,
              plan_routes := plan_routes plan @ [route]\<rparr>)"

definition plan_withdrawal_tumbling ::
  "draws \<Rightarrow> string \<Rightarrow> amount \<Rightarrow> amount \<Rightarrow> amount \<Rightarrow> string \<Rightarrow> tumbling_plan" where
  "plan_withdrawal_tumbling D order_id gross_tokens fee_pool net_usdt destination =
     (let parts = partition_amount D net_usdt (draw_fragments D)
      in foldl (add_route D destination parts)
           \<lparr>plan_order_id = order_id, plan_total_gross_tokens = gross_tokens,
            plan_fee_deducted = fee_pool, plan_total_net_usdt = net_usdt,
            plan_destination = destination, plan_total_fragments = length parts,
            plan_routes = [], plan_duration_ms = 0\<rparr>
           [0..<length parts])"

definition execute_tumbling_plan :: "tumbling_plan \<Rightarrow> bool" where
  "execute_tumbling_plan plan =
     (foldl (\<lambda>total_disbursed route. total_disbursed + fragment_amount route) 0 (plan_routes plan)
      = plan_total_net_usdt plan)"

section \<open>The partition\<close>

text \<open>After \<open>n\<close> cuts the fragments and the remainder still make up the amt.\<close>

definition cuts :: "draws \<Rightarrow> amount \<Rightarrow> nat \<Rightarrow> nat \<Rightarrow> amount list \<times> amount" where
  "cuts D amt count n =
     foldl (\<lambda>(fragments, remaining) i.
              let add = draw_cut D i remaining
              in (fragments[i := fragments ! i + add], remaining - add))
       (replicate count 1, amt - of_nat count) [0..<n]"

lemma cuts_simps:
  "cuts D amt count 0 = (replicate count 1, amt - of_nat count)"
  "cuts D amt count (Suc n) = (case cuts D amt count n of (fs, rem) \<Rightarrow>
     (fs[n := fs ! n + draw_cut D n rem], rem - draw_cut D n rem))"
  by (simp_all add: cuts_def Let_def split: prod.split)

lemma length_cuts: "length (fst (cuts D amt count n)) = count"
  by (induction n) (simp_all add: cuts_simps case_prod_beta)

lemma sum_list_map_update:
  fixes f :: "'a \<Rightarrow> nat"
  assumes "k < length xs"
  shows "sum_list (map f (xs[k := y])) + f (xs ! k) = sum_list (map f xs) + f y"
  using assms
proof (induction xs arbitrary: k)
  case (Cons x xs)
  then show ?case
    by (cases k) auto
qed simp

lemma cuts_exact:
  assumes "count \<le> unat amt" and "\<forall>i rem. draw_cut D i rem \<le> rem" and "n < count"
    and "cuts D amt count n = (fs, rem)"
  shows "sum_list (map unat fs) + unat rem = unat amt \<and> (\<forall>a \<in> set fs. a \<noteq> 0)
    \<and> (\<forall>i. n \<le> i \<longrightarrow> i < count \<longrightarrow> fs ! i = 1)"
  using assms(3,4)
proof (induction n arbitrary: fs rem)
  case 0
  have "unat (of_nat count :: amount) = count"
    using assms(1) unat64_less [of amt] by (simp add: unat_of_nat del: unat64_less)
  then have "unat (amt - of_nat count) = unat amt - count"
    using assms(1) by (simp add: unat_sub_exact word_le_nat_alt)
  with 0 assms(1) show ?case
    by (auto simp: cuts_simps sum_list_replicate)
next
  case (Suc n)
  obtain gs rem' where g: "cuts D amt count n = (gs, rem')"
    by fastforce
  let ?add = "draw_cut D n rem'"
  have le: "?add \<le> rem'"
    using assms(2) by blast
  have ih: "sum_list (map unat gs) + unat rem' = unat amt" "\<forall>a \<in> set gs. a \<noteq> 0"
    "\<forall>i. n \<le> i \<longrightarrow> i < count \<longrightarrow> gs ! i = 1"
    using Suc.IH [OF _ g] Suc.prems(1) by simp_all
  have fs: "fs = gs[n := gs ! n + ?add]" and rem: "rem = rem' - ?add"
    using Suc.prems(2) g by (simp_all add: cuts_simps)
  have len: "n < length gs"
    using length_cuts [of D amt count n] g Suc.prems(1) by simp
  have one: "gs ! n = 1"
    using ih(3) Suc.prems(1) by simp
  have "unat (gs ! n) \<le> sum_list (map unat gs)"
    using len by (intro member_le_sum_list) auto
  with le ih(1) have "Suc (unat ?add) \<le> unat amt"
    by (simp add: one word_le_nat_alt)
  then have add: "unat (gs ! n + ?add) = 1 + unat ?add"
    unfolding one using unat64_less [of amt] by (subst u64_add_exact) (simp_all del: unat64_less)
  have "sum_list (map unat fs) + 1 = sum_list (map unat gs) + (1 + unat ?add)"
    using sum_list_map_update [OF len, of unat "gs ! n + ?add"] unfolding fs add unfolding one by simp
  moreover have "unat rem = unat rem' - unat ?add"
    using le by (simp add: rem unat_sub_exact)
  moreover have "gs ! n + ?add \<noteq> 0"
    using add by (metis unat_0 add_is_0 one_neq_zero)
  then have "\<forall>a \<in> set fs. a \<noteq> 0"
    using ih(2) set_update_subset_insert [of gs n "gs ! n + ?add"] by (auto simp: fs)
  moreover have "\<forall>i. Suc n \<le> i \<longrightarrow> i < count \<longrightarrow> fs ! i = 1"
    using ih(3) by (simp add: fs)
  ultimately show ?case
    using ih(1) le by (simp add: word_le_nat_alt)
qed

lemma partition_exact:
  assumes "\<forall>i rem. draw_cut D i rem \<le> rem"
  shows "sum_list (map unat (partition_amount D amt count)) = unat amt
    \<and> length (partition_amount D amt count) = (if count \<le> 1 \<or> unat amt < count then 1 else count)
    \<and> (amt \<noteq> 0 \<longrightarrow> (\<forall>a \<in> set (partition_amount D amt count). a \<noteq> 0))"
proof (cases "count \<le> 1 \<or> unat amt < count")
  case False
  obtain fs rem where c: "cuts D amt count (count - 1) = (fs, rem)"
    by fastforce
  have eq: "partition_amount D amt count = fs[count - 1 := fs ! (count - 1) + rem]"
    unfolding partition_amount_def if_not_P [OF False] cuts_def [symmetric] c by simp
  have facts: "sum_list (map unat fs) + unat rem = unat amt" "\<forall>a \<in> set fs. a \<noteq> 0"
    "fs ! (count - 1) = 1"
    using cuts_exact [OF _ assms _ c] False by simp_all
  have len: "length fs = count"
    using length_cuts [of D amt count "count - 1"] c by simp
  have k: "count - 1 < length fs"
    using False len by simp
  have "unat (fs ! (count - 1)) \<le> sum_list (map unat fs)"
    using k by (intro member_le_sum_list) auto
  then have add: "unat (fs ! (count - 1) + rem) = 1 + unat rem"
    using facts(1) unat64_less [of amt] unfolding facts(3)
    by (subst u64_add_exact) (simp_all del: unat64_less)
  have "sum_list (map unat (partition_amount D amt count)) + 1
      = sum_list (map unat fs) + (1 + unat rem)"
    using sum_list_map_update [OF k, of unat "fs ! (count - 1) + rem"]
    unfolding eq add unfolding facts(3) by simp
  moreover have "fs ! (count - 1) + rem \<noteq> 0"
    using add by (metis unat_0 add_is_0 one_neq_zero)
  then have "\<forall>a \<in> set (partition_amount D amt count). a \<noteq> 0"
    using facts(2) set_update_subset_insert [of fs "count - 1" "fs ! (count - 1) + rem"]
    by (auto simp: eq)
  ultimately show ?thesis
    using facts(1) False len by (simp add: eq)
qed (auto simp: partition_amount_def)

section \<open>Routes\<close>

text \<open>\<open>route_from a hops b\<close>: the hops lead from \<open>a\<close> to \<open>b\<close>, each starting where the last ended.\<close>

fun route_from :: "string \<Rightarrow> micro_hop list \<Rightarrow> string \<Rightarrow> bool" where
  "route_from a [] b \<longleftrightarrow> a = b"
| "route_from a (hop # hops) b \<longleftrightarrow> hop_from hop = a \<and> route_from (hop_to hop) hops b"

lemma route_from_snoc:
  "route_from a (hops @ [hop]) b \<longleftrightarrow> route_from a hops (hop_from hop) \<and> hop_to hop = b"
  by (induction hops arbitrary: a) auto

lemma plan_hops_route:
  assumes "plan_hops D i m dest part n = (source, hops, d)"
  shows "route_from pool_vault_origin hops source \<and> length hops = n
    \<and> (\<forall>hop \<in> set hops. hop_amount hop = part \<and> 50 \<le> hop_delay_ms hop)
    \<and> (0 < n \<longrightarrow> n = m \<longrightarrow> source = dest)"
  using assms
proof (induction n arbitrary: source hops d)
  case (Suc n)
  obtain s' hs' d' where p: "plan_hops D i m dest part n = (s', hs', d')"
    by (cases "plan_hops D i m dest part n") auto
  have "source = hop_to (plan_hop D i m dest part s' n)" and "hops = hs' @ [plan_hop D i m dest part s' n]"
    using Suc.prems p by (simp_all add: plan_hops_def Let_def)
  then show ?case
    using Suc.IH [OF p] by (auto simp: route_from_snoc plan_hop_def)
qed (simp add: plan_hops_def)

lemma add_routes:
  "plan_routes (foldl (add_route D dest parts) p is)
     = plan_routes p @ map (\<lambda>i. fst (plan_route D dest parts i)) is"
  "plan_total_net_usdt (foldl (add_route D dest parts) p is) = plan_total_net_usdt p"
  "plan_total_fragments (foldl (add_route D dest parts) p is) = plan_total_fragments p"
  by (induction "is" arbitrary: p) (simp_all add: add_route_def case_prod_beta)

lemma plan_fields:
  defines "parts \<equiv> \<lambda>D net. partition_amount D net (draw_fragments D)"
  shows "plan_routes (plan_withdrawal_tumbling D order gross fee net dest)
     = map (\<lambda>i. fst (plan_route D dest (parts D net) i)) [0..<length (parts D net)]"
  and "plan_total_net_usdt (plan_withdrawal_tumbling D order gross fee net dest) = net"
  and "plan_total_fragments (plan_withdrawal_tumbling D order gross fee net dest) = length (parts D net)"
  by (simp_all add: plan_withdrawal_tumbling_def Let_def add_routes parts_def)

lemma fragment_amounts:
  "map fragment_amount (map (\<lambda>i. fst (plan_route D dest parts i)) [0..<length parts]) = parts"
  by (rule nth_equalityI) (simp_all add: plan_route_def Let_def split_def)

lemma foldl_fragments: "foldl (\<lambda>t r. t + fragment_amount r) s rs = s + sum_list (map fragment_amount rs)"
  by (induction rs arbitrary: s) (simp_all add: add.assoc)

lemma of_nat_sum_unat: "of_nat (sum_list (map unat ws)) = (sum_list ws :: amount)"
  by (induction ws) simp_all


lemma execute_plan:
  assumes "\<forall>i rem. draw_cut D i rem \<le> rem"
  shows "execute_tumbling_plan (plan_withdrawal_tumbling D order gross fee net dest)"
proof -
  let ?parts = "partition_amount D net (draw_fragments D)"
  have "sum_list ?parts = net"
    using partition_exact [OF assms, of net "draw_fragments D"] of_nat_sum_unat [of ?parts] by simp
  then show ?thesis
    by (simp add: execute_tumbling_plan_def plan_fields foldl_fragments fragment_amounts del: map_map)
qed

lemma plan_route_chain:
  assumes "plan_route D dest parts i = (r, d)" and "0 < draw_hops D i"
  shows "fragment_amount r = parts ! i \<and> length (route_hops r) = draw_hops D i
    \<and> route_from pool_vault_origin (route_hops r) dest
    \<and> (\<forall>hop \<in> set (route_hops r). hop_amount hop = fragment_amount r \<and> 50 \<le> hop_delay_ms hop)"
proof -
  obtain s hs t where p: "plan_hops D i (draw_hops D i) dest (parts ! i) (draw_hops D i) = (s, hs, t)"
    by (cases "plan_hops D i (draw_hops D i) dest (parts ! i) (draw_hops D i)") auto
  then have "r = \<lparr>fragment_index = i + 1, fragment_amount = parts ! i, route_hops = hs\<rparr>"
    using assms(1) by (simp add: plan_route_def Let_def)
  with plan_hops_route [OF p] assms(2) show ?thesis
    by auto
qed

section \<open>Properties\<close>



end
