(* ===== verification/Doubles.thy ===== *)
theory Doubles
  imports Complex_Main Amounts
begin

text \<open>
  The floating-point part of \<^verbatim>\<open>include/types.hpp\<close> and of its callers: \<^verbatim>\<open>parse_usdt\<close>, which
  reads an amount given in USDT as a \<^verbatim>\<open>double\<close>, and the division with which the wallet
  writes one. A \<^verbatim>\<open>double\<close> is a number of IEEE 754 binary64; the operations the sources
  use round to the nearest representable number, ties to even.
\<close>

section \<open>Binary64\<close>

text \<open>
  \<open>Finite negative m e\<close> is \<open>m * 2 ^ e\<close>, negated if \<open>negative\<close>; a number of the format is
  represented with an odd significand (\<open>is_binary64\<close>). The magnitudes that occur in the
  computations below are at most \<open>2 ^ 61\<close> and, unless they are exact, at least \<open>10 ^ -6\<close>,
  so that neither overflow nor gradual underflow arises.
\<close>

datatype (plugins only: code size) double = Not_a_number | Infinite bool | Finite bool nat int

type_synonym magnitude = "nat \<times> int"

definition is_binary64 :: "double \<Rightarrow> bool" where
  "is_binary64 d =
     (case d of Not_a_number \<Rightarrow> True | Infinite _ \<Rightarrow> True
      | Finite _ m e \<Rightarrow> m = 0 \<and> e = 0 \<or> odd m \<and> m < 2 ^ 53 \<and> -1074 \<le> e \<and> e \<le> 971)"

function lowest_terms :: "magnitude \<Rightarrow> magnitude" where
  "lowest_terms (m, e) =
     (if m = 0 then (0, 0) else if even m then lowest_terms (m div 2, e + 1) else (m, e))"
  by pat_completeness auto
termination
  by (relation "measure fst") auto

declare lowest_terms.simps [simp del]

fun bit_length :: "nat \<Rightarrow> nat" where
  "bit_length m = (if m = 0 then 0 else Suc (bit_length (m div 2)))"

declare bit_length.simps [simp del]

text \<open>\<open>m / 2 ^ k\<close>, rounded to the nearest integer, ties to even.\<close>

definition round_half_even :: "nat \<Rightarrow> nat \<Rightarrow> nat" where
  "round_half_even m k =
     (let q = m div 2 ^ k; r = m mod 2 ^ k
      in if 2 * r < 2 ^ k \<or> 2 * r = 2 ^ k \<and> even q then q else q + 1)"

text \<open>An exact magnitude rounded to 53 significant bits.\<close>

definition to_binary64 :: "magnitude \<Rightarrow> magnitude" where
  "to_binary64 x = (case x of (m, e) \<Rightarrow>
     let k = bit_length m - 53 in (round_half_even m k, e + int k))"

definition times_million :: "magnitude \<Rightarrow> magnitude" where
  "times_million x = (case x of (m, e) \<Rightarrow> to_binary64 (m * 1000000, e))"

definition plus_half :: "magnitude \<Rightarrow> magnitude" where
  "plus_half x = (case x of (m, e) \<Rightarrow>
     if e \<ge> -1 then to_binary64 (m * 2 ^ nat (e + 1) + 1, -1)
     else to_binary64 (m + 2 ^ nat (-1 - e), e))"

definition magnitude_exceeds :: "magnitude \<Rightarrow> nat \<Rightarrow> bool" where
  "magnitude_exceeds x n = (case x of (m, e) \<Rightarrow>
     if e \<ge> 0 then m * 2 ^ nat e > n else m > n * 2 ^ nat (- e))"

definition magnitude_floor :: "magnitude \<Rightarrow> nat" where
  "magnitude_floor x = (case x of (m, e) \<Rightarrow> if e \<ge> 0 then m * 2 ^ nat e else m div 2 ^ nat (- e))"

text \<open>
  The quotient by a million. The integer quotient at scale \<open>2 ^ 80\<close> has more than 54 bits
  unless the dividend is zero, and one more bit tells whether there is a remainder, which
  is all that rounding to nearest needs.
\<close>

definition by_million :: "nat \<Rightarrow> magnitude" where
  "by_million a =
     (let q = a * 2 ^ 80 div 1000000; sticky = (if a * 2 ^ 80 mod 1000000 = 0 then 0 else 1)
      in to_binary64 (2 * q + sticky, -81))"

section \<open>Amounts as doubles\<close>

text \<open>
  The cast to \<^verbatim>\<open>Amount\<close> truncates; it is undefined for a value that does not fit, which
  \<open>parse_usdt_fits\<close> below excludes.
\<close>

definition parse_usdt :: "double \<Rightarrow> error + amount" where
  "parse_usdt usdt =
     (case usdt of
        Not_a_number \<Rightarrow> Inl (Service_error Amount_invalid)
      | Infinite _ \<Rightarrow> Inl (Service_error Amount_invalid)
      | Finite negative m e \<Rightarrow>
          if negative \<and> m \<noteq> 0 \<or> magnitude_exceeds (m, e) 1000000000000
          then Inl (Service_error Amount_invalid)
          else Inr (of_nat (magnitude_floor (plus_half (times_million (m, e))))))"

text \<open>\<^verbatim>\<open>static_cast<double>(amount) / 1000000.0\<close>, for amounts below \<open>2 ^ 53\<close> converted exactly.\<close>

definition usdt_double :: "amount \<Rightarrow> double" where
  "usdt_double a =
     (case to_binary64 (unat a, 0) of (m, e) \<Rightarrow>
        (case lowest_terms (by_million (m * 2 ^ nat e)) of (m', e') \<Rightarrow> Finite False m' e'))"


section \<open>Rounding\<close>

text \<open>The number a magnitude denotes.\<close>

definition magnitude_value :: "magnitude \<Rightarrow> real" where
  "magnitude_value x = real (fst x) * 2 powi snd x"

lemma magnitude_value_nonneg [simp]: "0 \<le> magnitude_value x"
  by (simp add: magnitude_value_def)

lemma magnitude_value_shift: "magnitude_value (m * 2 ^ k, e - int k) = magnitude_value (m, e)"
  by (simp add: magnitude_value_def power_int_diff)

lemma lowest_terms_value: "magnitude_value (lowest_terms x) = magnitude_value x"
proof (induction x rule: lowest_terms.induct)
  case (1 m e)
  consider "m = 0" | k where "m = 2 * k" "m \<noteq> 0" | "odd m" "m \<noteq> 0"
    by (cases "m = 0") (auto elim: evenE)
  then show ?case
  proof cases
    case 2
    with 1 have "magnitude_value (lowest_terms (k, e + 1)) = magnitude_value (k, e + 1)"
      by simp
    with 2 show ?thesis
      by (simp add: lowest_terms.simps [of "2 * k"] magnitude_value_def power_int_add)
  qed (simp_all add: lowest_terms.simps [of m] lowest_terms.simps [of 0] magnitude_value_def)
qed

lemma lowest_terms_form:
  "fst (lowest_terms (m, e)) \<le> m \<and> (lowest_terms (m, e) = (0, 0)
     \<or> odd (fst (lowest_terms (m, e))) \<and> snd (lowest_terms (m, e)) \<ge> e)"
proof (induction "(m, e)" arbitrary: m e rule: lowest_terms.induct)
  case (1 m e)
  show ?case
  proof (cases "m \<noteq> 0 \<and> even m")
    case True
    with 1 have "fst (lowest_terms (m div 2, e + 1)) \<le> m div 2 \<and> (lowest_terms (m div 2, e + 1) = (0, 0)
       \<or> odd (fst (lowest_terms (m div 2, e + 1))) \<and> snd (lowest_terms (m div 2, e + 1)) \<ge> e + 1)"
      by blast
    with True show ?thesis
      by (auto simp: lowest_terms.simps [of m])
  qed (auto simp: lowest_terms.simps [of m])
qed

lemma bit_length_bounds:
  assumes "0 < m"
  shows "m < 2 ^ bit_length m \<and> 2 ^ (bit_length m - 1) \<le> m"
  using assms
proof (induction m rule: bit_length.induct)
  case (1 m)
  show ?case
  proof (cases "m = 1")
    case True
    then show ?thesis
      by (simp add: bit_length.simps [of "Suc 0"] bit_length.simps [of 0])
  next
    case False
    with 1 have IH: "m div 2 < 2 ^ bit_length (m div 2)" "2 ^ (bit_length (m div 2) - 1) \<le> m div 2"
      and pos: "0 < m div 2"
      by auto
    then obtain j where "bit_length (m div 2) = Suc j"
      by (cases "bit_length (m div 2)") auto
    moreover have "m < 2 * (m div 2) + 2" and "2 * (m div 2) \<le> m"
      by simp_all
    ultimately show ?thesis
      using IH 1(2) by (simp add: bit_length.simps [of m])
  qed
qed

lemma bit_length_le: "m < 2 ^ k \<Longrightarrow> bit_length m \<le> k"
proof (cases "m = 0")
  case True
  then show ?thesis by (simp add: bit_length.simps [of 0])
next
  case False
  assume "m < 2 ^ k"
  moreover from False have "(2::nat) ^ (bit_length m - 1) \<le> m"
    using bit_length_bounds [of m] by blast
  ultimately have "(2::nat) ^ (bit_length m - 1) < 2 ^ k"
    by (rule le_less_trans [rotated])
  then have "bit_length m - 1 < k"
    by (rule power_less_imp_less_exp [rotated]) simp
  then show ?thesis
    by simp
qed

lemma round_half_even_error:
  "\<bar>real (round_half_even m k) * 2 ^ k - real m\<bar> \<le> 2 ^ k / 2"
proof -
  define q r where "q = m div 2 ^ k" and "r = m mod 2 ^ k"
  have m: "real m = real q * 2 ^ k + real r"
  proof -
    have "m = q * 2 ^ k + r"
      by (simp only: q_def r_def div_mult_mod_eq)
    then show ?thesis
      by (metis of_nat_add of_nat_mult of_nat_numeral of_nat_power)
  qed
  have r: "r < 2 ^ k"
    by (simp add: r_def)
  show ?thesis
  proof (cases "2 * r < 2 ^ k \<or> 2 * r = 2 ^ k \<and> even q")
    case True
    then have "2 * r \<le> 2 ^ k"
      by auto
    then have "2 * real r \<le> 2 ^ k"
      by (metis of_nat_le_iff of_nat_mult of_nat_numeral of_nat_power)
    with True show ?thesis
      by (simp add: round_half_even_def Let_def m flip: q_def r_def)
  next
    case False
    then have "2 ^ k \<le> 2 * r"
      by auto
    then have "2 ^ k \<le> 2 * real r"
      by (metis of_nat_le_iff of_nat_mult of_nat_numeral of_nat_power)
    moreover have "real r < 2 ^ k"
      using r by (metis of_nat_less_iff of_nat_numeral of_nat_power)
    ultimately have "\<bar>real (q + 1) * 2 ^ k - real m\<bar> \<le> 2 ^ k / 2"
      by (simp add: m algebra_simps)
    with False show ?thesis
      by (auto simp add: round_half_even_def Let_def simp flip: q_def r_def)
  qed
qed

lemma to_binary64_exact:
  assumes "m < 2 ^ 53"
  shows "to_binary64 (m, e) = (m, e)"
proof -
  have "bit_length m - 53 = 0"
    using bit_length_le [OF assms] by simp
  then show ?thesis
    by (simp add: to_binary64_def round_half_even_def Let_def)
qed

lemma to_binary64_error:
  "\<bar>magnitude_value (to_binary64 x) - magnitude_value x\<bar> \<le> magnitude_value x / 2 ^ 53"
proof (cases "bit_length (fst x) - 53")
  case 0
  then have "to_binary64 (fst x, snd x) = (fst x, snd x)"
    by (simp only: to_binary64_def prod.case Let_def round_half_even_def) simp
  then have "to_binary64 x = x"
    by simp
  then show ?thesis
    by simp
next
  case (Suc j)
  obtain m e where x: "x = (m, e)"
    by fastforce
  define k where "k = bit_length m - 53"
  have k: "bit_length m = k + 53" "0 < k"
    using Suc by (simp_all add: x k_def)
  then have "0 < m"
    by (cases "m = 0") (simp_all add: bit_length.simps [of 0])
  with k bit_length_bounds [of m] have "2 ^ (k + 52) \<le> m"
    by (simp add: add.commute)
  then have m: "2 ^ (k + 52) \<le> real m"
    by (metis of_nat_le_iff of_nat_numeral of_nat_power)
  have "magnitude_value (to_binary64 x) - magnitude_value x
      = (real (round_half_even m k) * 2 ^ k - real m) * 2 powi e"
    by (simp add: x to_binary64_def Let_def magnitude_value_def power_int_add algebra_simps flip: k_def)
  also have "\<bar>\<dots>\<bar> = \<bar>real (round_half_even m k) * 2 ^ k - real m\<bar> * 2 powi e"
    by (simp add: abs_mult)
  also have "\<dots> \<le> 2 ^ k / 2 * 2 powi e"
    by (rule mult_right_mono [OF round_half_even_error]) simp
  also have "\<dots> \<le> real m / 2 ^ 53 * 2 powi e"
    by (rule mult_right_mono) (use m in \<open>simp_all add: power_add field_simps\<close>)
  finally show ?thesis
    by (simp add: x magnitude_value_def)
qed

text \<open>The roundings of a computation accumulate relatively.\<close>

lemma to_binary64_near:
  assumes "\<bar>magnitude_value x - v\<bar> \<le> d"
  shows "\<bar>magnitude_value (to_binary64 x) - v\<bar> \<le> d + (v + d) / 2 ^ 53"
proof -
  have "magnitude_value x / 2 ^ 53 \<le> (v + d) / 2 ^ 53"
    by (rule divide_right_mono) (use assms in auto)
  with to_binary64_error [of x] assms show ?thesis
    by linarith
qed

lemma times_million_near:
  assumes "\<bar>magnitude_value x - v\<bar> \<le> d"
  shows "\<bar>magnitude_value (times_million x) - v * 1000000\<bar>
    \<le> d * 1000000 + (v * 1000000 + d * 1000000) / 2 ^ 53"
proof -
  obtain m e where x: "x = (m, e)"
    by fastforce
  have "magnitude_value (m * 1000000, e) = magnitude_value x * 1000000"
    by (simp add: x magnitude_value_def)
  moreover have "\<bar>magnitude_value x * 1000000 - v * 1000000\<bar> \<le> d * 1000000"
    using assms by (simp add: abs_le_iff)
  ultimately show ?thesis
    using to_binary64_near [of "(m * 1000000, e)" "v * 1000000" "d * 1000000"]
    by (simp add: x times_million_def)
qed

lemma plus_half_near:
  assumes "\<bar>magnitude_value x - v\<bar> \<le> d"
  shows "\<bar>magnitude_value (plus_half x) - (v + 1 / 2)\<bar> \<le> d + (v + 1 / 2 + d) / 2 ^ 53"
proof -
  obtain m e where x: "x = (m, e)"
    by fastforce
  define y where "y = (if e \<ge> -1 then (m * 2 ^ nat (e + 1) + 1, -1) else (m + 2 ^ nat (-1 - e), e))"
  have "magnitude_value y = magnitude_value x + 1 / 2"
  proof (cases "e \<ge> -1")
    case True
    then have e: "e = int (nat (e + 1)) - 1"
      by simp
    have "2 powi (int k - 1) = (2 :: real) ^ k / 2" for k
      by (simp add: power_int_diff)
    with e have "2 powi e = (2 :: real) ^ nat (e + 1) / 2"
      by metis
    with True show ?thesis
      by (simp add: x y_def magnitude_value_def field_simps power_int_minus)
  next
    case False
    then have e: "-1 - e = int (nat (-1 - e))"
      by simp
    have "(2 :: real) ^ nat (-1 - e) * 2 powi e = 2 powi (-1 - e) * 2 powi e"
      by (subst (2) e) (simp only: power_int_of_nat)
    also have "\<dots> = 1 / 2"
      by (simp add: power_int_minus flip: power_int_add)
    finally show ?thesis
      using False by (simp add: x y_def magnitude_value_def algebra_simps)
  qed
  moreover have "plus_half x = to_binary64 y"
    by (simp add: x y_def plus_half_def)
  moreover have "\<bar>(magnitude_value x + 1 / 2) - (v + 1 / 2)\<bar> \<le> d"
    using assms by simp
  ultimately show ?thesis
    using to_binary64_near [of y "v + 1 / 2" d] by simp
qed

lemma magnitude_exceeds_iff: "magnitude_exceeds x n \<longleftrightarrow> magnitude_value x > real n"
proof -
  obtain m e where x: "x = (m, e)"
    by fastforce
  show ?thesis
  proof (cases "e \<ge> 0")
    case True
    then obtain k where "e = int k"
      using nonneg_int_cases by blast
    then show ?thesis
      by (simp add: x magnitude_exceeds_def magnitude_value_def flip: of_nat_less_iff [where 'a = real])
  next
    case False
    then obtain k where e: "e = - int k"
      using nonneg_int_cases [of "- e"] by (metis linear neg_0_le_iff_le minus_minus)
    have "m > n * 2 ^ k \<longleftrightarrow> real m > real n * 2 ^ k"
      by (simp flip: of_nat_less_iff [where 'a = real])
    then show ?thesis
      using False by (simp add: x e magnitude_exceeds_def magnitude_value_def power_int_minus field_simps)
  qed
qed

lemma magnitude_floor_eq: "magnitude_floor x = nat \<lfloor>magnitude_value x\<rfloor>"
proof -
  obtain m e where x: "x = (m, e)"
    by fastforce
  show ?thesis
  proof (cases "e \<ge> 0")
    case True
    then obtain k where "e = int k"
      using nonneg_int_cases by blast
    moreover have "real m * 2 ^ k = real_of_int (int (m * 2 ^ k))"
      by simp
    ultimately show ?thesis
      by (simp only: x magnitude_floor_def magnitude_value_def) (simp del: of_nat_mult of_nat_power)
  next
    case False
    then obtain k where e: "e = - int k"
      using nonneg_int_cases [of "- e"] by (metis linear neg_0_le_iff_le minus_minus)
    have "\<lfloor>real m / 2 ^ k\<rfloor> = int (m div 2 ^ k)"
      using floor_divide_of_nat_eq [of m "2 ^ k", where 'a = real] by simp
    then show ?thesis
      using False by (simp add: x e magnitude_floor_def magnitude_value_def power_int_minus field_simps)
  qed
qed

lemma by_million_near:
  "\<bar>magnitude_value (by_million a) - real a / 1000000\<bar>
     \<le> 1 / 2 ^ 81 + (real a / 1000000 + 1 / 2 ^ 81) / 2 ^ 53"
proof -
  define q r where "q = a * 2 ^ 80 div 1000000" and "r = a * 2 ^ 80 mod 1000000"
  define s :: nat where "s = (if r = 0 then 0 else 1)"
  have m: "a * 2 ^ 80 = q * 1000000 + r" and r: "r < 1000000"
    by (simp_all only: q_def r_def div_mult_mod_eq)
  have "real (a * 2 ^ 80) = real (q * 1000000 + r)"
    by (simp only: m)
  then have a: "real a / 1000000 = (real q + real r / 1000000) / 2 ^ 80"
    by (simp add: field_simps)
  have s: "\<bar>real s - 2 * (real r / 1000000)\<bar> \<le> 1"
    using r by (auto simp: s_def abs_le_iff)
  have v: "magnitude_value (2 * q + s, -81) = (2 * real q + real s) / 2 ^ 81"
    by (simp add: magnitude_value_def power_int_minus field_simps)
  have "magnitude_value (2 * q + s, -81) - real a / 1000000 = (real s - 2 * (real r / 1000000)) / 2 ^ 81"
    unfolding v a by (simp add: field_simps)
  then have "\<bar>magnitude_value (2 * q + s, -81) - real a / 1000000\<bar> = \<bar>real s - 2 * (real r / 1000000)\<bar> / 2 ^ 81"
    by (simp only: abs_divide) simp
  also have "\<dots> \<le> 1 / 2 ^ 81"
    using s by (rule divide_right_mono) simp
  finally have "\<bar>magnitude_value (2 * q + s, -81) - real a / 1000000\<bar> \<le> 1 / 2 ^ 81" .
  from to_binary64_near [OF this] show ?thesis
    by (simp only: by_million_def Let_def flip: q_def r_def) (simp only: s_def)
qed

section \<open>Reading an amount\<close>

lemma parse_usdt_Inr:
  "parse_usdt d = Inr a \<longleftrightarrow> (\<exists>negative m e. d = Finite negative m e \<and> (negative \<longrightarrow> m = 0)
     \<and> magnitude_value (m, e) \<le> 1000000000000
     \<and> a = of_nat (nat \<lfloor>magnitude_value (plus_half (times_million (m, e)))\<rfloor>))"
  by (auto simp: parse_usdt_def magnitude_exceeds_iff magnitude_floor_eq not_less split: double.splits if_splits)

lemma plus_half_times_million_bound:
  assumes "magnitude_value x \<le> 1000000000000"
  shows "magnitude_value (plus_half (times_million x)) < 1000000000000000500"
proof -
  let ?v = "magnitude_value x"
  have t: "\<bar>magnitude_value (times_million x) - ?v * 1000000\<bar> \<le> ?v * 1000000 / 2 ^ 53"
    using times_million_near [of x ?v 0] by simp
  have "\<bar>magnitude_value (plus_half (times_million x)) - (?v * 1000000 + 1 / 2)\<bar>
      \<le> ?v * 1000000 / 2 ^ 53 + (?v * 1000000 + 1 / 2 + ?v * 1000000 / 2 ^ 53) / 2 ^ 53"
    by (rule plus_half_near [OF t])
  also have "\<dots> \<le> 300"
    using assms by (simp add: field_simps)
  finally show ?thesis
    using assms by linarith
qed

text \<open>The cast of \<^verbatim>\<open>parse_usdt\<close> is defined: what it truncates fits in 64 bits.\<close>

lemma parse_usdt_fits:
  assumes "parse_usdt (Finite negative m e) = Inr a"
  shows "unat a = nat \<lfloor>magnitude_value (plus_half (times_million (m, e)))\<rfloor>" and "unat a < 1000000000000000500"
proof -
  define n where "n = nat \<lfloor>magnitude_value (plus_half (times_million (m, e)))\<rfloor>"
  have a: "a = of_nat n" and "magnitude_value (m, e) \<le> 1000000000000"
    using assms by (auto simp: parse_usdt_Inr n_def)
  then have "magnitude_value (plus_half (times_million (m, e))) < 1000000000000000500"
    using plus_half_times_million_bound by blast
  then have n: "n < 1000000000000000500"
    by (simp add: n_def nat_less_iff floor_less_iff)
  then have u: "unat a = n"
    by (simp add: a unat_of_nat)
  then show "unat a = nat \<lfloor>magnitude_value (plus_half (times_million (m, e)))\<rfloor>"
    by (simp add: n_def)
  from u n show "unat a < 1000000000000000500"
    by simp
qed

lemma magnitude_value_exponent:
  assumes "magnitude_value (m, e) < 2 ^ k" and "0 < m"
  shows "e < int k"
proof (rule ccontr)
  assume "\<not> e < int k"
  then have "(2 :: real) ^ k \<le> 2 powi e"
    using power_int_increasing [of "int k" e "2 :: real"] by simp
  also have "\<dots> \<le> real m * 2 powi e"
    using assms(2) by simp
  finally show False
    using assms(1) by (simp add: magnitude_value_def)
qed

lemma to_binary64_significand: "fst (to_binary64 x) \<le> 2 ^ 53"
proof -
  obtain m e where x: "x = (m, e)"
    by fastforce
  define k where "k = bit_length m - 53"
  have "m < 2 ^ 53 * 2 ^ k"
  proof (cases "m = 0")
    case False
    then have "m < 2 ^ bit_length m"
      using bit_length_bounds by simp
    also have "(2 :: nat) ^ bit_length m \<le> 2 ^ (53 + k)"
      by (rule power_increasing) (simp_all add: k_def)
    finally show ?thesis
      by (simp only: power_add)
  qed simp
  then have "m div 2 ^ k < 2 ^ 53"
    by (simp only: div_less_iff_less_mult zero_less_power zero_less_numeral)
  then show ?thesis
    by (simp add: x to_binary64_def round_half_even_def Let_def flip: k_def)
qed

text \<open>What the wallet sends: a number of the format, the quotient up to its rounding.\<close>

lemma usdt_double_form:
  assumes "unat a < 2 ^ 53"
  obtains m e where "usdt_double a = Finite False m e"
    and "magnitude_value (m, e) = magnitude_value (by_million (unat a))"
    and "is_binary64 (usdt_double a)"
proof -
  obtain m e where x: "lowest_terms (by_million (unat a)) = (m, e)"
    by fastforce
  then have u: "usdt_double a = Finite False m e"
    using assms by (simp add: usdt_double_def to_binary64_exact)
  have v: "magnitude_value (m, e) = magnitude_value (by_million (unat a))"
    using lowest_terms_value [of "by_million (unat a)"] by (simp add: x)
  obtain m' e' where b: "by_million (unat a) = (m', e')"
    by fastforce
  have m': "m' \<le> 2 ^ 53"
    using to_binary64_significand b by (metis by_million_def fst_conv)
  have e': "-81 \<le> e'"
    using b by (auto simp: by_million_def to_binary64_def Let_def split: if_splits)
  have f: "m \<le> m'" "m = 0 \<and> e = 0 \<or> odd m \<and> e' \<le> e"
    using lowest_terms_form [of m' e'] x by (auto simp: b)
  have "magnitude_value (m, e) < 2 ^ 53"
  proof -
    have a: "real (unat a) < 2 ^ 53"
      using assms by (metis of_nat_less_iff of_nat_numeral of_nat_power)
    then have "1 / 2 ^ 81 + (real (unat a) / 1000000 + 1 / 2 ^ 81) / 2 ^ 53 \<le> (1 :: real)"
      by (simp add: field_simps)
    then have "\<bar>magnitude_value (by_million (unat a)) - real (unat a) / 1000000\<bar> \<le> 1"
      by (rule order_trans [OF by_million_near])
    with a show ?thesis
      unfolding v by (simp add: abs_le_iff)
  qed
  then have "e < 53" if "m \<noteq> 0"
    using magnitude_value_exponent [of m e 53] that by simp
  moreover have "m < 2 ^ 53" if "odd m"
  proof -
    have "m \<noteq> 2 ^ 53"
      using that by auto
    with f(1) m' show ?thesis
      by simp
  qed
  ultimately have "is_binary64 (usdt_double a)"
    using f(2) e' by (cases "m = 0") (auto simp: u is_binary64_def)
  with u v show ?thesis
    by (rule that)
qed

text \<open>Whatever double is near enough to an amount is read as that amount.\<close>

lemma parse_usdt_near:
  assumes "a \<le> 100000000000000" and "\<bar>magnitude_value (m, e) - real a / 1000000\<bar> \<le> 2 / 100000000"
  shows "parse_usdt (Finite False m e) = Inr (of_nat a)"
proof -
  have A: "real a \<le> 100000000000000"
    using assms(1) by (metis of_nat_le_iff of_nat_numeral)
  have "2 / 100000000 * 1000000 + (real a / 1000000 * 1000000 + 2 / 100000000 * 1000000) / 2 ^ 53
      \<le> (4 / 100 :: real)"
    using A by (simp add: field_simps)
  with times_million_near [OF assms(2)]
  have "\<bar>magnitude_value (times_million (m, e)) - real a\<bar> \<le> 4 / 100"
    by (simp add: field_simps)
  note plus_half_near [OF this]
  also have "4 / 100 + (real a + 1 / 2 + 4 / 100) / 2 ^ 53 \<le> (1 / 4 :: real)"
    using A by (simp add: field_simps)
  finally have y: "\<bar>magnitude_value (plus_half (times_million (m, e))) - (real a + 1 / 2)\<bar> \<le> 1 / 4" .
  have "\<lfloor>magnitude_value (plus_half (times_million (m, e)))\<rfloor> = int a"
    using y unfolding floor_eq_iff by linarith
  moreover have "magnitude_value (m, e) \<le> 1000000000000"
    using assms(2) A by linarith
  ultimately show ?thesis
    by (auto simp: parse_usdt_Inr)
qed

lemma parse_usdt_double:
  assumes "a \<le> MAX_TRANSACTION_AMOUNT"
  shows "parse_usdt (usdt_double a) = Inr a"
proof -
  have a: "unat a \<le> 100000000000000"
    using assms by (simp add: MAX_TRANSACTION_AMOUNT_def word_le_nat_alt)
  then have A: "real (unat a) \<le> 100000000000000"
    by (metis of_nat_le_iff of_nat_numeral)
  have "unat a < 2 ^ 53"
    using a by simp
  then obtain m e where u: "usdt_double a = Finite False m e" and v: "magnitude_value (m, e) = magnitude_value (by_million (unat a))"
    by (rule usdt_double_form)
  have "1 / 2 ^ 81 + (real (unat a) / 1000000 + 1 / 2 ^ 81) / 2 ^ 53 \<le> (2 / 100000000 :: real)"
    using A by (simp add: field_simps)
  with by_million_near [of "unat a"]
  have "\<bar>magnitude_value (m, e) - real (unat a) / 1000000\<bar> \<le> 2 / 100000000"
    unfolding v by linarith
  from parse_usdt_near [OF a this] show ?thesis
    by (simp add: u)
qed

text \<open>
  An amount of up to \<^verbatim>\<open>MAX_TRANSACTION_AMOUNT\<close> survives the trip through floating point:
  the quotient by a million that the wallet sends as a \<^verbatim>\<open>double\<close> is read back by
  \<^verbatim>\<open>parse_usdt\<close> as the same number of micro-USDT, although none of the three roundings on
  the way is exact.
\<close>

theorem usdt_double_roundtrip:
  assumes "a \<le> MAX_TRANSACTION_AMOUNT"
  shows "parse_usdt (usdt_double a) = Inr a"
  using assms by (rule parse_usdt_double)

theorem usdt_double_roundtrip_witness:
  "parse_usdt (usdt_double 100) = Inr 100 \<and> parse_usdt (Finite False 1 (-1)) = Inr 500000
    \<and> parse_usdt (Finite True 1 0) = Inl (Service_error Amount_invalid)
    \<and> parse_usdt (Infinite False) = Inl (Service_error Amount_invalid)"
proof -
  have "parse_usdt (Finite False 1 (-1)) = Inr 500000"
    by (simp add: parse_usdt_def magnitude_exceeds_def times_million_def to_binary64_exact plus_half_def
        magnitude_floor_def)
  moreover have "parse_usdt (Finite True 1 0) = Inl (Service_error Amount_invalid)"
    by (simp add: parse_usdt_def)
  ultimately show ?thesis
    using usdt_double_roundtrip [of 100] by (simp add: MAX_TRANSACTION_AMOUNT_def parse_usdt_def)
qed
end
