(* ===== verification/Stealth.thy ===== *)
theory Stealth
  imports Sodium
begin

text \<open>
  Model of \<^verbatim>\<open>include/stealth.hpp\<close> and \<^verbatim>\<open>src/stealth.cpp\<close>: stealth addresses and their text
  form, wallets, and the dual-key one-time outputs (creation, scanning, derivation of the
  spending key). The random scalar of the sender is an argument; wiping memory has no
  effect on results and is not modelled.
\<close>

section \<open>Data\<close>

record stealth_address =
  addr_spend_public_key :: bytes
  addr_view_public_key :: bytes

record stealth_wallet =
  spend_private_key :: bytes
  spend_public_key :: bytes
  view_private_key :: bytes
  view_public_key :: bytes

record one_time_output =
  ephemeral_public_key :: bytes
  destination_one_time :: bytes
  out_amount :: amount

definition get_public_address :: "stealth_wallet \<Rightarrow> stealth_address" where
  "get_public_address w =
     \<lparr>addr_spend_public_key = spend_public_key w, addr_view_public_key = view_public_key w\<rparr>"

section \<open>Operations\<close>

definition encode_address :: "stealth_address \<Rightarrow> string" where
  "encode_address a = ''STX'' @ to_hex (addr_spend_public_key a) @ to_hex (addr_view_public_key a)"

definition decode_address :: "string \<Rightarrow> error + stealth_address" where
  "decode_address encoded =
     (if length encoded \<noteq> 3 + 64 + 64 \<or> take 3 encoded \<noteq> ''STX'' then Inl Stealth_bad_format
      else ebind (from_hex (take 64 (drop 3 encoded))) (\<lambda>spend_bytes.
           ebind (from_hex (take 64 (drop 67 encoded))) (\<lambda>view_bytes.
           Inr \<lparr>addr_spend_public_key = take 32 spend_bytes,
                addr_view_public_key = take 32 view_bytes\<rparr>)))"

definition generate_random_wallet :: "sodium \<Rightarrow> bytes \<Rightarrow> bytes \<Rightarrow> stealth_wallet" where
  "generate_random_wallet S spend_scalar view_scalar =
     \<lparr>spend_private_key = spend_scalar, spend_public_key = base_point S spend_scalar,
      view_private_key = view_scalar, view_public_key = base_point S view_scalar\<rparr>"

definition create_one_time_output ::
  "sodium \<Rightarrow> stealth_address \<Rightarrow> amount \<Rightarrow> bytes option \<Rightarrow> bytes \<Rightarrow> error + one_time_output" where
  "create_one_time_output S recipient_address amt deterministic_seed random_scalar =
     (let r = (case deterministic_seed of
                 Some seed \<Rightarrow> scalar_reduce S (generichash S 64 seed [])
               | None \<Rightarrow> random_scalar);
          R = base_point S r
      in case mult_noclamp S r (addr_view_public_key recipient_address) of
           None \<Rightarrow> Inl Stealth_rB_failed
         | Some rB \<Rightarrow>
             let s_scalar = scalar_reduce S (generichash S 64 rB []);
                 hG = base_point S s_scalar
             in case ed_add S hG (addr_spend_public_key recipient_address) of
                  None \<Rightarrow> Inl Stealth_sum_failed
                | Some P \<Rightarrow> Inr \<lparr>ephemeral_public_key = R, destination_one_time = P,
                                 out_amount = amt\<rparr>)"

definition scan_output :: "sodium \<Rightarrow> stealth_wallet \<Rightarrow> one_time_output \<Rightarrow> bool" where
  "scan_output S recipient_wallet output =
     (case mult_noclamp S (view_private_key recipient_wallet) (ephemeral_public_key output) of
        None \<Rightarrow> False
      | Some bR \<Rightarrow>
          let s_scalar = scalar_reduce S (generichash S 64 bR []);
              hG = base_point S s_scalar
          in case ed_add S hG (spend_public_key recipient_wallet) of
               None \<Rightarrow> False
             | Some expected_P \<Rightarrow> expected_P = destination_one_time output)"

definition derive_one_time_private_key ::
  "sodium \<Rightarrow> stealth_wallet \<Rightarrow> one_time_output \<Rightarrow> error + bytes" where
  "derive_one_time_private_key S recipient_wallet output =
     (case mult_noclamp S (view_private_key recipient_wallet) (ephemeral_public_key output) of
        None \<Rightarrow> Inl Stealth_bR_failed
      | Some bR \<Rightarrow>
          let s_scalar = scalar_reduce S (generichash S 64 bR [])
          in Inr (scalar_add S s_scalar (spend_private_key recipient_wallet)))"

section \<open>Properties\<close>

text \<open>A wallet whose public keys belong to its private ones, which are scalars.\<close>

definition wallet_ok :: "sodium \<Rightarrow> (bytes \<Rightarrow> bool) \<Rightarrow> stealth_wallet \<Rightarrow> bool" where
  "wallet_ok S sc w \<longleftrightarrow>
     sc (spend_private_key w) \<and> sc (view_private_key w)
   \<and> spend_public_key w = base_point S (spend_private_key w)
   \<and> view_public_key w = base_point S (view_private_key w)"

lemma wallet_ok_generated:
  "sc a \<Longrightarrow> sc b \<Longrightarrow> wallet_ok S sc (generate_random_wallet S a b)"
  by (simp add: wallet_ok_def generate_random_wallet_def)

text \<open>
  The text form of a stealth address loses nothing: decoding the encoding of two
  32-byte keys gives the address back.
\<close>

theorem address_roundtrip:
  assumes "length (addr_spend_public_key a) = 32" and "length (addr_view_public_key a) = 32"
  shows "decode_address (encode_address a) = Inr a"
  using assms by (simp add: decode_address_def encode_address_def)

theorem address_roundtrip_witness:
  "decode_address (encode_address \<lparr>addr_spend_public_key = pad32 5, addr_view_public_key = pad32 9\<rparr>)
   = Inr \<lparr>addr_spend_public_key = pad32 5, addr_view_public_key = pad32 9\<rparr>"
  by (rule address_roundtrip) simp_all

text \<open>
  C31: an output created for a wallet's address, with a deterministic or a random
  ephemeral key, carries the amount, is recognised by that wallet's scan, and the wallet
  derives the private key whose public key is the output's destination (so the owner can
  spend it). The group laws of the curve are hypotheses.
\<close>

theorem one_time_output_recognised_and_spendable:
  assumes "dh_commutes S sc" and "base_additive S sc" and "reduces_to S sc"
    and "wallet_ok S sc w" and "sc rnd"
    and "create_one_time_output S (get_public_address w) amt seed rnd = Inr out"
  shows "out_amount out = amt \<and> scan_output S w out
     \<and> (\<exists>x. derive_one_time_private_key S w out = Inr x \<and> base_point S x = destination_one_time out)"
proof -
  define r where "r = (case seed of Some s \<Rightarrow> scalar_reduce S (generichash S 64 s []) | None \<Rightarrow> rnd)"
  have r: "sc r"
    using assms(3,5) by (simp add: r_def reduces_to_def split: option.split)
  from assms(6) obtain rB P where
    rB: "mult_noclamp S r (view_public_key w) = Some rB"
    and P: "ed_add S (base_point S (scalar_reduce S (generichash S 64 rB []))) (spend_public_key w) = Some P"
    and out: "out = \<lparr>ephemeral_public_key = base_point S r, destination_one_time = P, out_amount = amt\<rparr>"
    by (auto simp: create_one_time_output_def Let_def r_def get_public_address_def split: option.splits)
  have bR: "mult_noclamp S (view_private_key w) (base_point S r) = Some rB"
    using assms(1,4) r rB by (simp add: dh_commutes_def wallet_ok_def)
  have "base_point S (scalar_add S (scalar_reduce S (generichash S 64 rB [])) (spend_private_key w)) = P"
    using assms(2,3,4) P by (auto simp: base_additive_def reduces_to_def wallet_ok_def)
  with out bR P show ?thesis
    by (simp add: scan_output_def derive_one_time_private_key_def Let_def)
qed

theorem one_time_output_recognised_and_spendable_witness:
  "scan_output toy_sodium (generate_random_wallet toy_sodium (scalar 3) (scalar 5))
     \<lparr>ephemeral_public_key = point 7, destination_one_time = point 1, out_amount = 100\<rparr>"
proof -
  let ?w = "generate_random_wallet toy_sodium (scalar 3) (scalar 5)"
  let ?o = "\<lparr>ephemeral_public_key = point 7, destination_one_time = point 1, out_amount = (100 :: amount)\<rparr>"
  have w: "wallet_ok toy_sodium toy_scalar ?w"
    by (simp add: wallet_ok_generated)
  have c: "create_one_time_output toy_sodium (get_public_address ?w) 100 None (scalar 7) = Inr ?o"
    by (simp add: create_one_time_output_def get_public_address_def generate_random_wallet_def
        Let_def toy_mult_def)
  show ?thesis
    using one_time_output_recognised_and_spendable
      [OF toy_dh_commutes toy_base_additive toy_reduces_to w _ c] by simp
qed

end
