(* ===== verification/Vault.thy ===== *)
theory Vault
  imports Amounts
begin

text \<open>
  Model of \<^verbatim>\<open>include/vault.hpp\<close> and \<^verbatim>\<open>src/vault.cpp\<close>: the custody accounts of the peg
  (collateral, circulating private supply, fee reserve), the receipts, and the
  operations with every guard. An operation returns the new state beside its result,
  because three of the \<^verbatim>\<open>throw\<close>s come after the balances were written. The mutex makes
  each operation one atomic step. Random bytes are an argument.
\<close>

section \<open>State and receipts\<close>

record deposit_receipt =
  dep_gross_usdt_deposited :: amount
  dep_fee_to_pool :: amount
  dep_net_shielded_tokens_minted :: amount
  dep_tx_hash :: string
  dep_recipient_view_pub :: bytes
  dep_recipient_spend_pub :: bytes

record withdrawal_receipt =
  wdr_gross_tokens_burned :: amount
  wdr_fee_to_pool :: amount
  wdr_net_usdt_to_tumble :: amount
  wdr_order_id :: string
  wdr_destination_address :: string
  wdr_key_image :: bytes
  wdr_burned_utxo_pubkey :: bytes
  wdr_burn_signature_c0 :: bytes
  wdr_burn_signature_s :: bytes
  wdr_change_output_pubkey :: bytes

record claim_receipt =
  clm_amount_claimed :: amount
  clm_remaining_fee_pool :: amount
  clm_destination_address :: string
  clm_tx_hash :: string

record vault =
  total_collateral :: amount
  circulating_supply :: amount
  fee_pool_reserve :: amount
  deposit_fee_bps :: u32
  withdraw_fee_bps :: u32

text \<open>A value-initialised \<^verbatim>\<open>Key256\<close>.\<close>

definition zero_key :: bytes where
  "zero_key = replicate 32 0"

section \<open>Operations\<close>

definition new_vault :: "u32 \<Rightarrow> u32 \<Rightarrow> vault" where
  "new_vault deposit_bps withdraw_bps =
     \<lparr>total_collateral = 0, circulating_supply = 0, fee_pool_reserve = 0,
      deposit_fee_bps = deposit_bps, withdraw_fee_bps = withdraw_bps\<rparr>"

definition audit_solvency :: "vault \<Rightarrow> bool" where
  "audit_solvency v \<longleftrightarrow> total_collateral v = circulating_supply v + fee_pool_reserve v"

definition deposit ::
  "vault \<Rightarrow> amount \<Rightarrow> string \<Rightarrow> bytes \<Rightarrow> vault \<times> (error + deposit_receipt)" where
  "deposit v usdt_gross custom_tx_hash random_hash =
     (if usdt_gross = 0 then (v, Inl Deposit_zero)
      else if usdt_gross > MAX_TRANSACTION_AMOUNT then (v, Inl Deposit_above_limit)
      else case safe_fee_calc usdt_gross (deposit_fee_bps v) of
        Inl e \<Rightarrow> (v, Inl e)
      | Inr fee \<Rightarrow>
       (case safe_sub_amount usdt_gross fee of
          None \<Rightarrow> (v, Inl Deposit_fee_underflow)
        | Some net_minted \<Rightarrow>
         (case (safe_add_amount (total_collateral v) usdt_gross,
                safe_add_amount (circulating_supply v) net_minted,
                safe_add_amount (fee_pool_reserve v) fee) of
            (Some new_collateral, Some new_circulating, Some new_fee_pool) \<Rightarrow>
              let v' = v\<lparr>total_collateral := new_collateral,
                         circulating_supply := new_circulating,
                         fee_pool_reserve := new_fee_pool\<rparr>
              in if total_collateral v' \<noteq> circulating_supply v' + fee_pool_reserve v'
                 then (v', Inl Deposit_invariant_broken)
                 else (v', Inr \<lparr>dep_gross_usdt_deposited = usdt_gross,
                                dep_fee_to_pool = fee,
                                dep_net_shielded_tokens_minted = net_minted,
                                dep_tx_hash = (if custom_tx_hash \<noteq> [] then custom_tx_hash
                                               else ''0x'' @ to_hex random_hash),
                                dep_recipient_view_pub = zero_key,
                                dep_recipient_spend_pub = zero_key\<rparr>)
          | _ \<Rightarrow> (v, Inl Deposit_balance_overflow))))"

definition request_withdrawal ::
  "vault \<Rightarrow> amount \<Rightarrow> bytes \<Rightarrow> vault \<times> (error + withdrawal_receipt)" where
  "request_withdrawal v tokens_gross order_bytes =
     (if tokens_gross = 0 then (v, Inl Withdraw_zero)
      else if tokens_gross > MAX_TRANSACTION_AMOUNT then (v, Inl Withdraw_above_limit)
      else if tokens_gross > circulating_supply v then (v, Inl Withdraw_supply_short)
      else case safe_fee_calc tokens_gross (withdraw_fee_bps v) of
        Inl e \<Rightarrow> (v, Inl e)
      | Inr fee \<Rightarrow>
       (case safe_sub_amount tokens_gross fee of
          None \<Rightarrow> (v, Inl Withdraw_fee_underflow)
        | Some net_usdt \<Rightarrow>
          if net_usdt > total_collateral v then (v, Inl Withdraw_insolvent)
          else
         (case (safe_sub_amount (circulating_supply v) tokens_gross,
                safe_sub_amount (total_collateral v) net_usdt,
                safe_add_amount (fee_pool_reserve v) fee) of
            (Some new_circulating, Some new_collateral, Some new_fee_pool) \<Rightarrow>
              let v' = v\<lparr>total_collateral := new_collateral,
                         circulating_supply := new_circulating,
                         fee_pool_reserve := new_fee_pool\<rparr>
              in if total_collateral v' \<noteq> circulating_supply v' + fee_pool_reserve v'
                 then (v', Inl Withdraw_invariant_broken)
                 else (v', Inr \<lparr>wdr_gross_tokens_burned = tokens_gross,
                                wdr_fee_to_pool = fee,
                                wdr_net_usdt_to_tumble = net_usdt,
                                wdr_order_id = ''ORD-'' @ to_hex order_bytes,
                                wdr_destination_address = [],
                                wdr_key_image = zero_key,
                                wdr_burned_utxo_pubkey = zero_key,
                                wdr_burn_signature_c0 = zero_key,
                                wdr_burn_signature_s = zero_key,
                                wdr_change_output_pubkey = zero_key\<rparr>)
          | _ \<Rightarrow> (v, Inl Withdraw_balance_overflow))))"

definition claim_fees ::
  "vault \<Rightarrow> amount \<Rightarrow> string \<Rightarrow> bytes \<Rightarrow> vault \<times> (error + claim_receipt)" where
  "claim_fees v amount_to_claim destination_address tx_bytes =
     (if amount_to_claim = 0 then (v, Inl Claim_zero)
      else if amount_to_claim > MAX_TRANSACTION_AMOUNT then (v, Inl Claim_above_limit)
      else if \<not> is_valid_evm_address destination_address then (v, Inl Claim_bad_address)
      else if amount_to_claim > fee_pool_reserve v then (v, Inl Claim_reserve_short)
      else
       (case (safe_sub_amount (total_collateral v) amount_to_claim,
              safe_sub_amount (fee_pool_reserve v) amount_to_claim) of
          (Some new_collateral, Some new_fee_pool) \<Rightarrow>
            let v' = v\<lparr>total_collateral := new_collateral, fee_pool_reserve := new_fee_pool\<rparr>
            in if total_collateral v' \<noteq> circulating_supply v' + fee_pool_reserve v'
               then (v', Inl Claim_invariant_broken)
               else (v', Inr \<lparr>clm_amount_claimed = amount_to_claim,
                              clm_remaining_fee_pool = fee_pool_reserve v',
                              clm_destination_address = destination_address,
                              clm_tx_hash = ''0x'' @ to_hex tx_bytes\<rparr>)
        | _ \<Rightarrow> (v, Inl Claim_balance_overflow)))"

definition set_fee_bps :: "vault \<Rightarrow> u32 \<Rightarrow> u32 \<Rightarrow> vault \<times> (error + unit)" where
  "set_fee_bps v deposit_bps withdraw_bps =
     (if deposit_bps > 1000 \<or> withdraw_bps > 1000 then (v, Inl Fee_config_above_limit)
      else (v\<lparr>deposit_fee_bps := deposit_bps, withdraw_fee_bps := withdraw_bps\<rparr>, Inr ()))"

definition restore_state ::
  "vault \<Rightarrow> amount \<Rightarrow> amount \<Rightarrow> amount \<Rightarrow> vault \<times> (error + unit)" where
  "restore_state v collateral circulating fee_pool =
     (let v' = v\<lparr>total_collateral := collateral, circulating_supply := circulating,
                 fee_pool_reserve := fee_pool\<rparr>
      in if total_collateral v' \<noteq> circulating_supply v' + fee_pool_reserve v'
         then (v', Inl Restore_inconsistent)
         else (v', Inr ()))"

section \<open>The solvency invariant\<close>

text \<open>
  \<^const>\<open>audit_solvency\<close> compares with wrapping 64-bit addition. The real promise is the
  equation on numbers: nothing was lost to wrap-around.
\<close>

definition solvent :: "vault \<Rightarrow> bool" where
  "solvent v \<longleftrightarrow>
     unat (total_collateral v) = unat (circulating_supply v) + unat (fee_pool_reserve v)"

definition fees_configured :: "vault \<Rightarrow> bool" where
  "fees_configured v \<longleftrightarrow> deposit_fee_bps v \<le> 10000 \<and> withdraw_fee_bps v \<le> 10000"

lemma solvent_bound: "solvent v \<Longrightarrow>
  unat (circulating_supply v) + unat (fee_pool_reserve v) < 2 ^ 64"
  using unat64_less [of "total_collateral v"] by (simp add: solvent_def)

lemma sum_word_eqI: "unat (c :: u64) = unat a + unat b \<Longrightarrow> c = a + b"
  using unat64_less [of c] by (simp add: word_unat_eq_iff exact_arith)

lemma solvent_audit: "solvent v \<Longrightarrow> audit_solvency v"
  unfolding solvent_def audit_solvency_def by (rule sum_word_eqI)

text \<open>What a successful deposit did, on numbers.\<close>

definition deposited :: "vault \<Rightarrow> amount \<Rightarrow> vault \<Rightarrow> deposit_receipt \<Rightarrow> bool" where
  "deposited v g v' r \<longleftrightarrow>
     (let fee = unat g * unat (deposit_fee_bps v) div 10000 in
      unat (dep_gross_usdt_deposited r) = unat g
    \<and> unat (dep_fee_to_pool r) = fee
    \<and> unat (dep_net_shielded_tokens_minted r) = unat g - fee
    \<and> unat (total_collateral v') = unat (total_collateral v) + unat g
    \<and> unat (circulating_supply v') = unat (circulating_supply v) + (unat g - fee)
    \<and> unat (fee_pool_reserve v') = unat (fee_pool_reserve v) + fee
    \<and> deposit_fee_bps v' = deposit_fee_bps v \<and> withdraw_fee_bps v' = withdraw_fee_bps v)"

definition deposit_guard :: "vault \<Rightarrow> amount \<Rightarrow> bool" where
  "deposit_guard v g \<longleftrightarrow> g \<noteq> 0 \<and> g \<le> MAX_TRANSACTION_AMOUNT \<and> deposit_fee_bps v \<le> 10000
     \<and> unat (total_collateral v) + unat g < 2 ^ 64"

definition deposit_error :: "vault \<Rightarrow> amount \<Rightarrow> error" where
  "deposit_error v g =
     (if g = 0 then Deposit_zero
      else if g > MAX_TRANSACTION_AMOUNT then Deposit_above_limit
      else if deposit_fee_bps v > 10000 then Fee_rate_above_limit
      else Deposit_balance_overflow)"

lemma deposit_accepts:
  assumes "solvent v" and "deposit_guard v g"
  shows "\<exists>v' r. deposit v g tx rnd = (v', Inr r) \<and> deposited v g v' r"
proof -
  obtain fee where f: "safe_fee_calc g (deposit_fee_bps v) = Inr fee"
    and uf: "unat fee = unat g * unat (deposit_fee_bps v) div 10000"
    using assms(2) unat_safe_fee_calc unfolding deposit_guard_def by blast
  have le: "fee \<le> g"
    using f by (rule safe_fee_calc_Inr)
  then have ule: "unat fee \<le> unat g"
    by (simp add: word_le_nat_alt)
  have un: "unat (g - fee) = unat g - unat fee"
    using le by (rule unat_sub_exact)
  have fits: "unat (total_collateral v) + unat g < 2 ^ 64"
    using assms(2) by (simp add: deposit_guard_def)
  then have fits': "unat (circulating_supply v) + unat (g - fee) < 2 ^ 64"
    "unat (fee_pool_reserve v) + unat fee < 2 ^ 64"
    using assms(1) ule by (simp_all add: solvent_def un)
  have adds: "safe_add_amount (total_collateral v) g = Some (total_collateral v + g)"
    "safe_add_amount (circulating_supply v) (g - fee) = Some (circulating_supply v + (g - fee))"
    "safe_add_amount (fee_pool_reserve v) fee = Some (fee_pool_reserve v + fee)"
    "safe_sub_amount g fee = Some (g - fee)"
    using fits fits' le by (simp_all only: safe_add_amount_eq_Some safe_sub_amount_eq_Some simp_thms)
  have sums: "unat (total_collateral v + g) = unat (total_collateral v) + unat g"
    "unat (circulating_supply v + (g - fee)) = unat (circulating_supply v) + (unat g - unat fee)"
    "unat (fee_pool_reserve v + fee) = unat (fee_pool_reserve v) + unat fee"
    using fits fits' by (simp_all only: u64_add_exact un)
  have inv: "total_collateral v + g = circulating_supply v + (g - fee) + (fee_pool_reserve v + fee)"
    using solvent_audit [OF assms(1)] by (simp add: audit_solvency_def algebra_simps)
  have guards: "g \<noteq> 0" "\<not> g > MAX_TRANSACTION_AMOUNT"
    using assms(2) by (simp_all add: deposit_guard_def not_less)
  show ?thesis
    unfolding deposit_def f deposited_def uf [symmetric] Let_def
    by (simp only: guards if_False sum.case option.case prod.case adds)
       (simp add: inv [symmetric] sums un)
qed

lemma deposit_rejects:
  assumes "solvent v" and "\<not> deposit_guard v g"
  shows "deposit v g tx rnd = (v, Inl (deposit_error v g))"
proof (cases "g = 0 \<or> g > MAX_TRANSACTION_AMOUNT \<or> deposit_fee_bps v > 10000")
  case True
  then show ?thesis
    by (auto simp: deposit_def safe_fee_calc_def deposit_error_def)
next
  case False
  then have none: "safe_add_amount (total_collateral v) g = None"
    using assms(2) by (auto simp: deposit_guard_def safe_add_amount_eq_None not_less)
  from False obtain fee where f: "safe_fee_calc g (deposit_fee_bps v) = Inr fee"
    using unat_safe_fee_calc by (metis not_less)
  then have "safe_sub_amount g fee = Some (g - fee)"
    using safe_fee_calc_Inr(3) by (simp add: safe_sub_amount_eq_Some)
  with False none f show ?thesis
    by (simp add: deposit_def deposit_error_def)
qed

lemma deposit_solvent:
  assumes "solvent v"
  shows "solvent (fst (deposit v g tx rnd))"
proof (cases "deposit_guard v g")
  case True
  obtain v' r where d: "deposit v g tx rnd = (v', Inr r)" and e: "deposited v g v' r"
    using deposit_accepts [OF assms True] by blast
  have "unat g * unat (deposit_fee_bps v) div 10000 \<le> unat g"
    using True by (intro fee_le_amount) (simp add: deposit_guard_def word_le_nat_alt)
  with assms d e show ?thesis
    by (simp add: solvent_def deposited_def Let_def)
next
  case False
  with deposit_rejects [OF assms False] assms show ?thesis
    by simp
qed

text \<open>What a successful withdrawal did, on numbers.\<close>

definition withdrawn :: "vault \<Rightarrow> amount \<Rightarrow> vault \<Rightarrow> withdrawal_receipt \<Rightarrow> bool" where
  "withdrawn v g v' r \<longleftrightarrow>
     (let fee = unat g * unat (withdraw_fee_bps v) div 10000 in
      unat (wdr_gross_tokens_burned r) = unat g
    \<and> unat (wdr_fee_to_pool r) = fee
    \<and> unat (wdr_net_usdt_to_tumble r) = unat g - fee
    \<and> unat (total_collateral v') + (unat g - fee) = unat (total_collateral v)
    \<and> unat (circulating_supply v') + unat g = unat (circulating_supply v)
    \<and> unat (fee_pool_reserve v') = unat (fee_pool_reserve v) + fee
    \<and> deposit_fee_bps v' = deposit_fee_bps v \<and> withdraw_fee_bps v' = withdraw_fee_bps v)"

definition withdraw_guard :: "vault \<Rightarrow> amount \<Rightarrow> bool" where
  "withdraw_guard v g \<longleftrightarrow> g \<noteq> 0 \<and> g \<le> MAX_TRANSACTION_AMOUNT \<and> withdraw_fee_bps v \<le> 10000
     \<and> g \<le> circulating_supply v"

definition withdraw_error :: "vault \<Rightarrow> amount \<Rightarrow> error" where
  "withdraw_error v g =
     (if g = 0 then Withdraw_zero
      else if g > MAX_TRANSACTION_AMOUNT then Withdraw_above_limit
      else if g > circulating_supply v then Withdraw_supply_short
      else Fee_rate_above_limit)"

lemma withdrawal_accepts:
  assumes "solvent v" and "withdraw_guard v g"
  shows "\<exists>v' r. request_withdrawal v g rnd = (v', Inr r) \<and> withdrawn v g v' r"
proof -
  obtain fee where f: "safe_fee_calc g (withdraw_fee_bps v) = Inr fee"
    and uf: "unat fee = unat g * unat (withdraw_fee_bps v) div 10000"
    using assms(2) unat_safe_fee_calc unfolding withdraw_guard_def by blast
  have le: "fee \<le> g"
    using f by (rule safe_fee_calc_Inr)
  then have ule: "unat fee \<le> unat g"
    by (simp add: word_le_nat_alt)
  have un: "unat (g - fee) = unat g - unat fee"
    using le by (rule unat_sub_exact)
  have gc: "g \<le> circulating_supply v"
    using assms(2) by (simp add: withdraw_guard_def)
  then have ugc: "unat g \<le> unat (circulating_supply v)"
    by (simp add: word_le_nat_alt)
  have nt: "g - fee \<le> total_collateral v"
    using assms(1) ugc by (simp add: solvent_def word_le_nat_alt un)
  have fits: "unat (fee_pool_reserve v) + unat fee < 2 ^ 64"
    using solvent_bound [OF assms(1)] ule ugc by simp
  have adds: "safe_sub_amount g fee = Some (g - fee)"
    "safe_sub_amount (circulating_supply v) g = Some (circulating_supply v - g)"
    "safe_sub_amount (total_collateral v) (g - fee) = Some (total_collateral v - (g - fee))"
    "safe_add_amount (fee_pool_reserve v) fee = Some (fee_pool_reserve v + fee)"
    using fits le gc nt by (simp_all only: safe_add_amount_eq_Some safe_sub_amount_eq_Some simp_thms)
  have sums: "unat (circulating_supply v - g) = unat (circulating_supply v) - unat g"
    "unat (total_collateral v - (g - fee)) = unat (total_collateral v) - (unat g - unat fee)"
    "unat (fee_pool_reserve v + fee) = unat (fee_pool_reserve v) + unat fee"
    using fits gc nt by (simp_all only: u64_add_exact unat_sub_exact un)
  have inv: "total_collateral v - (g - fee) = circulating_supply v - g + (fee_pool_reserve v + fee)"
    using solvent_audit [OF assms(1)] by (simp add: audit_solvency_def algebra_simps)
  have guards: "g \<noteq> 0" "\<not> g > MAX_TRANSACTION_AMOUNT" "\<not> g > circulating_supply v"
    "\<not> g - fee > total_collateral v"
    using assms(2) nt by (simp_all add: withdraw_guard_def not_less)
  have nats: "unat (total_collateral v) - (unat g - unat fee) + (unat g - unat fee)
      = unat (total_collateral v)"
    using nt by (simp add: word_le_nat_alt un)
  show ?thesis
    unfolding request_withdrawal_def f withdrawn_def uf [symmetric] Let_def
    by (simp only: guards if_False sum.case option.case prod.case adds)
       (simp add: inv [symmetric] sums un nats ugc)
qed

lemma withdrawal_rejects:
  assumes "\<not> withdraw_guard v g"
  shows "request_withdrawal v g rnd = (v, Inl (withdraw_error v g))"
  using assms
  by (auto simp: request_withdrawal_def withdraw_guard_def withdraw_error_def safe_fee_calc_def)

lemma withdrawal_solvent:
  assumes "solvent v"
  shows "solvent (fst (request_withdrawal v g rnd))"
proof (cases "withdraw_guard v g")
  case True
  obtain v' r where d: "request_withdrawal v g rnd = (v', Inr r)" and e: "withdrawn v g v' r"
    using withdrawal_accepts [OF assms True] by blast
  have "unat g * unat (withdraw_fee_bps v) div 10000 \<le> unat g"
    using True by (intro fee_le_amount) (simp add: withdraw_guard_def word_le_nat_alt)
  then have "unat (total_collateral v') = unat (circulating_supply v') + unat (fee_pool_reserve v')"
    using assms e unfolding solvent_def withdrawn_def Let_def by linarith
  with d show ?thesis
    by (simp add: solvent_def)
next
  case False
  with withdrawal_rejects [OF False] assms show ?thesis
    by simp
qed

text \<open>A claim takes from the fee reserve and the collateral alone.\<close>

definition claim_guard :: "vault \<Rightarrow> amount \<Rightarrow> string \<Rightarrow> bool" where
  "claim_guard v a addr \<longleftrightarrow> a \<noteq> 0 \<and> a \<le> MAX_TRANSACTION_AMOUNT \<and> is_valid_evm_address addr
     \<and> a \<le> fee_pool_reserve v"

definition claim_error :: "vault \<Rightarrow> amount \<Rightarrow> string \<Rightarrow> error" where
  "claim_error v a addr =
     (if a = 0 then Claim_zero
      else if a > MAX_TRANSACTION_AMOUNT then Claim_above_limit
      else if \<not> is_valid_evm_address addr then Claim_bad_address
      else Claim_reserve_short)"

lemma claim_accepts:
  assumes "solvent v" and "claim_guard v a addr"
  shows "\<exists>v' r. claim_fees v a addr rnd = (v', Inr r)
    \<and> clm_amount_claimed r = a
    \<and> clm_remaining_fee_pool r = fee_pool_reserve v'
    \<and> unat (fee_pool_reserve v') + unat a = unat (fee_pool_reserve v)
    \<and> unat (total_collateral v') + unat a = unat (total_collateral v)
    \<and> circulating_supply v' = circulating_supply v"
proof -
  have a: "a \<le> fee_pool_reserve v"
    using assms(2) by (simp add: claim_guard_def)
  then have t: "a \<le> total_collateral v"
    using assms(1) by (simp add: solvent_def word_le_nat_alt)
  have adds: "safe_sub_amount (total_collateral v) a = Some (total_collateral v - a)"
    "safe_sub_amount (fee_pool_reserve v) a = Some (fee_pool_reserve v - a)"
    using a t by (simp_all only: safe_sub_amount_eq_Some simp_thms)
  have sums: "unat (total_collateral v - a) + unat a = unat (total_collateral v)"
    "unat (fee_pool_reserve v - a) + unat a = unat (fee_pool_reserve v)"
    using a t by (simp_all add: unat_sub_exact word_le_nat_alt)
  have inv: "total_collateral v - a = circulating_supply v + (fee_pool_reserve v - a)"
    using solvent_audit [OF assms(1)] by (simp add: audit_solvency_def algebra_simps)
  show ?thesis
    using assms(2) unfolding claim_fees_def claim_guard_def Let_def
    by (simp add: adds inv [symmetric] not_less sums)
qed

lemma claim_rejects:
  assumes "\<not> claim_guard v a addr"
  shows "claim_fees v a addr rnd = (v, Inl (claim_error v a addr))"
  using assms by (auto simp: claim_fees_def claim_guard_def claim_error_def)

lemma claim_solvent:
  assumes "solvent v"
  shows "solvent (fst (claim_fees v a addr rnd))"
proof (cases "claim_guard v a addr")
  case True
  with claim_accepts [OF assms True, of rnd] assms show ?thesis
    by (auto simp: solvent_def)
next
  case False
  with claim_rejects [OF False] assms show ?thesis
    by simp
qed

section \<open>Operations as one step function\<close>

datatype vault_op =
    Op_deposit amount string bytes
  | Op_withdraw amount bytes
  | Op_claim amount string bytes
  | Op_set_fee u32 u32

datatype vault_result =
    Deposited deposit_receipt
  | Withdrawn withdrawal_receipt
  | Claimed claim_receipt
  | Fee_set

fun vault_exec :: "vault \<Rightarrow> vault_op \<Rightarrow> vault \<times> (error + vault_result)" where
  "vault_exec v (Op_deposit g tx rnd) = map_prod id (map_sum id Deposited) (deposit v g tx rnd)"
| "vault_exec v (Op_withdraw g rnd) =
     map_prod id (map_sum id Withdrawn) (request_withdrawal v g rnd)"
| "vault_exec v (Op_claim a addr rnd) = map_prod id (map_sum id Claimed) (claim_fees v a addr rnd)"
| "vault_exec v (Op_set_fee d w) = map_prod id (map_sum id (\<lambda>_. Fee_set)) (set_fee_bps v d w)"

lemma set_fee_bps_solvent [simp]: "solvent (fst (set_fee_bps v d w)) = solvent v"
  by (simp add: set_fee_bps_def solvent_def)

section \<open>The abstract peg\<close>

text \<open>
  What the vault promises to its users, on numbers without bounds: tokens owed to users
  and earnings of the treasury. The collateral is their sum.
\<close>

record peg =
  owed :: nat
  treasury :: nat

definition peg_of :: "vault \<Rightarrow> peg" where
  "peg_of v = \<lparr>owed = unat (circulating_supply v), treasury = unat (fee_pool_reserve v)\<rparr>"

fun peg_step :: "vault \<Rightarrow> peg \<Rightarrow> vault_op \<Rightarrow> peg" where
  "peg_step v p (Op_deposit g tx rnd) =
     (let fee = unat g * unat (deposit_fee_bps v) div 10000
      in p\<lparr>owed := owed p + (unat g - fee), treasury := treasury p + fee\<rparr>)"
| "peg_step v p (Op_withdraw g rnd) =
     (let fee = unat g * unat (withdraw_fee_bps v) div 10000
      in p\<lparr>owed := owed p - unat g, treasury := treasury p + fee\<rparr>)"
| "peg_step v p (Op_claim a addr rnd) = p\<lparr>treasury := treasury p - unat a\<rparr>"
| "peg_step v p (Op_set_fee d w) = p"

fun op_guard :: "vault \<Rightarrow> vault_op \<Rightarrow> bool" where
  "op_guard v (Op_deposit g tx rnd) = deposit_guard v g"
| "op_guard v (Op_withdraw g rnd) = withdraw_guard v g"
| "op_guard v (Op_claim a addr rnd) = claim_guard v a addr"
| "op_guard v (Op_set_fee d w) = (d \<le> 1000 \<and> w \<le> 1000)"

text \<open>Money that enters and leaves the vault in a run of operations.\<close>

fun result_in :: "error + vault_result \<Rightarrow> nat" where
  "result_in (Inr (Deposited r)) = unat (dep_gross_usdt_deposited r)"
| "result_in _ = 0"

fun result_out :: "error + vault_result \<Rightarrow> nat" where
  "result_out (Inr (Withdrawn r)) = unat (wdr_net_usdt_to_tumble r)"
| "result_out (Inr (Claimed r)) = unat (clm_amount_claimed r)"
| "result_out _ = 0"

fun money_in :: "vault \<Rightarrow> vault_op list \<Rightarrow> nat" where
  "money_in v [] = 0"
| "money_in v (op # ops) =
     result_in (snd (vault_exec v op)) + money_in (fst (vault_exec v op)) ops"

fun money_out :: "vault \<Rightarrow> vault_op list \<Rightarrow> nat" where
  "money_out v [] = 0"
| "money_out v (op # ops) =
     result_out (snd (vault_exec v op)) + money_out (fst (vault_exec v op)) ops"

lemma exec_accepts: "solvent v \<Longrightarrow> op_guard v op \<Longrightarrow>
  \<exists>v' r. vault_exec v op = (v', Inr r) \<and> peg_of v' = peg_step v (peg_of v) op
    \<and> unat (total_collateral v) + result_in (Inr r) = unat (total_collateral v') + result_out (Inr r)"
proof (cases op)
  case (Op_deposit g tx rnd)
  assume "solvent v" and "op_guard v op"
  with Op_deposit deposit_accepts [of v g tx rnd] show ?thesis
    by (auto simp: peg_of_def deposited_def Let_def)
next
  case (Op_withdraw g rnd)
  assume "solvent v" and "op_guard v op"
  with Op_withdraw withdrawal_accepts [of v g rnd] show ?thesis
    by (auto simp: peg_of_def withdrawn_def Let_def)
next
  case (Op_claim a addr rnd)
  assume "solvent v" and "op_guard v op"
  with Op_claim claim_accepts [of v a addr rnd] show ?thesis
    by (auto simp: peg_of_def)
next
  case (Op_set_fee d w)
  assume "op_guard v op"
  with Op_set_fee show ?thesis
    by (auto simp: peg_of_def set_fee_bps_def not_less)
qed

lemma exec_rejects: "solvent v \<Longrightarrow> \<not> op_guard v op \<Longrightarrow> \<exists>e. vault_exec v op = (v, Inl e)"
  by (cases op)
     (auto simp: deposit_rejects withdrawal_rejects claim_rejects set_fee_bps_def not_le)

lemma exec_money:
  assumes "solvent v"
  shows "unat (total_collateral v) + result_in (snd (vault_exec v op))
       = unat (total_collateral (fst (vault_exec v op))) + result_out (snd (vault_exec v op))"
  using exec_accepts [OF assms, of op] exec_rejects [OF assms, of op]
  by (cases "op_guard v op") auto

section \<open>Reachable vaults\<close>

interpretation vops: atomic_ops vault_exec solvent
proof unfold_locales
  fix v op
  assume "solvent v"
  then show "solvent (fst (vault_exec v op))"
    by (cases op) (simp_all add: deposit_solvent withdrawal_solvent claim_solvent)
next
  fix v op v' e
  assume v: "solvent v" and ex: "vault_exec v op = (v', Inl e)"
  show "v' = v"
    using exec_accepts [OF v, of op] exec_rejects [OF v, of op] ex by (cases "op_guard v op") auto
qed

text \<open>
  The states a vault goes through: construction with any rates, any operation with any
  outcome, and the restoration of balances taken from such a vault (the roll-back in
  \<^verbatim>\<open>Node::buy_shielded\<close>, the scratch vault of \<^verbatim>\<open>Node::apply_remote_block\<close>, the reload of
  saved balances).
\<close>

inductive vault_reachable :: "vault \<Rightarrow> bool" where
  created: "vault_reachable (new_vault d w)"
| operated: "vault_reachable v \<Longrightarrow> vault_reachable (fst (vault_exec v op))"
| restored: "vault_reachable v \<Longrightarrow> vault_reachable u \<Longrightarrow>
    vault_reachable (fst (restore_state v (total_collateral u) (circulating_supply u)
                                          (fee_pool_reserve u)))"

lemma new_vault_solvent [simp]: "solvent (new_vault d w)"
  by (simp add: solvent_def new_vault_def)

lemma fst_restore_state:
  "fst (restore_state v c s f) =
     v\<lparr>total_collateral := c, circulating_supply := s, fee_pool_reserve := f\<rparr>"
  by (simp add: restore_state_def Let_def)

lemma restore_solvent:
  "solvent u \<Longrightarrow> solvent (fst (restore_state v (total_collateral u) (circulating_supply u)
                                              (fee_pool_reserve u)))"
  by (simp only: solvent_def fst_restore_state) simp

lemma reachable_solvent: "vault_reachable v \<Longrightarrow> solvent v"
  by (induction rule: vault_reachable.induct) (simp_all add: vops.exec_inv restore_solvent)

section \<open>Properties\<close>

text \<open>
  C29: a vault is solvent in every reachable state: the collateral equals, as a number and
  not only modulo 2^64, the circulating supply plus the fee reserve, so the code's own
  audit always passes.
\<close>

theorem vault_always_solvent:
  assumes "vault_reachable v"
  shows "solvent v \<and> audit_solvency v"
  using reachable_solvent [OF assms] solvent_audit by blast

theorem vault_always_solvent_witness:
  "solvent (fst (deposit (new_vault 50 50) 100000000 [] []))
     \<and> audit_solvency (fst (deposit (new_vault 50 50) 100000000 [] []))"
proof -
  have "vault_reachable (fst (vault_exec (new_vault 50 50) (Op_deposit 100000000 [] [])))"
    by (intro vault_reachable.intros)
  then show ?thesis
    using vault_always_solvent by simp
qed

text \<open>
  C30: every vault operation refines the abstract peg: it takes effect exactly when its
  guard holds, and then moves the tokens owed and the treasury as the specification
  does; otherwise it throws and the state is untouched.
\<close>

theorem vault_refines_peg:
  assumes "solvent v"
  shows "if op_guard v op
    then (\<exists>r. snd (vault_exec v op) = Inr r) \<and> peg_of (fst (vault_exec v op)) = peg_step v (peg_of v) op
    else (\<exists>e. vault_exec v op = (v, Inl e))"
  using exec_accepts [OF assms, of op] exec_rejects [OF assms, of op] by auto

theorem vault_refines_peg_witness:
  "op_guard (new_vault 50 50) (Op_deposit 100000000 [] [])
   \<and> peg_of (fst (vault_exec (new_vault 50 50) (Op_deposit 100000000 [] [])))
     = \<lparr>owed = 99500000, treasury = 500000\<rparr>"
proof -
  have s: "solvent (new_vault 50 50)"
    by simp
  have g: "op_guard (new_vault 50 50) (Op_deposit 100000000 [] [])"
    by (simp add: deposit_guard_def new_vault_def MAX_TRANSACTION_AMOUNT_def)
  show ?thesis
    using vault_refines_peg [OF s, of "Op_deposit 100000000 [] []"] g
    by (simp add: peg_of_def new_vault_def)
qed

text \<open>
  Money is conserved over any run of operations with any outcomes: collateral at the
  start plus gross deposits is collateral at the end plus everything paid out in
  withdrawals and treasury claims.
\<close>

theorem vault_money_conserved:
  assumes "solvent v"
  shows "unat (total_collateral v) + money_in v ops
       = unat (total_collateral (run_ops vault_exec v ops)) + money_out v ops"
  using assms
proof (induction ops arbitrary: v)
  case (Cons op ops)
  have "solvent (fst (vault_exec v op))"
    using Cons.prems by (rule vops.exec_inv)
  from Cons.IH [OF this] exec_money [OF Cons.prems, of op] show ?case
    unfolding money_in.simps money_out.simps run_ops_simps by linarith
qed simp

theorem vault_money_conserved_witness:
  "unat (total_collateral (new_vault 50 50)) + money_in (new_vault 50 50) [Op_deposit 100000000 [] []]
   = unat (total_collateral (run_ops vault_exec (new_vault 50 50) [Op_deposit 100000000 [] []]))
     + money_out (new_vault 50 50) [Op_deposit 100000000 [] []]"
  by (rule vault_money_conserved) simp

text \<open>
  The complete behaviour of a deposit into a solvent vault. It is accepted exactly
  when the amount is positive and within the protocol limit, the rate is at most 100%
  and the collateral does not exceed 64 bits; then gross, floor fee and net are as
  configured. Otherwise the error is the first failed guard, and the fee-underflow and
  broken-invariant errors never occur.
\<close>

theorem deposit_functional:
  assumes "solvent v"
  shows "if deposit_guard v g
    then (\<exists>v' r. deposit v g tx rnd = (v', Inr r) \<and> deposited v g v' r)
    else deposit v g tx rnd = (v, Inl (deposit_error v g))"
  using deposit_accepts [OF assms] deposit_rejects [OF assms] by simp

theorem deposit_functional_witness:
  "deposit (new_vault 50 50) 0 [] [] = (new_vault 50 50, Inl Deposit_zero)"
  using deposit_functional [of "new_vault 50 50" 0 "[]" "[]"]
  by (simp add: deposit_guard_def deposit_error_def)

text \<open>
  The complete behaviour of a withdrawal from a solvent vault. It is accepted exactly
  when the amount is positive, within the limit and covered by the circulating supply;
  then net plus fee is gross and the paid-out collateral was there. The insolvency,
  overflow and broken-invariant errors never occur.
\<close>

theorem withdrawal_functional:
  assumes "solvent v"
  shows "if withdraw_guard v g
    then (\<exists>v' r. request_withdrawal v g rnd = (v', Inr r) \<and> withdrawn v g v' r)
    else request_withdrawal v g rnd = (v, Inl (withdraw_error v g))"
  using withdrawal_accepts [OF assms] withdrawal_rejects by simp

theorem withdrawal_functional_witness:
  "request_withdrawal (new_vault 50 50) 5 [] = (new_vault 50 50, Inl Withdraw_supply_short)"
  using withdrawal_functional [OF new_vault_solvent [of 50 50], of 5 "[]"]
  by (simp add: withdraw_guard_def withdraw_error_def new_vault_def MAX_TRANSACTION_AMOUNT_def)

text \<open>
  A treasury claim never touches the users' side: on a solvent vault it is accepted
  exactly when the amount is positive, within the limit, to a valid EVM address and
  covered by the fee reserve, and it leaves the circulating supply unchanged.
\<close>

theorem claim_functional:
  assumes "solvent v"
  shows "if claim_guard v a addr
    then (\<exists>v' r. claim_fees v a addr rnd = (v', Inr r)
      \<and> clm_amount_claimed r = a \<and> clm_remaining_fee_pool r = fee_pool_reserve v'
      \<and> unat (fee_pool_reserve v') + unat a = unat (fee_pool_reserve v)
      \<and> unat (total_collateral v') + unat a = unat (total_collateral v)
      \<and> circulating_supply v' = circulating_supply v)
    else claim_fees v a addr rnd = (v, Inl (claim_error v a addr))"
  using claim_accepts [OF assms] claim_rejects by simp

theorem claim_functional_witness:
  "claim_fees (new_vault 50 50) 5 ''0x71C86576135593833950275819777174bE5b248a'' []
   = (new_vault 50 50, Inl Claim_reserve_short)"
  using claim_functional [OF new_vault_solvent [of 50 50], of 5
      "''0x71C86576135593833950275819777174bE5b248a''" "[]"]
  by (simp add: claim_guard_def claim_error_def new_vault_def MAX_TRANSACTION_AMOUNT_def
      is_valid_evm_address_def isxdigit_def)

text \<open>
  Operations that throw are invisible: a run of operations and the same run without
  the failed ones end in the same vault.
\<close>

theorem vault_failures_invisible:
  assumes "solvent v"
  shows "run_ops vault_exec v (succeeded vault_exec v ops) = run_ops vault_exec v ops"
  using assms by (rule vops.run_succeeded)

theorem vault_failures_invisible_witness:
  "run_ops vault_exec (new_vault 50 50) (succeeded vault_exec (new_vault 50 50) [Op_withdraw 1 []])
   = run_ops vault_exec (new_vault 50 50) [Op_withdraw 1 []]"
  by (rule vault_failures_invisible) simp

text \<open>
  The consistency check of \<open>restore_state\<close> and the audit compare modulo 2^64: a vault
  with no collateral and 2^64 units of liabilities is accepted and passes the audit
  although it is not solvent.
\<close>

theorem restore_accepts_wrapped_liabilities:
  "\<exists>v'. restore_state v 0 (2 ^ 63) (2 ^ 63) = (v', Inr ())
     \<and> audit_solvency v' \<and> \<not> solvent v'"
  by (simp add: restore_state_def audit_solvency_def solvent_def)

end
