(* ===== verification/RingSig.thy ===== *)
theory RingSig
  imports Stealth Vault
begin

text \<open>
  Model of \<^verbatim>\<open>include/ring_signature.hpp\<close> and \<^verbatim>\<open>src/ring_signature.cpp\<close>: the linkable ring
  signature (MLSAG), the single-key burn proof (DLEQ), the hashes they sign and the
  ledger of spent key images. The random scalars of a signer are arguments. A verifier
  returns \<open>Inl\<close> where \<open>hash_to_point\<close> throws inside it.
\<close>

section \<open>Data\<close>

record ring_signature =
  sig_key_image :: bytes
  sig_c0 :: bytes
  sig_responses :: "bytes list"
  sig_ring_pubkeys :: "bytes list"

section \<open>Hashing\<close>

definition hash_to_point :: "sodium \<Rightarrow> bytes \<Rightarrow> error + bytes" where
  "hash_to_point S pubkey =
     (let uniform = generichash S 32 pubkey []
      in case from_uniform S uniform of
           None \<Rightarrow> Inl Hash_to_point_map_failed
         | Some p_raw \<Rightarrow>
          (case mult_noclamp S eight_scalar p_raw of
             None \<Rightarrow> Inl Hash_to_point_cofactor_failed
           | Some Hp \<Rightarrow> Inr Hp))"

definition compute_key_image :: "sodium \<Rightarrow> bytes \<Rightarrow> bytes \<Rightarrow> error + bytes" where
  "compute_key_image S privkey pubkey =
     ebind (hash_to_point S pubkey) (\<lambda>Hp.
       case mult_noclamp S privkey Hp of None \<Rightarrow> Inl Key_image_failed | Some img \<Rightarrow> Inr img)"

definition ring_hash_challenge :: "sodium \<Rightarrow> bytes \<Rightarrow> bytes \<Rightarrow> bytes \<Rightarrow> bytes" where
  "ring_hash_challenge S message_hash L R =
     scalar_reduce S (generichash S 64 (message_hash @ L @ R) [])"

text \<open>
  The incremental hash is the hash of the concatenated updates. The counts are truncated
  to 32 bits as in the source.
\<close>

definition output_hash_input :: "one_time_output \<Rightarrow> bytes" where
  "output_hash_input out =
     destination_one_time out @ ephemeral_public_key out @ le_bytes 8 (out_amount out)"

definition canonical_tx_input ::
  "one_time_output list \<Rightarrow> amount \<Rightarrow> bytes list \<Rightarrow> bytes \<Rightarrow> bytes" where
  "canonical_tx_input outputs public_fee ring_pubkeys key_image =
     le_bytes 4 (of_nat (length outputs) :: u32)
     @ concat (map output_hash_input outputs)
     @ le_bytes 8 public_fee
     @ le_bytes 4 (of_nat (length ring_pubkeys) :: u32)
     @ concat ring_pubkeys
     @ key_image"

definition compute_canonical_tx_hash ::
  "sodium \<Rightarrow> one_time_output list \<Rightarrow> amount \<Rightarrow> bytes list \<Rightarrow> bytes \<Rightarrow> bytes" where
  "compute_canonical_tx_hash S outputs public_fee ring_pubkeys key_image =
     generichash S 32 (canonical_tx_input outputs public_fee ring_pubkeys key_image) []"

definition burn_message_input :: "string \<Rightarrow> amount \<Rightarrow> string \<Rightarrow> bytes \<Rightarrow> bytes" where
  "burn_message_input order_id gross_burned destination_address change_output_pubkey =
     bytes_of_string ''BURN_PROOF_V2''
     @ bytes_of_string order_id
     @ le_bytes 8 gross_burned
     @ bytes_of_string destination_address
     @ change_output_pubkey"

definition compute_burn_message_hash ::
  "sodium \<Rightarrow> string \<Rightarrow> amount \<Rightarrow> string \<Rightarrow> bytes \<Rightarrow> bytes" where
  "compute_burn_message_hash S order_id gross_burned destination_address change_output_pubkey =
     generichash S 32
       (burn_message_input order_id gross_burned destination_address change_output_pubkey) []"

section \<open>Signing with a ring\<close>

text \<open>One iteration of the simulation: the next challenge from a decoy's response.\<close>

definition sign_step ::
  "sodium \<Rightarrow> bytes \<Rightarrow> bytes \<Rightarrow> bytes \<Rightarrow> bytes \<Rightarrow> bytes \<Rightarrow> error + bytes" where
  "sign_step S message_hash key_image P s c =
     (let sG = base_point S s
      in case mult_noclamp S c P of
           None \<Rightarrow> Inl Ring_cP_failed
         | Some cP \<Rightarrow>
          (case ed_add S sG cP of
             None \<Rightarrow> Inl Ring_sG_cP_failed
           | Some L \<Rightarrow>
              ebind (hash_to_point S P) (\<lambda>Hp.
               case mult_noclamp S s Hp of
                 None \<Rightarrow> Inl Ring_sHp_failed
               | Some sHp \<Rightarrow>
                (case mult_noclamp S c key_image of
                   None \<Rightarrow> Inl Ring_cI_failed
                 | Some cI \<Rightarrow>
                  (case ed_add S sHp cI of
                     None \<Rightarrow> Inl Ring_sHp_cI_failed
                   | Some R \<Rightarrow> Inr (ring_hash_challenge S message_hash L R))))))"

fun sign_loop ::
  "sodium \<Rightarrow> bytes \<Rightarrow> bytes list \<Rightarrow> nat \<Rightarrow> bytes \<Rightarrow> (nat \<Rightarrow> bytes) \<Rightarrow> nat list
     \<Rightarrow> bytes list \<times> bytes list \<Rightarrow> error + (bytes list \<times> bytes list)" where
  "sign_loop S message_hash ring real_index key_image rnd [] st = Inr st"
| "sign_loop S message_hash ring real_index key_image rnd (step # steps) (c, responses) =
     (let n = length ring;
          i = (real_index + step) mod n;
          i_next = (i + 1) mod n;
          responses = responses[i := rnd step]
      in ebind (sign_step S message_hash key_image (ring ! i) (responses ! i) (c ! i)) (\<lambda>c'.
           sign_loop S message_hash ring real_index key_image rnd steps (c[i_next := c'], responses)))"

text \<open>Everything up to the closing of the ring: key image, challenges, decoy responses.\<close>

definition sign_open ::
  "sodium \<Rightarrow> bytes \<Rightarrow> bytes list \<Rightarrow> nat \<Rightarrow> bytes \<Rightarrow> bytes \<Rightarrow> (nat \<Rightarrow> bytes)
     \<Rightarrow> error + (bytes \<times> bytes list \<times> bytes list)" where
  "sign_open S message_hash ring real_index real_privkey alpha rnd =
     (let n = length ring in
      if n < 1 then Inl Ring_empty
      else if real_index \<ge> n then Inl Ring_index_out_of_range
      else ebind (compute_key_image S real_privkey (ring ! real_index)) (\<lambda>key_image.
        let L_pi = base_point S alpha in
        ebind (hash_to_point S (ring ! real_index)) (\<lambda>Hp_pi.
          case mult_noclamp S alpha Hp_pi of
            None \<Rightarrow> Inl Ring_R_failed
          | Some R_pi \<Rightarrow>
              let next_index = (real_index + 1) mod n;
                  c = (replicate n zero_key)[next_index := ring_hash_challenge S message_hash L_pi R_pi]
              in ebind (sign_loop S message_hash ring real_index key_image rnd [1..<n]
                          (c, replicate n zero_key)) (\<lambda>(c, responses).
                   Inr (key_image, c, responses)))))"

definition ring_sign ::
  "sodium \<Rightarrow> bytes \<Rightarrow> bytes list \<Rightarrow> nat \<Rightarrow> bytes \<Rightarrow> bytes \<Rightarrow> (nat \<Rightarrow> bytes)
     \<Rightarrow> error + ring_signature" where
  "ring_sign S message_hash ring real_index real_privkey alpha rnd =
     ebind (sign_open S message_hash ring real_index real_privkey alpha rnd)
       (\<lambda>(key_image, c, responses).
         let cx = scalar_mul S (c ! real_index) real_privkey
         in Inr \<lparr>sig_key_image = key_image,
                 sig_c0 = c ! 0,
                 sig_responses = responses[real_index := scalar_sub S alpha cx],
                 sig_ring_pubkeys = ring\<rparr>)"

section \<open>Verifying a ring signature\<close>

text \<open>\<open>Inr None\<close> is \<^verbatim>\<open>return false\<close> inside the loop, \<open>Inr (Some c)\<close> the next challenge.\<close>

definition verify_step ::
  "sodium \<Rightarrow> bytes \<Rightarrow> bytes \<Rightarrow> bytes \<Rightarrow> bytes \<Rightarrow> bytes \<Rightarrow> error + bytes option" where
  "verify_step S message_hash key_image P s c =
     (case mult_base S s of (ok, sG) \<Rightarrow>
       if \<not> ok then Inr None
       else case mult_noclamp S c P of
         None \<Rightarrow> Inr None
       | Some cP \<Rightarrow>
        (case ed_add S sG cP of
           None \<Rightarrow> Inr None
         | Some L \<Rightarrow>
            ebind (hash_to_point S P) (\<lambda>Hp.
             case mult_noclamp S s Hp of
               None \<Rightarrow> Inr None
             | Some sHp \<Rightarrow>
              (case mult_noclamp S c key_image of
                 None \<Rightarrow> Inr None
               | Some cI \<Rightarrow>
                (case ed_add S sHp cI of
                   None \<Rightarrow> Inr None
                 | Some R \<Rightarrow> Inr (Some (ring_hash_challenge S message_hash L R)))))))"

fun verify_loop ::
  "sodium \<Rightarrow> bytes \<Rightarrow> ring_signature \<Rightarrow> nat list \<Rightarrow> bytes \<Rightarrow> error + bytes option" where
  "verify_loop S message_hash sg [] current_c = Inr (Some current_c)"
| "verify_loop S message_hash sg (i # is) current_c =
     ebind (verify_step S message_hash (sig_key_image sg) (sig_ring_pubkeys sg ! i)
              (sig_responses sg ! i) current_c) (\<lambda>r.
       case r of None \<Rightarrow> Inr None | Some c \<Rightarrow> verify_loop S message_hash sg is c)"

text \<open>The doubly nested loop that looks for equal keys.\<close>

definition ring_has_duplicates :: "bytes list \<Rightarrow> bool" where
  "ring_has_duplicates ring =
     list_ex (\<lambda>i. list_ex (\<lambda>j. ring ! i = ring ! j) [i + 1..<length ring]) [0..<length ring]"

definition small_order_image :: "sodium \<Rightarrow> bytes \<Rightarrow> bool" where
  "small_order_image S key_image =
     (case mult_noclamp S eight_scalar key_image of None \<Rightarrow> True | Some I8 \<Rightarrow> I8 = ed25519_identity)"

definition ring_verify :: "sodium \<Rightarrow> bytes \<Rightarrow> ring_signature \<Rightarrow> error + bool" where
  "ring_verify S message_hash sg =
     (let n = length (sig_ring_pubkeys sg) in
      if n < 1 \<or> length (sig_responses sg) \<noteq> n then Inr False
      else if \<not> is_valid_point S (sig_key_image sg) then Inr False
      else if \<not> list_all (is_valid_point S) (sig_ring_pubkeys sg) then Inr False
      else if ring_has_duplicates (sig_ring_pubkeys sg) then Inr False
      else if small_order_image S (sig_key_image sg) then Inr False
      else ebind (verify_loop S message_hash sg [0..<n] (sig_c0 sg)) (\<lambda>r.
             case r of None \<Rightarrow> Inr False | Some current_c \<Rightarrow> Inr (current_c = sig_c0 sg)))"

section \<open>Burn proofs\<close>

definition sign_burn_proof ::
  "sodium \<Rightarrow> bytes \<Rightarrow> bytes \<Rightarrow> bytes \<Rightarrow> bytes \<Rightarrow> error + (bytes \<times> bytes \<times> bytes)" where
  "sign_burn_proof S burn_message_hash one_time_pubkey one_time_privkey alpha =
     ebind (compute_key_image S one_time_privkey one_time_pubkey) (\<lambda>out_key_image.
       case mult_base S alpha of (ok, L) \<Rightarrow>
       if \<not> ok then Inl Burn_L_failed
       else ebind (hash_to_point S one_time_pubkey) (\<lambda>Hp.
         case mult_noclamp S alpha Hp of
           None \<Rightarrow> Inl Burn_R_failed
         | Some R \<Rightarrow>
             let out_c0 = ring_hash_challenge S burn_message_hash L R;
                 cx = scalar_mul S out_c0 one_time_privkey;
                 out_s = scalar_sub S alpha cx
             in Inr (out_key_image, out_c0, out_s)))"

definition verify_burn_proof ::
  "sodium \<Rightarrow> bytes \<Rightarrow> bytes \<Rightarrow> bytes \<Rightarrow> bytes \<Rightarrow> bytes \<Rightarrow> error + bool" where
  "verify_burn_proof S burn_message_hash one_time_pubkey key_image c0 s =
     (if \<not> is_valid_point S one_time_pubkey then Inr False
      else if \<not> is_valid_point S key_image then Inr False
      else if small_order_image S key_image then Inr False
      else ebind (verify_step S burn_message_hash key_image one_time_pubkey s c0) (\<lambda>r.
             case r of None \<Rightarrow> Inr False | Some c_check \<Rightarrow> Inr (c0 = c_check)))"

section \<open>The ledger of spent key images\<close>

type_synonym key_image_ledger = "string set"

definition register_key_image ::
  "sodium \<Rightarrow> key_image_ledger \<Rightarrow> bytes \<Rightarrow> key_image_ledger \<times> bool" where
  "register_key_image S spent_images img =
     (let hex_img = to_hex (canonical_key_image S img)
      in if hex_img \<in> spent_images then (spent_images, False)
         else (insert hex_img spent_images, True))"

definition is_spent :: "sodium \<Rightarrow> key_image_ledger \<Rightarrow> bytes \<Rightarrow> bool" where
  "is_spent S spent_images img \<longleftrightarrow> to_hex (canonical_key_image S img) \<in> spent_images"

definition restore_key_image :: "key_image_ledger \<Rightarrow> bytes \<Rightarrow> key_image_ledger" where
  "restore_key_image spent_images img = insert (to_hex img) spent_images"

definition clear_images :: "key_image_ledger \<Rightarrow> key_image_ledger" where
  "clear_images spent_images = {}"

section \<open>The ring equations\<close>

text \<open>
  The specification a ring signature is verified against: with \<open>c' = H(m, L, R)\<close>,
  \<open>L = s G + c P\<close> and \<open>R = s Hp(P) + c I\<close>, there are challenges for the members of the
  ring that link each to the next, cyclically, starting from \<open>c0\<close>.
\<close>

definition ring_equation ::
  "sodium \<Rightarrow> bytes \<Rightarrow> bytes \<Rightarrow> bytes \<Rightarrow> bytes \<Rightarrow> bytes \<Rightarrow> bytes \<Rightarrow> bool" where
  "ring_equation S m I P s c c' \<longleftrightarrow>
     nonzero_scalar S s
   \<and> (\<exists>cP L Hp sHp cI R. mult_noclamp S c P = Some cP \<and> ed_add S (base_point S s) cP = Some L
        \<and> hash_to_point S P = Inr Hp
        \<and> mult_noclamp S s Hp = Some sHp \<and> mult_noclamp S c I = Some cI \<and> ed_add S sHp cI = Some R
        \<and> c' = ring_hash_challenge S m L R)"

definition mlsag_valid :: "sodium \<Rightarrow> bytes \<Rightarrow> ring_signature \<Rightarrow> bool" where
  "mlsag_valid S m sg \<longleftrightarrow>
     (let n = length (sig_ring_pubkeys sg) in
      n \<ge> 1 \<and> length (sig_responses sg) = n
    \<and> is_valid_point S (sig_key_image sg) \<and> (\<forall>P \<in> set (sig_ring_pubkeys sg). is_valid_point S P)
    \<and> distinct (sig_ring_pubkeys sg)
    \<and> (\<exists>I8. mult_noclamp S eight_scalar (sig_key_image sg) = Some I8 \<and> I8 \<noteq> ed25519_identity)
    \<and> (\<exists>c. length c = n \<and> c ! 0 = sig_c0 sg
          \<and> (\<forall>i < n. ring_equation S m (sig_key_image sg) (sig_ring_pubkeys sg ! i)
                 (sig_responses sg ! i) (c ! i) (c ! ((i + 1) mod n)))))"

lemma verify_step_eq_Some:
  "verify_step S m I P s c = Inr (Some c') \<longleftrightarrow> ring_equation S m I P s c c'"
  by (cases "mult_base S s")
     (simp add: verify_step_def ring_equation_def nonzero_scalar_def base_point_def ebind_eq_Inr
        option_none_eq_Some, blast)

lemma sign_step_verifies:
  assumes "sign_step S m I P s c = Inr c'" and "nonzero_scalar S s"
  shows "ring_equation S m I P s c c'"
  using assms
  by (simp add: sign_step_def ring_equation_def ebind_eq_Inr option_error_eq_Inr Let_def) blast

lemma ring_has_duplicates: "ring_has_duplicates ring \<longleftrightarrow> \<not> distinct ring"
proof
  assume "ring_has_duplicates ring"
  then show "\<not> distinct ring"
    by (fastforce simp: ring_has_duplicates_def list_ex_iff distinct_conv_nth)
next
  assume "\<not> distinct ring"
  then obtain i j where "i < j" and "j < length ring" and "ring ! i = ring ! j"
    by (metis distinct_conv_nth linorder_neqE_nat)
  then show "ring_has_duplicates ring"
    unfolding ring_has_duplicates_def list_ex_iff by (intro bexI [of _ i] bexI [of _ j]) auto
qed

lemma small_order_image:
  "\<not> small_order_image S I \<longleftrightarrow> (\<exists>I8. mult_noclamp S eight_scalar I = Some I8 \<and> I8 \<noteq> ed25519_identity)"
  by (auto simp: small_order_image_def split: option.splits)

text \<open>The loop of the verifier computes the only candidate for the challenges.\<close>

lemma verify_loop_links:
  "verify_loop S m sg is c = Inr (Some d) \<longleftrightarrow>
     (\<exists>cs. length cs = Suc (length is) \<and> cs ! 0 = c \<and> cs ! length is = d
        \<and> (\<forall>k < length is. ring_equation S m (sig_key_image sg) (sig_ring_pubkeys sg ! (is ! k))
             (sig_responses sg ! (is ! k)) (cs ! k) (cs ! Suc k)))"
proof (induction "is" arbitrary: c)
  case Nil
  show ?case
    by (auto intro: exI [of _ "[d]"])
next
  case (Cons i js)
  let ?E = "\<lambda>i. ring_equation S m (sig_key_image sg) (sig_ring_pubkeys sg ! i) (sig_responses sg ! i)"
  have "verify_loop S m sg (i # js) c = Inr (Some d) \<longleftrightarrow>
      (\<exists>c'. ?E i c c' \<and> verify_loop S m sg js c' = Inr (Some d))"
    by (auto simp: ebind_eq_Inr verify_step_eq_Some [symmetric] split: option.splits)
  also have "\<dots> \<longleftrightarrow> (\<exists>cs. length cs = Suc (Suc (length js)) \<and> cs ! 0 = c \<and> cs ! Suc (length js) = d
        \<and> (\<forall>k < Suc (length js). ?E ((i # js) ! k) (cs ! k) (cs ! Suc k)))"
    (is "_ \<longleftrightarrow> (\<exists>cs. ?Q cs)")
  proof
    assume "\<exists>c'. ?E i c c' \<and> verify_loop S m sg js c' = Inr (Some d)"
    then obtain c' cs where "?E i c c'" and "length cs = Suc (length js)" and "cs ! 0 = c'"
      and "cs ! length js = d" and "\<forall>k < length js. ?E (js ! k) (cs ! k) (cs ! Suc k)"
      using Cons.IH by blast
    then have "length (c # cs) = Suc (Suc (length js))" and "(c # cs) ! Suc (length js) = d"
      and "\<forall>k < Suc (length js). ?E ((i # js) ! k) ((c # cs) ! k) ((c # cs) ! Suc k)"
      by (simp_all add: All_less_Suc2)
    then show "\<exists>cs. ?Q cs"
      by (intro exI [of _ "c # cs"]) (simp only: nth_Cons_0 simp_thms)
  next
    assume "\<exists>cs. ?Q cs"
    then obtain cs where q: "?Q cs" ..
    then obtain cs' where cs: "cs = c # cs'"
      by (cases cs) auto
    with q have "?E i c (cs' ! 0)"
      by (simp add: All_less_Suc2)
    moreover have "verify_loop S m sg js (cs' ! 0) = Inr (Some d)"
      unfolding Cons.IH using q cs by (intro exI [of _ cs']) (simp add: All_less_Suc2)
    ultimately show "\<exists>c'. ?E i c c' \<and> verify_loop S m sg js c' = Inr (Some d)"
      by blast
  qed
  finally show ?case
    by simp
qed

lemma cyclic_links:
  fixes Q :: "nat \<Rightarrow> 'a \<Rightarrow> 'a \<Rightarrow> bool"
  assumes "0 < n"
  shows "(\<exists>cs. length cs = Suc n \<and> cs ! 0 = a \<and> cs ! n = a \<and> (\<forall>k < n. Q k (cs ! k) (cs ! Suc k)))
    \<longleftrightarrow> (\<exists>cs. length cs = n \<and> cs ! 0 = a \<and> (\<forall>k < n. Q k (cs ! k) (cs ! ((k + 1) mod n))))"
proof
  assume "\<exists>cs. length cs = Suc n \<and> cs ! 0 = a \<and> cs ! n = a \<and> (\<forall>k < n. Q k (cs ! k) (cs ! Suc k))"
  then obtain cs where cs: "length cs = Suc n" "cs ! 0 = a" "cs ! n = a"
    and q: "\<And>k. k < n \<Longrightarrow> Q k (cs ! k) (cs ! Suc k)"
    by blast
  have "Q k (take n cs ! k) (take n cs ! ((k + 1) mod n))" if "k < n" for k
  proof (cases "Suc k = n")
    case True
    with q [OF that] cs that show ?thesis
      by simp
  next
    case False
    with q [OF that] that show ?thesis
      by simp
  qed
  moreover have "length (take n cs) = n" and "take n cs ! 0 = a"
    using cs assms by simp_all
  ultimately show "\<exists>cs. length cs = n \<and> cs ! 0 = a \<and> (\<forall>k < n. Q k (cs ! k) (cs ! ((k + 1) mod n)))"
    by blast
next
  assume "\<exists>cs. length cs = n \<and> cs ! 0 = a \<and> (\<forall>k < n. Q k (cs ! k) (cs ! ((k + 1) mod n)))"
  then obtain cs where cs: "length cs = n" "cs ! 0 = a"
    and q: "\<And>k. k < n \<Longrightarrow> Q k (cs ! k) (cs ! ((k + 1) mod n))"
    by blast
  have "Q k ((cs @ [a]) ! k) ((cs @ [a]) ! Suc k)" if "k < n" for k
    using q [OF that] cs that by (cases "Suc k = n") (simp_all add: nth_append)
  moreover have "length (cs @ [a]) = Suc n" and "(cs @ [a]) ! 0 = a" and "(cs @ [a]) ! n = a"
    using cs assms by (simp_all add: nth_append)
  ultimately show "\<exists>cs. length cs = Suc n \<and> cs ! 0 = a \<and> cs ! n = a \<and> (\<forall>k < n. Q k (cs ! k) (cs ! Suc k))"
    by blast
qed

lemma loop_result:
  "ebind m (\<lambda>r. case r of None \<Rightarrow> Inr False | Some c \<Rightarrow> Inr (c = a)) = Inr True \<longleftrightarrow> m = Inr (Some a)"
  by (cases m) (auto split: option.splits)

lemma reject_first: "(if b then Inr False else x) = Inr True \<longleftrightarrow> \<not> b \<and> x = Inr True"
  by simp

lemma verify_iff_valid: "ring_verify S m sg = Inr True \<longleftrightarrow> mlsag_valid S m sg"
proof -
  let ?n = "length (sig_ring_pubkeys sg)"
  have "ring_verify S m sg = Inr True \<longleftrightarrow>
      ?n \<ge> 1 \<and> length (sig_responses sg) = ?n \<and> is_valid_point S (sig_key_image sg)
    \<and> list_all (is_valid_point S) (sig_ring_pubkeys sg) \<and> distinct (sig_ring_pubkeys sg)
    \<and> \<not> small_order_image S (sig_key_image sg)
    \<and> verify_loop S m sg [0..<?n] (sig_c0 sg) = Inr (Some (sig_c0 sg))"
    unfolding ring_verify_def Let_def ring_has_duplicates reject_first loop_result
    by (simp only: not_less de_Morgan_disj not_not conj_assoc)
  moreover have "verify_loop S m sg [0..<?n] (sig_c0 sg) = Inr (Some (sig_c0 sg)) \<longleftrightarrow>
      (\<exists>c. length c = ?n \<and> c ! 0 = sig_c0 sg
          \<and> (\<forall>i < ?n. ring_equation S m (sig_key_image sg) (sig_ring_pubkeys sg ! i)
                 (sig_responses sg ! i) (c ! i) (c ! ((i + 1) mod ?n))))" if "?n \<ge> 1"
  proof -
    have "verify_loop S m sg [0..<?n] (sig_c0 sg) = Inr (Some (sig_c0 sg)) \<longleftrightarrow>
        (\<exists>c. length c = Suc ?n \<and> c ! 0 = sig_c0 sg \<and> c ! ?n = sig_c0 sg
          \<and> (\<forall>i < ?n. ring_equation S m (sig_key_image sg) (sig_ring_pubkeys sg ! i)
                 (sig_responses sg ! i) (c ! i) (c ! Suc i)))"
      by (simp only: verify_loop_links length_upt diff_zero add_0 nth_upt cong: conj_cong)
         (simp cong: conj_cong)
    also have "\<dots> \<longleftrightarrow> (\<exists>c. length c = ?n \<and> c ! 0 = sig_c0 sg
          \<and> (\<forall>i < ?n. ring_equation S m (sig_key_image sg) (sig_ring_pubkeys sg ! i)
                 (sig_responses sg ! i) (c ! i) (c ! ((i + 1) mod ?n))))"
      by (rule cyclic_links) (use that in linarith)
    finally show ?thesis .
  qed
  ultimately show ?thesis
    by (auto simp: mlsag_valid_def Let_def list_all_iff small_order_image)
qed

section \<open>Completeness\<close>

text \<open>
  The points of \<open>hash_to_point\<close> are in the group: it multiplies by the cofactor, and the
  library refuses the identity.
\<close>

definition hashes_into_group :: "sodium \<Rightarrow> (bytes \<Rightarrow> bool) \<Rightarrow> bool" where
  "hashes_into_group S grp \<longleftrightarrow> (\<forall>P H. hash_to_point S P = Inr H \<longrightarrow> grp H)"

text \<open>The algebra of a response: \<open>s = alpha - c x\<close> gives \<open>s H + c (x H) = alpha H\<close>.\<close>

lemma response_closes:
  assumes "scalar_field S sc" and "prime_group S sc grp G"
    and "sc alpha" and "sc c" and "sc x" and "grp H"
    and "mult_noclamp S x H = Some I" and "mult_noclamp S alpha H = Some R"
    and "nonzero_scalar S c" and "nonzero_scalar S (scalar_sub S alpha (scalar_mul S c x))"
  shows "\<exists>sH cI. mult_noclamp S (scalar_sub S alpha (scalar_mul S c x)) H = Some sH
     \<and> mult_noclamp S c I = Some cI \<and> ed_add S sH cI = Some R"
proof -
  let ?cx = "scalar_mul S c x" and ?s = "scalar_sub S alpha (scalar_mul S c x)"
  note G = prime_groupD [OF assms(2)]
  note F = scalar_fieldD [OF assms(1)]
  have sc: "sc ?cx" "sc ?s" "scalar_add S ?s ?cx = alpha"
    and nz: "nonzero_scalar S ?cx \<longleftrightarrow> nonzero_scalar S c \<and> nonzero_scalar S x"
    using assms(3,4,5) by (simp_all add: F(4-7))
  have none: "\<And>a. sc a \<Longrightarrow> mult_noclamp S a H = None \<longleftrightarrow> \<not> nonzero_scalar S a"
    by (rule G(5) [OF _ assms(6)])
  have cI: "mult_noclamp S c I = mult_noclamp S ?cx H"
    by (rule G(7) [OF assms(4,5,6,7)])
  have "nonzero_scalar S x"
    using none [OF assms(5)] assms(7) by simp
  with nz assms(9) none [OF sc(1)] obtain cI' where c: "mult_noclamp S ?cx H = Some cI'"
    by auto
  from none [OF sc(2)] assms(10) obtain sH where s: "mult_noclamp S ?s H = Some sH"
    by auto
  have "mult_noclamp S (scalar_add S ?s ?cx) H = Some R"
    using sc(3) assms(8) by simp
  then have "ed_add S sH cI' = Some R"
    by (rule G(8) [OF sc(2,1) assms(6) s c])
  with s c cI show ?thesis
    by simp
qed

text \<open>The signer's own member of the ring satisfies its equation.\<close>

lemma own_equation:
  assumes "scalar_field S sc" and "prime_group S sc grp G" and "hashes_into_group S grp"
    and "sc alpha" and "sc c" and "sc x"
    and "hash_to_point S (base_point S x) = Inr H"
    and "mult_noclamp S x H = Some I" and "mult_noclamp S alpha H = Some R"
    and "nonzero_scalar S c" and "nonzero_scalar S (scalar_sub S alpha (scalar_mul S c x))"
  shows "ring_equation S m I (base_point S x) (scalar_sub S alpha (scalar_mul S c x)) c
    (ring_hash_challenge S m (base_point S alpha) R)"
proof -
  let ?s = "scalar_sub S alpha (scalar_mul S c x)"
  note G = prime_groupD(1) [OF assms(2)] and base = prime_groupD(4) [OF assms(2)]
  have H: "grp H"
    using assms(3,7) by (simp add: hashes_into_group_def)
  have none: "\<And>a. sc a \<Longrightarrow> mult_noclamp S a H = None \<longleftrightarrow> \<not> nonzero_scalar S a"
    by (rule prime_groupD(5) [OF assms(2) _ H])
  have "sc ?s"
    using assms(4,5,6) by (simp add: scalar_fieldD(4,5) [OF assms(1)])
  then have s: "mult_noclamp S ?s G = Some (base_point S ?s)"
    using base assms(11) by blast
  have x: "mult_noclamp S x G = Some (base_point S x)"
    using base [OF assms(6)] none [OF assms(6)] assms(8) by simp
  have a: "mult_noclamp S alpha G = Some (base_point S alpha)"
    using base [OF assms(4)] none [OF assms(4)] assms(9) by simp
  show ?thesis
    using response_closes [OF assms(1,2,4,5,6) H assms(8,9,10,11)]
      response_closes [OF assms(1,2,4,5,6) G x a assms(10,11)] s assms(7,11)
    by (auto simp: ring_equation_def)
qed

lemma shifted_index_neq:
  assumes "a < b" and "b < a + n"
  shows "(p + a) mod n \<noteq> (p + b) mod (n :: nat)"
proof
  assume "(p + a) mod n = (p + b) mod n"
  then have "n dvd (p + b) - (p + a)"
    using assms(1) mod_eq_dvd_iff_nat [of "p + a" "p + b" n] by simp
  then have "n dvd b - a"
    by simp
  then show False
    using assms by (simp add: nat_dvd_not_less)
qed

text \<open>
  After the steps before \<open>k\<close>: every decoy passed satisfies its equation, and the
  challenges from the one after the signer's up to the next one are hashes.
\<close>

definition ring_opened ::
  "sodium \<Rightarrow> bytes \<Rightarrow> bytes list \<Rightarrow> nat \<Rightarrow> bytes \<Rightarrow> (bytes \<Rightarrow> bool) \<Rightarrow> bytes \<Rightarrow> nat
     \<Rightarrow> bytes list \<Rightarrow> bytes list \<Rightarrow> bool" where
  "ring_opened S m ring pi I sc first k c rs \<longleftrightarrow>
     (let n = length ring in
      length c = n \<and> length rs = n \<and> c ! ((pi + 1) mod n) = first
    \<and> sc (c ! ((pi + k) mod n))
    \<and> (\<forall>j. 1 \<le> j \<longrightarrow> j < k \<longrightarrow>
         ring_equation S m I (ring ! ((pi + j) mod n)) (rs ! ((pi + j) mod n))
           (c ! ((pi + j) mod n)) (c ! ((pi + Suc j) mod n))))"

lemma ring_opened_step:
  assumes "ring_opened S m ring pi I sc first k c rs"
    and "1 \<le> k" and "k < length ring"
    and "i = (pi + k) mod length ring" and "i' = (pi + Suc k) mod length ring"
    and "ring_equation S m I (ring ! i) r (c ! i) d" and "sc d"
  shows "ring_opened S m ring pi I sc first (Suc k) (c[i' := d]) (rs[i := r])"
proof -
  let ?n = "length ring"
  have n: "0 < ?n"
    using assms(3) by linarith
  have len: "length c = ?n" "length rs = ?n" "i < ?n" "i' < ?n"
    using assms(1) mod_less_divisor [OF n] by (simp_all add: ring_opened_def Let_def assms(4,5))
  have diff: "i' \<noteq> (pi + j) mod ?n" if "1 \<le> j" "j \<le> k" for j
    using shifted_index_neq [of j "Suc k" ?n pi] that assms(3,5) by auto
  have diff': "i \<noteq> (pi + j) mod ?n" if "1 \<le> j" "j < k" for j
    using shifted_index_neq [of j k ?n pi] that assms(3,4) by auto
  have "ring_equation S m I (ring ! ((pi + j) mod ?n)) (rs[i := r] ! ((pi + j) mod ?n))
      (c[i' := d] ! ((pi + j) mod ?n)) (c[i' := d] ! ((pi + Suc j) mod ?n))"
    if j: "1 \<le> j" "j < Suc k" for j
  proof (cases "j = k")
    case True
    then show ?thesis
      using assms(4,5,6) len diff [of k] assms(2) by simp
  next
    case False
    then have "j < k"
      using j by simp
    then show ?thesis
      using assms(1) j diff [of j] diff [of "Suc j"] diff' [of j] by (simp add: ring_opened_def Let_def)
  qed
  moreover have "c[i' := d] ! ((pi + 1) mod ?n) = first"
    using assms(1,2) diff [of 1] by (simp add: ring_opened_def Let_def)
  ultimately show ?thesis
    using len assms(5,7) by (simp add: ring_opened_def Let_def)
qed

lemma sign_loop_opens:
  assumes "\<And>i. nonzero_scalar S (rnd i)" and "reduces_to S sc"
    and "ring_opened S m ring pi I sc first k c rs" and "1 \<le> k" and "k \<le> length ring"
    and "sign_loop S m ring pi I rnd [k..<length ring] (c, rs) = Inr (c', rs')"
  shows "ring_opened S m ring pi I sc first (length ring) c' rs'"
  using assms(3-6)
proof (induction "length ring - k" arbitrary: k c rs)
  case 0
  then show ?case
    by simp
next
  case (Suc d)
  let ?n = "length ring" let ?i = "(pi + k) mod length ring"
  have k: "k < ?n"
    using Suc.hyps(2) by simp
  have "0 < ?n"
    using k by linarith
  then have i: "?i < length rs"
    using Suc.prems(1) by (simp add: ring_opened_def Let_def del: length_greater_0_conv)
  from Suc.prems(4) obtain d' where st: "sign_step S m I (ring ! ?i) (rnd k) (c ! ?i) = Inr d'"
    and rest: "sign_loop S m ring pi I rnd [Suc k..<?n] (c[(pi + Suc k) mod ?n := d'], rs[?i := rnd k])
       = Inr (c', rs')"
    using k i by (auto simp: upt_conv_Cons Let_def ebind_eq_Inr mod_Suc_eq)
  have d': "sc d'"
    using st assms(2)
    by (auto simp: sign_step_def ebind_eq_Inr option_error_eq_Inr Let_def ring_hash_challenge_def
        reduces_to_def)
  show ?case
    using Suc.hyps(1) [OF _ ring_opened_step [OF Suc.prems(1,2) k refl refl
        sign_step_verifies [OF st assms(1)] d'] _ _ rest] Suc.hyps(2) k by simp
qed

lemma sign_open_valid:
  assumes "reduces_to S sc" and "\<And>i. nonzero_scalar S (rnd i)"
    and "sign_open S m ring pi x alpha rnd = Inr (I, c, rs)"
  obtains Hp R where "pi < length ring" and "hash_to_point S (ring ! pi) = Inr Hp"
    and "mult_noclamp S x Hp = Some I" and "mult_noclamp S alpha Hp = Some R"
    and "ring_opened S m ring pi I sc (ring_hash_challenge S m (base_point S alpha) R)
           (length ring) c rs"
proof -
  let ?n = "length ring"
  from assms(3) have n: "1 \<le> ?n" "pi < ?n"
    by (auto simp: sign_open_def Let_def split: if_splits)
  then have g: "\<not> ?n < 1" "\<not> ?n \<le> pi"
    by linarith+
  from assms(3) obtain Hp R where hp: "hash_to_point S (ring ! pi) = Inr Hp"
    and I: "mult_noclamp S x Hp = Some I" and R: "mult_noclamp S alpha Hp = Some R"
    and lp: "sign_loop S m ring pi I rnd [1..<?n]
        ((replicate ?n zero_key)[(pi + 1) mod ?n := ring_hash_challenge S m (base_point S alpha) R],
         replicate ?n zero_key) = Inr (c, rs)"
    unfolding sign_open_def Let_def if_not_P [OF g(1)] if_not_P [OF g(2)] ebind_eq_Inr
      option_error_eq_Inr compute_key_image_def
    by auto
  have "0 < ?n"
    using n by linarith
  then have "(pi + 1) mod ?n < ?n"
    by (rule mod_less_divisor)
  then have "ring_opened S m ring pi I sc (ring_hash_challenge S m (base_point S alpha) R) 1
      ((replicate ?n zero_key)[(pi + 1) mod ?n := ring_hash_challenge S m (base_point S alpha) R])
      (replicate ?n zero_key)"
    using assms(1) by (auto simp: ring_opened_def Let_def ring_hash_challenge_def reduces_to_def)
  from sign_loop_opens [OF assms(2,1) this _ n(1) lp] that [OF n(2) hp I R] show ?thesis
    by simp
qed

lemma sign_verifies_lemma:
  assumes "scalar_field S sc" and "prime_group S sc grp G" and "hashes_into_group S grp"
    and "sc x" and "sc alpha" and "\<And>i. nonzero_scalar S (rnd i)"
    and "list_all (is_valid_point S) ring" and "distinct ring" and "ring ! pi = base_point S x"
    and "sign_open S m ring pi x alpha rnd = Inr (I, c, rs)"
    and "nonzero_scalar S (c ! pi)"
    and "nonzero_scalar S (scalar_sub S alpha (scalar_mul S (c ! pi) x))"
  shows "\<exists>sg. ring_sign S m ring pi x alpha rnd = Inr sg \<and> sig_ring_pubkeys sg = ring
     \<and> compute_key_image S x (ring ! pi) = Inr (sig_key_image sg) \<and> mlsag_valid S m sg"
proof -
  let ?n = "length ring" and ?s = "scalar_sub S alpha (scalar_mul S (c ! pi) x)"
  let ?sg = "\<lparr>sig_key_image = I, sig_c0 = c ! 0, sig_responses = rs[pi := ?s], sig_ring_pubkeys = ring\<rparr>"
  have red: "reduces_to S sc"
    using assms(1) by (simp add: scalar_field_def)
  obtain Hp R where n: "pi < ?n" and hp: "hash_to_point S (ring ! pi) = Inr Hp"
    and I: "mult_noclamp S x Hp = Some I" and R: "mult_noclamp S alpha Hp = Some R"
    and op: "ring_opened S m ring pi I sc (ring_hash_challenge S m (base_point S alpha) R) ?n c rs"
    using sign_open_valid [OF red assms(6,10)] .
  have grp: "grp Hp"
    using assms(3) hp by (simp add: hashes_into_group_def)
  obtain I8 where valid: "is_valid_point S I" "mult_noclamp S eight_scalar I = Some I8"
      "I8 \<noteq> ed25519_identity"
    using group_image_valid [OF assms(1,2,4) grp I] .
  have len: "length c = ?n" "length rs = ?n" and first: "c ! ((pi + 1) mod ?n)
      = ring_hash_challenge S m (base_point S alpha) R"
    using op by (simp_all add: ring_opened_def Let_def)
  have cpi: "sc (c ! pi)"
    using op n by (simp add: ring_opened_def Let_def)
  have eqs: "ring_equation S m I (ring ! i) (rs[pi := ?s] ! i) (c ! i) (c ! ((i + 1) mod ?n))"
    if "i < ?n" for i
  proof (cases "i = pi")
    case True
    show ?thesis
      using own_equation [OF assms(1-3,5) cpi assms(4) _ I R assms(11,12)] hp first n len
      by (simp add: True assms(9))
  next
    case False
    define j where "j = (if i < pi then i + ?n - pi else i - pi)"
    have j: "1 \<le> j" "j < ?n" and pj: "pi + j = (if i < pi then i + ?n else i)"
      using False that n by (auto simp: j_def)
    have i: "(pi + j) mod ?n = i" "(pi + Suc j) mod ?n = (i + 1) mod ?n"
      unfolding add_Suc_right pj using that by (simp_all flip: add_Suc)
    have "ring_equation S m I (ring ! ((pi + j) mod ?n)) (rs ! ((pi + j) mod ?n))
        (c ! ((pi + j) mod ?n)) (c ! ((pi + Suc j) mod ?n))"
      using op j unfolding ring_opened_def Let_def by blast
    then show ?thesis
      using False unfolding i by simp
  qed
  have "ring_sign S m ring pi x alpha rnd = Inr ?sg"
    using assms(10) by (simp add: ring_sign_def Let_def)
  moreover have "mlsag_valid S m ?sg"
    using n len valid eqs assms(7,8)
    by (auto simp: mlsag_valid_def Let_def list_all_iff intro!: exI [of _ c])
  moreover have "compute_key_image S x (ring ! pi) = Inr I"
    using hp I by (simp add: compute_key_image_def)
  ultimately show ?thesis
    by auto
qed

lemma burn_verify_iff:
  "verify_burn_proof S m P I c0 s = Inr True \<longleftrightarrow>
     is_valid_point S P \<and> is_valid_point S I \<and> \<not> small_order_image S I
   \<and> ring_equation S m I P s c0 c0"
proof -
  have "ebind d (\<lambda>r. case r of None \<Rightarrow> Inr False | Some c \<Rightarrow> Inr (c0 = c)) = Inr True
      \<longleftrightarrow> d = Inr (Some c0)" for d :: "error + bytes option"
    by (cases d) (auto split: option.splits)
  then show ?thesis
    unfolding verify_burn_proof_def reject_first
    by (simp only: verify_step_eq_Some not_not)
qed

lemma mlsag_single:
  "mlsag_valid S m \<lparr>sig_key_image = I, sig_c0 = c0, sig_responses = [s], sig_ring_pubkeys = [P]\<rparr> \<longleftrightarrow>
     is_valid_point S P \<and> is_valid_point S I \<and> \<not> small_order_image S I
   \<and> ring_equation S m I P s c0 c0"
  by (auto simp: mlsag_valid_def small_order_image length_Suc_conv intro!: exI [of _ "[c0]"])

lemma burn_sign_valid:
  assumes "scalar_field S sc" and "prime_group S sc grp G" and "hashes_into_group S grp"
    and "sc x" and "sc alpha" and "is_valid_point S (base_point S x)"
    and "sign_burn_proof S m (base_point S x) x alpha = Inr (I, c0, s)"
    and "nonzero_scalar S c0" and "nonzero_scalar S s"
  shows "verify_burn_proof S m (base_point S x) I c0 s = Inr True"
proof -
  from assms(7) obtain Hp R where hp: "hash_to_point S (base_point S x) = Inr Hp"
    and I: "mult_noclamp S x Hp = Some I" and R: "mult_noclamp S alpha Hp = Some R"
    and c0: "c0 = ring_hash_challenge S m (base_point S alpha) R"
    and s: "s = scalar_sub S alpha (scalar_mul S c0 x)"
    by (cases "mult_base S alpha")
       (auto simp: sign_burn_proof_def compute_key_image_def ebind_eq_Inr option_error_eq_Inr
         Let_def base_point_def split: if_splits)
  have grp: "grp Hp"
    using assms(3) hp by (simp add: hashes_into_group_def)
  have "sc c0"
    using scalar_fieldD(1) [OF assms(1)] by (simp add: c0 ring_hash_challenge_def reduces_to_def)
  from own_equation [OF assms(1-3,5) this assms(4) hp I R assms(8)] assms(9)
  have "ring_equation S m I (base_point S x) s c0 c0"
    by (simp add: s c0)
  moreover obtain I8 where "is_valid_point S I" "mult_noclamp S eight_scalar I = Some I8"
      "I8 \<noteq> ed25519_identity"
    using group_image_valid [OF assms(1,2,4) grp I] .
  ultimately show ?thesis
    using assms(6) by (simp add: burn_verify_iff small_order_image)
qed

section \<open>What the signed hashes commit to\<close>

definition output_ok :: "one_time_output \<Rightarrow> bool" where
  "output_ok out \<longleftrightarrow> length (destination_one_time out) = 32 \<and> length (ephemeral_public_key out) = 32"

definition tx_hash_fields_ok :: "one_time_output list \<Rightarrow> bytes list \<Rightarrow> bool" where
  "tx_hash_fields_ok outputs ring \<longleftrightarrow>
     list_all output_ok outputs \<and> length outputs < 2 ^ 32
   \<and> list_all (\<lambda>P. length P = 32) ring \<and> length ring < 2 ^ 32"

lemma le_bytes_inject: "le_bytes 8 (a :: u64) = le_bytes 8 b \<longleftrightarrow> a = b"
  using u64_codec.encode_inject by auto

lemma le_bytes32_inject: "le_bytes 4 (a :: u32) = le_bytes 4 b \<longleftrightarrow> a = b"
  using u32_codec.encode_inject by auto

lemma count_inject:
  "m < 2 ^ 32 \<Longrightarrow> n < 2 ^ 32 \<Longrightarrow> (of_nat m :: u32) = of_nat n \<longleftrightarrow> m = n"
  by (simp add: word_unat_eq_iff unat_of_nat)

lemma length_output_hash_input: "output_ok out \<Longrightarrow> length (output_hash_input out) = 72"
  by (simp add: output_ok_def output_hash_input_def)

lemma output_hash_input_inject:
  assumes "output_ok x" and "output_ok y"
  shows "output_hash_input x = output_hash_input y \<longleftrightarrow> x = y"
  using assms by (cases x; cases y) (auto simp: output_ok_def output_hash_input_def le_bytes_inject)

lemma outputs_inject:
  assumes "list_all output_ok xs" and "list_all output_ok ys" and "length xs = length ys"
  shows "concat (map output_hash_input xs) @ s = concat (map output_hash_input ys) @ t
    \<longleftrightarrow> xs = ys \<and> s = t"
proof -
  have "concat (map output_hash_input xs) @ s = concat (map output_hash_input ys) @ t
      \<longleftrightarrow> map output_hash_input xs = map output_hash_input ys \<and> s = t"
    using assms by (intro concat_blocks_inject [where k = 72])
      (auto simp: list_all_iff length_output_hash_input)
  moreover have "map output_hash_input xs = map output_hash_input ys \<longleftrightarrow> xs = ys"
    using assms(3,1,2) by (induction xs ys rule: list_induct2) (auto simp: output_hash_input_inject)
  ultimately show ?thesis
    by simp
qed

lemma canonical_tx_input_inject:
  assumes "tx_hash_fields_ok outs ring" and "tx_hash_fields_ok outs' ring'"
  shows "canonical_tx_input outs fee ring img = canonical_tx_input outs' fee' ring' img'
    \<longleftrightarrow> outs = outs' \<and> fee = fee' \<and> ring = ring' \<and> img = img'"
proof
  assume eq: "canonical_tx_input outs fee ring img = canonical_tx_input outs' fee' ring' img'"
  then have "(of_nat (length outs) :: u32) = of_nat (length outs')"
    by (simp add: canonical_tx_input_def append_eq_same_length le_bytes32_inject)
  then have lo: "length outs = length outs'"
    using assms by (simp add: tx_hash_fields_ok_def count_inject)
  from eq have o: "outs = outs'" and f: "fee = fee'"
    and l: "(of_nat (length ring) :: u32) = of_nat (length ring')"
    and c: "concat ring @ img = concat ring' @ img'"
    using assms lo
    by (auto simp: canonical_tx_input_def outputs_inject tx_hash_fields_ok_def append_eq_same_length
        le_bytes_inject le_bytes32_inject)
  have "length ring = length ring'"
    using l assms by (simp add: tx_hash_fields_ok_def count_inject)
  with c assms have "ring = ring' \<and> img = img'"
    by (subst (asm) concat_blocks_inject [where k = 32])
       (auto simp: tx_hash_fields_ok_def list_all_iff)
  with o f show "outs = outs' \<and> fee = fee' \<and> ring = ring' \<and> img = img'"
    by simp
qed simp

lemma burn_message_input_inject:
  assumes "length dest = length dest'" and "length change = length change'"
  shows "burn_message_input order gross dest change = burn_message_input order' gross' dest' change'
    \<longleftrightarrow> order = order' \<and> gross = gross' \<and> dest = dest' \<and> change = change'"
proof
  assume eq: "burn_message_input order gross dest change = burn_message_input order' gross' dest' change'"
  then have "length order = length order'"
    using assms by (auto simp: burn_message_input_def dest!: arg_cong [of _ _ length])
  with eq assms show "order = order' \<and> gross = gross' \<and> dest = dest' \<and> change = change'"
    by (simp add: burn_message_input_def append_eq_same_length le_bytes_inject)
qed simp

section \<open>The ledger accepts an image once\<close>

interpretation ledger: once_register "register_key_image S" "is_spent S"
    "\<lambda>i j. canonical_key_image S i = canonical_key_image S j" for S
proof
  fix led :: key_image_ledger and i j
  show "snd (register_key_image S led i) \<longleftrightarrow> \<not> is_spent S led i"
    by (simp add: register_key_image_def is_spent_def Let_def)
  show "is_spent S (fst (register_key_image S led i)) j \<longleftrightarrow>
      is_spent S led j \<or> canonical_key_image S i = canonical_key_image S j"
    by (auto simp: register_key_image_def is_spent_def Let_def)
qed

lemma toy_hashes_into_group: "hashes_into_group toy_sodium toy_point"
  by (auto simp: hashes_into_group_def hash_to_point_def toy_mult_Some Let_def option_error_eq_Inr)

section \<open>Properties\<close>

text \<open>
  C32: the verifier decides the ring equations: it returns true exactly when the ring is
  non-empty with distinct valid keys, the key image is a valid point of large order, and
  there are challenges, one for each member, that link the ring cyclically from \<open>c0\<close>.
\<close>

theorem ring_verify_iff_mlsag: "ring_verify S m sg = Inr True \<longleftrightarrow> mlsag_valid S m sg"
  by (rule verify_iff_valid)

text \<open>
  C33: what the signer of a ring produces, the verifier accepts, whatever the position of
  the key in the ring, the decoys and the message; the key image is the one of the signing
  key. Under the group laws, for a ring of distinct valid keys holding the signer's, when
  signing succeeds up to the closing step and neither its challenge nor its response is the
  zero scalar.
\<close>

theorem ring_sign_verifies:
  assumes "scalar_field S sc" and "prime_group S sc grp G" and "hashes_into_group S grp"
    and "sc x" and "sc alpha" and "\<And>i. nonzero_scalar S (rnd i)"
    and "list_all (is_valid_point S) ring" and "distinct ring" and "ring ! pi = base_point S x"
    and "sign_open S m ring pi x alpha rnd = Inr (I, c, rs)"
    and "nonzero_scalar S (c ! pi)"
    and "nonzero_scalar S (scalar_sub S alpha (scalar_mul S (c ! pi) x))"
  shows "\<exists>sg. ring_sign S m ring pi x alpha rnd = Inr sg \<and> sig_ring_pubkeys sg = ring
     \<and> compute_key_image S x (ring ! pi) = Inr (sig_key_image sg) \<and> ring_verify S m sg = Inr True"
  using sign_verifies_lemma [OF assms] by (simp add: verify_iff_valid)

theorem ring_sign_verifies_witness:
  "\<exists>sg. ring_sign toy_sodium [] [point 5, point 3] 1 (scalar 3) (scalar 7) (\<lambda>_. scalar 4) = Inr sg
     \<and> ring_verify toy_sodium [] sg = Inr True"
proof -
  have op: "sign_open toy_sodium [] [point 5, point 3] 1 (scalar 3) (scalar 7) (\<lambda>_. scalar 4)
      = Inr (point 1, [scalar 8, scalar 12], [scalar 4, zero_key])"
    by code_simp
  show ?thesis
    using ring_sign_verifies [OF toy_scalar_field toy_prime_group toy_hashes_into_group _ _ _ _ _ _ op]
    by auto
qed

text \<open>
  The proof a burner makes for the one-time key it owns is accepted by the verifier
  for the same message, under the group laws, when the challenge and the response are not
  the zero scalar.
\<close>

theorem burn_proof_verifies:
  assumes "scalar_field S sc" and "prime_group S sc grp G" and "hashes_into_group S grp"
    and "sc x" and "sc alpha" and "is_valid_point S (base_point S x)"
    and "sign_burn_proof S m (base_point S x) x alpha = Inr (I, c0, s)"
    and "nonzero_scalar S c0" and "nonzero_scalar S s"
  shows "compute_key_image S x (base_point S x) = Inr I
    \<and> verify_burn_proof S m (base_point S x) I c0 s = Inr True"
  using burn_sign_valid [OF assms] assms(7)
  by (cases "mult_base S alpha")
     (auto simp: sign_burn_proof_def ebind_eq_Inr option_error_eq_Inr Let_def split: if_splits)

theorem burn_proof_verifies_witness:
  "verify_burn_proof toy_sodium [] (point 3) (point 1) (scalar 8) (scalar 9) = Inr True"
proof -
  have sg: "sign_burn_proof toy_sodium [] (base_point toy_sodium (scalar 3)) (scalar 3) (scalar 7)
      = Inr (point 1, scalar 8, scalar 9)"
    by code_simp
  show ?thesis
    using burn_proof_verifies
      [OF toy_scalar_field toy_prime_group toy_hashes_into_group _ _ _ sg] by simp
qed

text \<open>
  A burn proof is a ring signature over the ring of one key: the two verifiers accept
  the same values.
\<close>

theorem burn_proof_is_ring_of_one:
  "verify_burn_proof S m P I c0 s = Inr True \<longleftrightarrow>
   ring_verify S m \<lparr>sig_key_image = I, sig_c0 = c0, sig_responses = [s], sig_ring_pubkeys = [P]\<rparr>
     = Inr True"
  by (simp only: verify_iff_valid mlsag_single burn_verify_iff)

text \<open>
  The bytes hashed for a transaction determine all that the signature must bind: two
  transactions with 32-byte keys and counts that fit the 32-bit counters hash the same
  bytes only if they have the same outputs in the same order, fee, ring and key image.
\<close>

theorem canonical_tx_hash_binds:
  assumes "tx_hash_fields_ok outs ring" and "tx_hash_fields_ok outs' ring'"
  shows "canonical_tx_input outs fee ring img = canonical_tx_input outs' fee' ring' img'
    \<longleftrightarrow> outs = outs' \<and> fee = fee' \<and> ring = ring' \<and> img = img'"
  using assms by (rule canonical_tx_input_inject)

theorem canonical_tx_hash_binds_witness:
  "canonical_tx_input [\<lparr>ephemeral_public_key = point 1, destination_one_time = point 2, out_amount = 7\<rparr>]
     1 [point 3] (point 4)
   \<noteq> canonical_tx_input [\<lparr>ephemeral_public_key = point 1, destination_one_time = point 2, out_amount = 8\<rparr>]
     1 [point 3] (point 4)"
  by (subst canonical_tx_hash_binds) (simp_all add: tx_hash_fields_ok_def output_ok_def)

text \<open>
  Among destinations of one length (every valid address has 42 characters) the bytes
  hashed for a burn determine the order, the amount, the destination and the change key.
\<close>

theorem burn_message_binds:
  assumes "length dest = length dest'" and "length change = length change'"
  shows "burn_message_input order gross dest change = burn_message_input order' gross' dest' change'
    \<longleftrightarrow> order = order' \<and> gross = gross' \<and> dest = dest' \<and> change = change'"
  using assms by (rule burn_message_input_inject)

theorem burn_message_binds_witness:
  "burn_message_input ''ORD-1'' 5 ''0xab'' zero_key \<noteq> burn_message_input ''ORD-1'' 6 ''0xab'' zero_key"
  by (subst burn_message_binds) simp_all

text \<open>
  Whatever sequence of key images a client offers to the ledger, no two of those it
  accepts have the same canonical form, so an image is spent once and an alias that
  differs by a point of small order is refused.
\<close>

theorem ledger_no_double_spend:
  "sorted_wrt (\<lambda>i j. canonical_key_image S i \<noteq> canonical_key_image S j)
     (accepted (register_key_image S) spent_images images)"
  by (rule ledger.accepted_once)

end
