(* ===== verification/Blocks.thy ===== *)
theory Blocks
  imports RingSig Vault
begin

text \<open>
  Model of the data and the serialization of \<^verbatim>\<open>include/block.hpp\<close> and \<^verbatim>\<open>src/block.cpp\<close>:
  transactions, headers, blocks and their binary form. For each type there is the writer
  and the reader of the source, a \<open>layout\<close> (the bytes the writer appends), a \<open>wire\<close>
  predicate (what every value returned by the reader satisfies, on any input) and an
  interpretation of the locale \<open>codec\<close>. The locale \<open>decoder\<close> is the contract of the readers
  on hostile input.
\<close>

section \<open>Data\<close>

record shielded_transaction =
  tx_hash :: bytes
  ring_sig :: ring_signature
  tx_outputs :: "one_time_output list"
  public_fee :: amount
  tx_timestamp :: string

record block_header =
  hdr_version :: u32
  hdr_height :: u64
  prev_block_hash :: bytes
  merkle_root :: bytes
  hdr_timestamp :: u64
  hdr_nonce :: u64
  validator_pubkey :: bytes
  validator_signature :: bytes
  quorum_pubkeys :: "bytes list"
  quorum_signatures :: "bytes list"

record block =
  header :: block_header
  txs :: "shielded_transaction list"
  deposits :: "deposit_receipt list"
  withdrawals :: "withdrawal_receipt list"
  deposit_outputs :: "one_time_output list"
  withdrawal_outputs :: "one_time_output list"

definition MAX_BLOCK_TRANSACTIONS :: nat where "MAX_BLOCK_TRANSACTIONS = 10000"
definition MAX_BLOCK_DEPOSITS :: nat where "MAX_BLOCK_DEPOSITS = 10000"
definition MAX_BLOCK_WITHDRAWALS :: nat where "MAX_BLOCK_WITHDRAWALS = 10000"
definition MAX_BLOCK_OUTPUTS :: nat where "MAX_BLOCK_OUTPUTS = 20000"
definition MAX_TX_OUTPUTS :: nat where "MAX_TX_OUTPUTS = 256"

section \<open>Writers and readers\<close>

text \<open>The loop \<^verbatim>\<open>for (const auto& x : xs) serialize(w, x)\<close> of a writer that may throw.\<close>

fun write_each :: "(writer \<Rightarrow> 'a \<Rightarrow> error + writer) \<Rightarrow> writer \<Rightarrow> 'a list \<Rightarrow> error + writer" where
  "write_each put w [] = Inr w"
| "write_each put w (x # xs) = ebind (put w x) (\<lambda>w. write_each put w xs)"

definition write_count :: "writer \<Rightarrow> 'a list \<Rightarrow> writer" where
  "write_count w xs = write_u32 w (of_nat (length xs))"

subsection \<open>Outputs\<close>

definition serialize_output :: "writer \<Rightarrow> one_time_output \<Rightarrow> writer" where
  "serialize_output w out =
     write_u64 (write_array (write_array w (ephemeral_public_key out)) (destination_one_time out))
       (out_amount out)"

definition deserialize_output :: "sodium \<Rightarrow> one_time_output read" where
  "deserialize_output S =
     rbind (read_array 32) (\<lambda>eph.
     rbind (read_array 32) (\<lambda>dest.
     rbind read_u64 (\<lambda>amt.
     if \<not> is_valid_point S eph then rfail Output_bad_ephemeral
     else if \<not> is_valid_point S dest then rfail Output_bad_destination
     else rpure \<lparr>ephemeral_public_key = eph, destination_one_time = dest, out_amount = amt\<rparr>)))"

subsection \<open>Ring signatures\<close>

definition serialize_ring_sig :: "writer \<Rightarrow> ring_signature \<Rightarrow> writer" where
  "serialize_ring_sig w sg =
     (let w = write_array w (sig_key_image sg);
          w = write_array w (sig_c0 sg);
          w = write_count w (sig_responses sg);
          w = foldl write_array w (sig_responses sg);
          w = write_count w (sig_ring_pubkeys sg)
      in foldl write_array w (sig_ring_pubkeys sg))"

definition read_ring_key :: "sodium \<Rightarrow> bytes read" where
  "read_ring_key S = rbind (read_array 32) (\<lambda>pk.
     if \<not> is_valid_point S pk then rfail Ring_sig_bad_key else rpure pk)"

definition deserialize_ring_sig :: "sodium \<Rightarrow> ring_signature read" where
  "deserialize_ring_sig S =
     rbind (read_array 32) (\<lambda>img.
     rbind (read_array 32) (\<lambda>c0.
     if \<not> is_valid_point S img then rfail Ring_sig_bad_image else
     rbind read_u32 (\<lambda>resp_count.
     if resp_count < 1 \<or> resp_count > 64 then rfail Ring_sig_bad_count else
     rbind (read_n (unat resp_count) (read_array 32)) (\<lambda>resps.
     rbind read_u32 (\<lambda>pk_count.
     if pk_count \<noteq> resp_count then rfail Ring_sig_count_mismatch else
     rbind (read_n (unat pk_count) (read_ring_key S)) (\<lambda>pks.
     rpure \<lparr>sig_key_image = img, sig_c0 = c0, sig_responses = resps, sig_ring_pubkeys = pks\<rparr>))))))"

subsection \<open>Transactions\<close>

definition serialize_tx :: "writer \<Rightarrow> shielded_transaction \<Rightarrow> error + writer" where
  "serialize_tx w tx =
     (let w = write_array w (tx_hash tx);
          w = serialize_ring_sig w (ring_sig tx);
          w = write_count w (tx_outputs tx);
          w = foldl serialize_output w (tx_outputs tx);
          w = write_u64 w (public_fee tx)
      in write_string w (tx_timestamp tx))"

definition deserialize_tx :: "sodium \<Rightarrow> shielded_transaction read" where
  "deserialize_tx S =
     rbind (read_array 32) (\<lambda>h.
     rbind (deserialize_ring_sig S) (\<lambda>sg.
     rbind read_u32 (\<lambda>out_count.
     if unat out_count > MAX_TX_OUTPUTS then rfail Tx_too_many_outputs else
     rbind (read_n (unat out_count) (deserialize_output S)) (\<lambda>outs.
     rbind read_u64 (\<lambda>fee.
     rbind read_string (\<lambda>ts.
     rpure \<lparr>tx_hash = h, ring_sig = sg, tx_outputs = outs, public_fee = fee, tx_timestamp = ts\<rparr>))))))"

subsection \<open>Receipts\<close>

definition serialize_deposit :: "writer \<Rightarrow> deposit_receipt \<Rightarrow> error + writer" where
  "serialize_deposit w dep =
     (let w = write_u64 w (dep_gross_usdt_deposited dep);
          w = write_u64 w (dep_fee_to_pool dep);
          w = write_u64 w (dep_net_shielded_tokens_minted dep)
      in ebind (write_string w (dep_tx_hash dep)) (\<lambda>w.
         Inr (write_array (write_array w (dep_recipient_view_pub dep)) (dep_recipient_spend_pub dep))))"

definition deserialize_deposit :: "deposit_receipt read" where
  "deserialize_deposit =
     rbind read_u64 (\<lambda>gross.
     rbind read_u64 (\<lambda>fee.
     rbind read_u64 (\<lambda>net.
     rbind read_string (\<lambda>h.
     rbind (\<lambda>r. if 64 \<le> remaining r
                then rbind (read_array 32) (\<lambda>v. rbind (read_array 32) (\<lambda>s. rpure (v, s))) r
                else rpure (zero_key, zero_key) r) (\<lambda>(vp, sp).
     rpure \<lparr>dep_gross_usdt_deposited = gross, dep_fee_to_pool = fee,
            dep_net_shielded_tokens_minted = net, dep_tx_hash = h,
            dep_recipient_view_pub = vp, dep_recipient_spend_pub = sp\<rparr>)))))"

definition serialize_withdrawal :: "writer \<Rightarrow> withdrawal_receipt \<Rightarrow> error + writer" where
  "serialize_withdrawal w wdr =
     (let w = write_u64 w (wdr_gross_tokens_burned wdr);
          w = write_u64 w (wdr_fee_to_pool wdr);
          w = write_u64 w (wdr_net_usdt_to_tumble wdr)
      in ebind (write_string w (wdr_order_id wdr)) (\<lambda>w.
         ebind (write_string w (wdr_destination_address wdr)) (\<lambda>w.
         let w = write_array w (wdr_key_image wdr);
             w = write_array w (wdr_burned_utxo_pubkey wdr);
             w = write_array w (wdr_burn_signature_c0 wdr);
             w = write_array w (wdr_burn_signature_s wdr)
         in Inr (write_array w (wdr_change_output_pubkey wdr)))))"

definition deserialize_withdrawal :: "withdrawal_receipt read" where
  "deserialize_withdrawal =
     rbind read_u64 (\<lambda>gross.
     rbind read_u64 (\<lambda>fee.
     rbind read_u64 (\<lambda>net.
     rbind read_string (\<lambda>order.
     rbind (\<lambda>r. if 4 < remaining r then read_string r else rpure [] r) (\<lambda>dest.
     rbind (\<lambda>r. if 32 \<le> remaining r then read_array 32 r else rpure zero_key r) (\<lambda>img.
     rbind (\<lambda>r. if 96 \<le> remaining r
                then rbind (read_array 32) (\<lambda>pk. rbind (read_array 32) (\<lambda>c0.
                     rbind (read_array 32) (\<lambda>s. rpure (pk, c0, s)))) r
                else rpure (zero_key, zero_key, zero_key) r) (\<lambda>(pk, c0, s).
     rbind (\<lambda>r. if 32 \<le> remaining r then read_array 32 r else rpure zero_key r) (\<lambda>change.
     rpure \<lparr>wdr_gross_tokens_burned = gross, wdr_fee_to_pool = fee, wdr_net_usdt_to_tumble = net,
            wdr_order_id = order, wdr_destination_address = dest, wdr_key_image = img,
            wdr_burned_utxo_pubkey = pk, wdr_burn_signature_c0 = c0, wdr_burn_signature_s = s,
            wdr_change_output_pubkey = change\<rparr>))))))))"

subsection \<open>Headers\<close>

definition serialize_header :: "writer \<Rightarrow> block_header \<Rightarrow> writer" where
  "serialize_header w h =
     (let w = write_u32 w (hdr_version h);
          w = write_u64 w (hdr_height h);
          w = write_array w (prev_block_hash h);
          w = write_array w (merkle_root h);
          w = write_u64 w (hdr_timestamp h);
          w = write_u64 w (hdr_nonce h);
          w = write_array w (validator_pubkey h);
          w = write_array w (validator_signature h);
          w = write_count w (quorum_pubkeys h)
      in foldl (\<lambda>w i.
           let w = write_array w (quorum_pubkeys h ! i)
           in if i < length (quorum_signatures h) then write_array w (quorum_signatures h ! i)
              else write_array w (replicate 64 0))
         w [0..<length (quorum_pubkeys h)])"

definition deserialize_header :: "block_header read" where
  "deserialize_header =
     rbind read_u32 (\<lambda>version.
     rbind read_u64 (\<lambda>height.
     rbind (read_array 32) (\<lambda>prev.
     rbind (read_array 32) (\<lambda>root.
     rbind read_u64 (\<lambda>ts.
     rbind read_u64 (\<lambda>nonce.
     rbind (read_array 32) (\<lambda>vpk.
     rbind (read_array 64) (\<lambda>vsig.
     rbind (\<lambda>r. if version \<ge> 3 \<and> 4 \<le> remaining r
                then rbind read_u32 (\<lambda>q_count.
                     if q_count > 64 then rfail Header_quorum_limit else
                     read_n (unat q_count) (rbind (read_array 32) (\<lambda>pk.
                       rbind (read_array 64) (\<lambda>sg. rpure (pk, sg))))) r
                else rpure [] r) (\<lambda>quorum.
     rpure \<lparr>hdr_version = version, hdr_height = height, prev_block_hash = prev, merkle_root = root,
            hdr_timestamp = ts, hdr_nonce = nonce, validator_pubkey = vpk, validator_signature = vsig,
            quorum_pubkeys = map fst quorum, quorum_signatures = map snd quorum\<rparr>)))))))))"

subsection \<open>Blocks\<close>

definition serialize_block :: "block \<Rightarrow> error + bytes" where
  "serialize_block b =
     (let w = serialize_header [] (header b) in
      ebind (write_each serialize_tx (write_count w (txs b)) (txs b)) (\<lambda>w.
      ebind (write_each serialize_deposit (write_count w (deposits b)) (deposits b)) (\<lambda>w.
      ebind (write_each serialize_withdrawal (write_count w (withdrawals b)) (withdrawals b)) (\<lambda>w.
      let w = foldl serialize_output (write_count w (deposit_outputs b)) (deposit_outputs b)
      in Inr (foldl serialize_output (write_count w (withdrawal_outputs b)) (withdrawal_outputs b))))))"

text \<open>A counted list of the block: the count, its limit, the elements.\<close>

definition read_counted :: "nat \<Rightarrow> error \<Rightarrow> 'a read \<Rightarrow> 'a list read" where
  "read_counted limit e p = rbind read_u32 (\<lambda>count.
     if unat count > limit then rfail e else read_n (unat count) p)"

definition read_block :: "sodium \<Rightarrow> block read" where
  "read_block S =
     rbind deserialize_header (\<lambda>h.
     rbind (read_counted MAX_BLOCK_TRANSACTIONS Block_tx_limit (deserialize_tx S)) (\<lambda>ts.
     rbind (read_counted MAX_BLOCK_DEPOSITS Block_deposit_limit deserialize_deposit) (\<lambda>ds.
     rbind (read_counted MAX_BLOCK_WITHDRAWALS Block_withdrawal_limit deserialize_withdrawal) (\<lambda>ws.
     rbind (\<lambda>r. if 4 \<le> remaining r
                then read_counted MAX_BLOCK_OUTPUTS Block_deposit_output_limit (deserialize_output S) r
                else rpure [] r) (\<lambda>dos.
     rbind (\<lambda>r. if 4 \<le> remaining r
                then read_counted MAX_BLOCK_OUTPUTS Block_withdrawal_output_limit (deserialize_output S) r
                else rpure [] r) (\<lambda>wos.
     rpure \<lparr>header = h, txs = ts, deposits = ds, withdrawals = ws, deposit_outputs = dos,
            withdrawal_outputs = wos\<rparr>))))))"

definition deserialize_block :: "sodium \<Rightarrow> bytes \<Rightarrow> error + block" where
  "deserialize_block S data = ebind (read_block S (new_reader data)) (\<lambda>(b, r). Inr b)"

section \<open>What the readers accept\<close>

definition wire_output :: "sodium \<Rightarrow> one_time_output \<Rightarrow> bool" where
  "wire_output S out \<longleftrightarrow> output_ok out
     \<and> is_valid_point S (ephemeral_public_key out) \<and> is_valid_point S (destination_one_time out)"

definition wire_ring_sig :: "sodium \<Rightarrow> ring_signature \<Rightarrow> bool" where
  "wire_ring_sig S sg \<longleftrightarrow>
     length (sig_key_image sg) = 32 \<and> length (sig_c0 sg) = 32 \<and> is_valid_point S (sig_key_image sg)
   \<and> 1 \<le> length (sig_responses sg) \<and> length (sig_responses sg) \<le> 64
   \<and> length (sig_ring_pubkeys sg) = length (sig_responses sg)
   \<and> list_all (\<lambda>s. length s = 32) (sig_responses sg)
   \<and> list_all (\<lambda>pk. length pk = 32 \<and> is_valid_point S pk) (sig_ring_pubkeys sg)"

definition wire_tx :: "sodium \<Rightarrow> shielded_transaction \<Rightarrow> bool" where
  "wire_tx S tx \<longleftrightarrow>
     length (tx_hash tx) = 32 \<and> wire_ring_sig S (ring_sig tx)
   \<and> length (tx_outputs tx) \<le> MAX_TX_OUTPUTS \<and> list_all (wire_output S) (tx_outputs tx)
   \<and> length (tx_timestamp tx) \<le> MAX_SERIALIZED_STRING_BYTES"

definition wire_deposit :: "deposit_receipt \<Rightarrow> bool" where
  "wire_deposit dep \<longleftrightarrow>
     length (dep_tx_hash dep) \<le> MAX_SERIALIZED_STRING_BYTES
   \<and> length (dep_recipient_view_pub dep) = 32 \<and> length (dep_recipient_spend_pub dep) = 32"

definition wire_withdrawal :: "withdrawal_receipt \<Rightarrow> bool" where
  "wire_withdrawal wdr \<longleftrightarrow>
     length (wdr_order_id wdr) \<le> MAX_SERIALIZED_STRING_BYTES
   \<and> length (wdr_destination_address wdr) \<le> MAX_SERIALIZED_STRING_BYTES
   \<and> list_all (\<lambda>k. length k = 32)
       [wdr_key_image wdr, wdr_burned_utxo_pubkey wdr, wdr_burn_signature_c0 wdr,
        wdr_burn_signature_s wdr, wdr_change_output_pubkey wdr]"

definition wire_header :: "block_header \<Rightarrow> bool" where
  "wire_header h \<longleftrightarrow>
     length (prev_block_hash h) = 32 \<and> length (merkle_root h) = 32
   \<and> length (validator_pubkey h) = 32 \<and> length (validator_signature h) = 64
   \<and> length (quorum_pubkeys h) \<le> 64 \<and> length (quorum_signatures h) = length (quorum_pubkeys h)
   \<and> list_all (\<lambda>k. length k = 32) (quorum_pubkeys h)
   \<and> list_all (\<lambda>s. length s = 64) (quorum_signatures h)
   \<and> (hdr_version h < 3 \<longrightarrow> quorum_pubkeys h = [])"

definition wire_block :: "sodium \<Rightarrow> block \<Rightarrow> bool" where
  "wire_block S b \<longleftrightarrow>
     wire_header (header b)
   \<and> length (txs b) \<le> MAX_BLOCK_TRANSACTIONS \<and> list_all (wire_tx S) (txs b)
   \<and> length (deposits b) \<le> MAX_BLOCK_DEPOSITS \<and> list_all wire_deposit (deposits b)
   \<and> length (withdrawals b) \<le> MAX_BLOCK_WITHDRAWALS \<and> list_all wire_withdrawal (withdrawals b)
   \<and> length (deposit_outputs b) \<le> MAX_BLOCK_OUTPUTS \<and> list_all (wire_output S) (deposit_outputs b)
   \<and> length (withdrawal_outputs b) \<le> MAX_BLOCK_OUTPUTS
   \<and> list_all (wire_output S) (withdrawal_outputs b)"

text \<open>
  The contract of a reader on bytes from the network: the value satisfies the \<open>wire\<close>
  predicate and nothing beyond the data was read; and the same for counted lists.
\<close>

locale decoder =
  fixes dec :: "'a read"
    and wire :: "'a \<Rightarrow> bool"
  assumes contract: "reads dec wire"
begin

lemma from_bytes:
  assumes "dec (new_reader data) = Inr (x, r)"
  shows "wire x \<and> rd_data r = data \<and> rd_cursor r \<le> length data"
proof -
  have "in_data (new_reader data)"
    by (simp add: in_data_def new_reader_def)
  from readsD [OF contract this assms] show ?thesis
    by (auto simp: follows_def in_data_def new_reader_def)
qed

lemma many: "reads (read_n n dec) (\<lambda>xs. length xs = n \<and> list_all wire xs)"
  by (rule reads_read_n [OF contract])

lemma counted: "reads (read_counted limit e dec) (\<lambda>xs. length xs \<le> limit \<and> list_all wire xs)"
  unfolding read_counted_def
  by (intro reads_rbind [OF reads_u32] reads_checked) (auto intro: reads_weaken [OF many])

lemma counted_if_remaining:
  "reads (\<lambda>r. if n \<le> remaining r then read_counted limit e dec r else rpure [] r)
     (\<lambda>xs. length xs \<le> limit \<and> list_all wire xs)"
  by (intro reads_if_reader counted reads_rpure) simp

end

interpretation output_decoder: decoder "deserialize_output S" "wire_output S" for S
proof
  show "reads (deserialize_output S) (wire_output S)"
    unfolding deserialize_output_def
    by (intro reads_rbind [OF reads_array] reads_rbind [OF reads_u64] reads_checked reads_rpure)
       (simp add: wire_output_def output_ok_def)
qed

interpretation ring_key_decoder: decoder "read_ring_key S"
    "\<lambda>pk. length pk = 32 \<and> is_valid_point S pk" for S
proof
  show "reads (read_ring_key S) (\<lambda>pk. length pk = 32 \<and> is_valid_point S pk)"
    unfolding read_ring_key_def
    by (intro reads_rbind [OF reads_array] reads_checked reads_rpure) simp
qed

interpretation ring_sig_decoder: decoder "deserialize_ring_sig S" "wire_ring_sig S" for S
proof
  show "reads (deserialize_ring_sig S) (wire_ring_sig S)"
    unfolding deserialize_ring_sig_def
    by (intro reads_rbind [OF reads_array] reads_rbind [OF reads_u32] reads_checked
        reads_rbind [OF reads_read_n [OF reads_array]] reads_rbind [OF ring_key_decoder.many] reads_rpure)
       (auto simp: wire_ring_sig_def word_less_nat_alt word_le_nat_alt)
qed

interpretation tx_decoder: decoder "deserialize_tx S" "wire_tx S" for S
proof
  show "reads (deserialize_tx S) (wire_tx S)"
    unfolding deserialize_tx_def
    by (intro reads_rbind [OF reads_array] reads_rbind [OF ring_sig_decoder.contract]
        reads_rbind [OF reads_u32] reads_checked reads_rbind [OF output_decoder.many]
        reads_rbind [OF reads_u64] reads_rbind [OF reads_string] reads_rpure)
       (auto simp: wire_tx_def)
qed

lemma length_zero_key [simp]: "length zero_key = 32"
  by (simp add: zero_key_def)

lemma reads_key_if_remaining:
  "reads (\<lambda>r. if 32 \<le> remaining r then read_array 32 r else rpure zero_key r) (\<lambda>k. length k = 32)"
  by (intro reads_if_reader reads_array reads_rpure) simp

interpretation deposit_decoder: decoder deserialize_deposit wire_deposit
proof
  have opt: "reads (\<lambda>r. if 64 \<le> remaining r
                then rbind (read_array 32) (\<lambda>v. rbind (read_array 32) (\<lambda>s. rpure (v, s))) r
                else rpure (zero_key, zero_key) r) (\<lambda>(v, s). length v = 32 \<and> length s = 32)"
    by (intro reads_if_reader reads_rbind [OF reads_array] reads_rpure) simp_all
  show "reads deserialize_deposit wire_deposit"
    unfolding deserialize_deposit_def
    by (intro reads_rbind [OF reads_u64] reads_rbind [OF reads_string] reads_rbind [OF opt])
       (auto simp: wire_deposit_def intro: reads_rpure)
qed

interpretation withdrawal_decoder: decoder deserialize_withdrawal wire_withdrawal
proof
  have proof_part: "reads (\<lambda>r. if 96 \<le> remaining r
                then rbind (read_array 32) (\<lambda>pk. rbind (read_array 32) (\<lambda>c0.
                     rbind (read_array 32) (\<lambda>s. rpure (pk, c0, s)))) r
                else rpure (zero_key, zero_key, zero_key) r)
      (\<lambda>(pk, c0, s). length pk = 32 \<and> length c0 = 32 \<and> length s = 32)"
    by (intro reads_if_reader reads_rbind [OF reads_array] reads_rpure) simp_all
  have dest: "reads (\<lambda>r. if 4 < remaining r then read_string r else rpure [] r)
      (\<lambda>s. length s \<le> MAX_SERIALIZED_STRING_BYTES)"
    by (intro reads_if_reader reads_string reads_rpure) simp
  show "reads deserialize_withdrawal wire_withdrawal"
    unfolding deserialize_withdrawal_def
    by (intro reads_rbind [OF reads_u64] reads_rbind [OF reads_string] reads_rbind [OF dest]
        reads_rbind [OF reads_key_if_remaining] reads_rbind [OF proof_part])
       (auto simp: wire_withdrawal_def intro!: reads_rbind [OF reads_key_if_remaining] reads_rpure)
qed

interpretation header_decoder: decoder deserialize_header wire_header
proof
  have pair: "reads (rbind (read_array 32) (\<lambda>pk. rbind (read_array 64) (\<lambda>sg. rpure (pk, sg))))
      (\<lambda>(pk, sg). length pk = 32 \<and> length sg = 64)"
    by (intro reads_rbind [OF reads_array] reads_rpure) simp
  have quorum: "reads (\<lambda>r. if version \<ge> 3 \<and> 4 \<le> remaining r
                then rbind read_u32 (\<lambda>q_count.
                     if q_count > 64 then rfail Header_quorum_limit else
                     read_n (unat q_count) (rbind (read_array 32) (\<lambda>pk.
                       rbind (read_array 64) (\<lambda>sg. rpure (pk, sg))))) r
                else rpure [] r)
      (\<lambda>qs. length qs \<le> 64 \<and> list_all (\<lambda>(pk, sg). length pk = 32 \<and> length sg = 64) qs
         \<and> (version < 3 \<longrightarrow> qs = []))" for version :: u32
  proof (cases "version \<ge> 3")
    case True
    then show ?thesis
      by (intro reads_if_reader reads_rbind [OF reads_u32] reads_checked reads_rpure)
         (auto simp: word_less_nat_alt word_le_nat_alt intro!: reads_weaken [OF reads_read_n [OF pair]])
  next
    case False
    then show ?thesis
      by (simp add: reads_rpure)
  qed
  show "reads deserialize_header wire_header"
    unfolding deserialize_header_def
    by (intro reads_rbind [OF reads_u32] reads_rbind [OF reads_u64] reads_rbind [OF reads_array]
        reads_rbind [OF quorum] reads_rpure)
       (auto simp: wire_header_def list_all_iff)
qed

interpretation block_decoder: decoder "read_block S" "wire_block S" for S
proof
  show "reads (read_block S) (wire_block S)"
    unfolding read_block_def
    by (intro reads_rbind [OF header_decoder.contract] reads_rbind [OF tx_decoder.counted]
        reads_rbind [OF deposit_decoder.counted] reads_rbind [OF withdrawal_decoder.counted]
        reads_rbind [OF output_decoder.counted_if_remaining] reads_rpure)
       (auto simp: wire_block_def)
qed

section \<open>Layouts\<close>

definition output_layout :: "one_time_output \<Rightarrow> bytes" where
  "output_layout out =
     ephemeral_public_key out @ destination_one_time out @ le_bytes 8 (out_amount out)"

definition count_layout :: "'a list \<Rightarrow> bytes" where
  "count_layout xs = le_bytes 4 (of_nat (length xs) :: u32)"

definition ring_sig_layout :: "ring_signature \<Rightarrow> bytes" where
  "ring_sig_layout sg =
     sig_key_image sg @ sig_c0 sg
     @ count_layout (sig_responses sg) @ concat (sig_responses sg)
     @ count_layout (sig_ring_pubkeys sg) @ concat (sig_ring_pubkeys sg)"

definition tx_layout :: "shielded_transaction \<Rightarrow> bytes" where
  "tx_layout tx =
     tx_hash tx @ ring_sig_layout (ring_sig tx)
     @ count_layout (tx_outputs tx) @ concat (map output_layout (tx_outputs tx))
     @ le_bytes 8 (public_fee tx) @ string_layout (tx_timestamp tx)"

definition deposit_layout :: "deposit_receipt \<Rightarrow> bytes" where
  "deposit_layout dep =
     le_bytes 8 (dep_gross_usdt_deposited dep) @ le_bytes 8 (dep_fee_to_pool dep)
     @ le_bytes 8 (dep_net_shielded_tokens_minted dep) @ string_layout (dep_tx_hash dep)
     @ dep_recipient_view_pub dep @ dep_recipient_spend_pub dep"

definition withdrawal_layout :: "withdrawal_receipt \<Rightarrow> bytes" where
  "withdrawal_layout wdr =
     le_bytes 8 (wdr_gross_tokens_burned wdr) @ le_bytes 8 (wdr_fee_to_pool wdr)
     @ le_bytes 8 (wdr_net_usdt_to_tumble wdr) @ string_layout (wdr_order_id wdr)
     @ string_layout (wdr_destination_address wdr) @ wdr_key_image wdr
     @ (wdr_burned_utxo_pubkey wdr @ wdr_burn_signature_c0 wdr @ wdr_burn_signature_s wdr)
     @ wdr_change_output_pubkey wdr"

definition header_layout :: "block_header \<Rightarrow> bytes" where
  "header_layout h =
     le_bytes 4 (hdr_version h) @ le_bytes 8 (hdr_height h) @ prev_block_hash h @ merkle_root h
     @ le_bytes 8 (hdr_timestamp h) @ le_bytes 8 (hdr_nonce h)
     @ validator_pubkey h @ validator_signature h
     @ (count_layout (quorum_pubkeys h)
        @ concat (map (\<lambda>(pk, sg). pk @ sg) (zip (quorum_pubkeys h) (quorum_signatures h))))"

definition block_layout :: "block \<Rightarrow> bytes" where
  "block_layout b =
     header_layout (header b)
     @ (count_layout (txs b) @ concat (map tx_layout (txs b)))
     @ (count_layout (deposits b) @ concat (map deposit_layout (deposits b)))
     @ (count_layout (withdrawals b) @ concat (map withdrawal_layout (withdrawals b)))
     @ (count_layout (deposit_outputs b) @ concat (map output_layout (deposit_outputs b)))
     @ (count_layout (withdrawal_outputs b) @ concat (map output_layout (withdrawal_outputs b)))"

lemma length_count_layout [simp]: "length (count_layout xs) = 4"
  by (simp add: count_layout_def)

lemma write_count_eq: "write_count w xs = w @ count_layout xs"
  by (simp add: write_count_def count_layout_def write_u32_eq)

lemma foldl_writer:
  "(\<And>w x. put w x = w @ lay x) \<Longrightarrow> foldl put w xs = w @ concat (map lay xs)"
  by (induction xs arbitrary: w) simp_all

lemma foldl_write_array: "foldl write_array w xs = w @ concat xs"
  using foldl_writer [of write_array "\<lambda>x. x" w xs] by (simp add: write_array_eq)

lemma write_each_eq:
  "(\<And>w x. x \<in> set xs \<Longrightarrow> put w x = Inr (w @ lay x)) \<Longrightarrow>
   write_each put w xs = Inr (w @ concat (map lay xs))"
  by (induction xs arbitrary: w) simp_all

lemma serialize_output_eq: "serialize_output w out = w @ output_layout out"
  by (simp add: serialize_output_def output_layout_def writer_simps)

lemma serialize_outputs_eq: "foldl serialize_output w outs = w @ concat (map output_layout outs)"
  by (rule foldl_writer) (rule serialize_output_eq)

lemma serialize_ring_sig_eq: "serialize_ring_sig w sg = w @ ring_sig_layout sg"
  by (simp add: serialize_ring_sig_def ring_sig_layout_def writer_simps write_count_eq
      foldl_write_array Let_def)

lemma write_string_fits:
  "length s \<le> MAX_SERIALIZED_STRING_BYTES \<Longrightarrow> write_string w s = Inr (w @ string_layout s)"
  by (simp add: write_string_eq MAX_SERIALIZED_STRING_BYTES_def)

lemma serialize_tx_eq: "wire_tx S tx \<Longrightarrow> serialize_tx w tx = Inr (w @ tx_layout tx)"
  by (simp add: serialize_tx_def tx_layout_def wire_tx_def writer_simps write_count_eq
      serialize_ring_sig_eq serialize_outputs_eq write_string_fits Let_def)

lemma serialize_deposit_eq:
  "wire_deposit dep \<Longrightarrow> serialize_deposit w dep = Inr (w @ deposit_layout dep)"
  by (simp add: serialize_deposit_def deposit_layout_def wire_deposit_def writer_simps
      write_string_fits Let_def)

lemma serialize_withdrawal_eq:
  "wire_withdrawal wdr \<Longrightarrow> serialize_withdrawal w wdr = Inr (w @ withdrawal_layout wdr)"
  by (simp add: serialize_withdrawal_def withdrawal_layout_def wire_withdrawal_def writer_simps
      write_string_fits Let_def)

lemma quorum_loop:
  assumes "length ss = length ks"
  shows "foldl (\<lambda>w i. let w = write_array w (ks ! i)
           in if i < length ss then write_array w (ss ! i) else write_array w (replicate 64 0))
         w [0..<length ks]
    = w @ concat (map (\<lambda>(pk, sg). pk @ sg) (zip ks ss))"
proof -
  have "foldl (\<lambda>w i. let w = write_array w (ks ! i)
           in if i < length ss then write_array w (ss ! i) else write_array w (replicate 64 0)) w [0..<n]
      = w @ concat (map (\<lambda>(pk, sg). pk @ sg) (take n (zip ks ss)))" if "n \<le> length ks" for n
    using that
  proof (induction n)
    case (Suc n)
    then show ?case
      using assms by (simp add: write_array_eq take_Suc_conv_app_nth)
  qed simp
  from this [of "length ks"] assms show ?thesis
    by simp
qed

lemma serialize_header_eq:
  assumes "wire_header h"
  shows "serialize_header w h = w @ header_layout h"
proof -
  have len: "length (quorum_signatures h) = length (quorum_pubkeys h)"
    using assms by (simp add: wire_header_def)
  show ?thesis
    unfolding serialize_header_def Let_def quorum_loop [OF len, unfolded Let_def]
    by (simp add: header_layout_def writer_simps write_count_eq)
qed

lemma serialize_block_eq: "wire_block S b \<Longrightarrow> serialize_block b = Inr (block_layout b)"
  by (simp add: serialize_block_def block_layout_def wire_block_def serialize_header_eq
      write_count_eq serialize_outputs_eq Let_def list_all_iff
      write_each_eq [where lay = tx_layout] serialize_tx_eq [of S]
      write_each_eq [where lay = deposit_layout] serialize_deposit_eq
      write_each_eq [where lay = withdrawal_layout] serialize_withdrawal_eq)

section \<open>Codecs\<close>

context codec
begin

lemma decode_n: "list_all ok xs \<Longrightarrow> n = length xs \<Longrightarrow> parses (read_n n dec) (concat (map enc xs)) xs"
  using decode_list by simp

lemma decode_counted:
  assumes "list_all ok xs" and "length xs \<le> limit" and "limit < 2 ^ 32"
  shows "parses (read_counted limit e dec) (count_layout xs @ concat (map enc xs)) xs"
proof -
  have "unat (of_nat (length xs) :: u32) = length xs"
    using assms(2,3) by (simp add: unat_of_nat)
  then show ?thesis
    unfolding read_counted_def count_layout_def using assms
    by (intro parses_rbind [OF parses_u32] parses_checked decode_n) simp_all
qed

lemma decode_counted_if_remaining:
  assumes "list_all ok xs" and "length xs \<le> limit" and "limit < 2 ^ 32"
  shows "parses (\<lambda>r. if 4 \<le> remaining r then read_counted limit e dec r else q r)
    (count_layout xs @ concat (map enc xs)) xs"
  using assms by (intro parses_if_remaining decode_counted) simp_all

end

interpretation output_codec: codec output_layout "deserialize_output S" "wire_output S" for S
proof
  fix out
  assume "wire_output S out"
  then show "parses (deserialize_output S) (output_layout out) out"
    unfolding deserialize_output_def output_layout_def
    by (cases out) (clarsimp simp: wire_output_def output_ok_def, (rule parse_steps | simp)+)
qed

interpretation ring_key_codec: codec "\<lambda>pk. pk" "read_ring_key S"
    "\<lambda>pk. length pk = 32 \<and> is_valid_point S pk" for S
  by unfold_locales (clarsimp simp: read_ring_key_def, (rule parse_steps | simp)+)

interpretation ring_sig_codec: codec ring_sig_layout "deserialize_ring_sig S" "wire_ring_sig S" for S
proof
  fix sg
  assume w: "wire_ring_sig S sg"
  let ?n = "length (sig_responses sg)"
  have u: "unat (of_nat ?n :: u32) = ?n"
    using w by (simp add: wire_ring_sig_def unat_of_nat)
  have "parses (read_n ?n (read_array 32)) (concat (sig_responses sg)) (sig_responses sg)"
    using key_codec.decode_n [of "sig_responses sg" ?n] w by (simp add: wire_ring_sig_def)
  moreover have "parses (read_n ?n (read_ring_key S)) (concat (sig_ring_pubkeys sg)) (sig_ring_pubkeys sg)"
    using ring_key_codec.decode_n [of S "sig_ring_pubkeys sg" ?n] w by (simp add: wire_ring_sig_def)
  moreover have "\<not> (of_nat ?n < (1 :: u32) \<or> of_nat ?n > (64 :: u32))"
    using w u by (auto simp: wire_ring_sig_def word_less_nat_alt)
  ultimately show "parses (deserialize_ring_sig S) (ring_sig_layout sg) sg"
    unfolding deserialize_ring_sig_def ring_sig_layout_def count_layout_def using w u
    by (cases sg) (clarsimp simp: wire_ring_sig_def, (rule parse_steps | assumption | simp)+)
qed

interpretation tx_codec: codec tx_layout "deserialize_tx S" "wire_tx S" for S
proof
  fix tx
  assume w: "wire_tx S tx"
  let ?n = "length (tx_outputs tx)"
  have u: "unat (of_nat ?n :: u32) = ?n" and lim: "\<not> MAX_TX_OUTPUTS < ?n"
    using w by (simp_all add: wire_tx_def MAX_TX_OUTPUTS_def unat_of_nat)
  have "parses (read_n ?n (deserialize_output S)) (concat (map output_layout (tx_outputs tx))) (tx_outputs tx)"
    using output_codec.decode_n [of S "tx_outputs tx" ?n] w by (simp add: wire_tx_def)
  moreover have "parses (deserialize_ring_sig S) (ring_sig_layout (ring_sig tx)) (ring_sig tx)"
    by (rule ring_sig_codec.decode) (use w in \<open>simp add: wire_tx_def\<close>)
  ultimately show "parses (deserialize_tx S) (tx_layout tx) tx"
    unfolding deserialize_tx_def tx_layout_def count_layout_def using w u lim
    by (cases tx) (clarsimp simp: wire_tx_def, (rule parse_steps | assumption | simp)+)
qed

interpretation deposit_codec: codec deposit_layout deserialize_deposit wire_deposit
proof
  fix dep
  assume "wire_deposit dep"
  then show "parses deserialize_deposit (deposit_layout dep) dep"
    unfolding deserialize_deposit_def deposit_layout_def
    by (cases dep) (clarsimp simp: wire_deposit_def, (rule parse_steps | simp)+)
qed

interpretation withdrawal_codec: codec withdrawal_layout deserialize_withdrawal wire_withdrawal
proof
  fix wdr
  assume "wire_withdrawal wdr"
  then show "parses deserialize_withdrawal (withdrawal_layout wdr) wdr"
    unfolding deserialize_withdrawal_def withdrawal_layout_def
    by (cases wdr)
       (clarsimp simp: wire_withdrawal_def simp del: append_assoc,
        (rule parses_rbind_if_remaining_less parse_steps | simp del: append_assoc)+)
qed

lemma parses_quorum:
  assumes "length ss = length ks" and "length ks \<le> 64" and "version \<ge> (3 :: u32)"
    and "list_all (\<lambda>k. length k = 32) ks" and "list_all (\<lambda>s. length s = 64) ss"
  shows "parses (\<lambda>r. if version \<ge> 3 \<and> 4 \<le> remaining r
                then rbind read_u32 (\<lambda>q_count.
                     if q_count > 64 then rfail Header_quorum_limit else
                     read_n (unat q_count) (rbind (read_array 32) (\<lambda>pk.
                       rbind (read_array 64) (\<lambda>sg. rpure (pk, sg))))) r
                else rpure [] r)
      (count_layout ks @ concat (map (\<lambda>(pk, sg). pk @ sg) (zip ks ss))) (zip ks ss)"
proof -
  let ?pair = "rbind (read_array 32) (\<lambda>pk. rbind (read_array 64) (\<lambda>sg. rpure (pk, sg)))"
  have pair: "parses ?pair ((\<lambda>(pk, sg). pk @ sg) x) x" if "x \<in> set (zip ks ss)" for x
  proof (cases x)
    case (Pair pk sg)
    with that assms(4,5) have "length pk = 32" "length sg = 64"
      by (auto simp: list_all_iff dest: set_zip_leftD set_zip_rightD)
    then show ?thesis
      unfolding Pair prod.case by (intro parses_rbind [OF parses_array] parses_rbind_last [OF parses_array]
          parses_rpure)
  qed
  have u: "unat (of_nat (length ks) :: u32) = length ks" and lim: "\<not> of_nat (length ks) > (64 :: u32)"
    using assms(2) by (simp_all add: unat_of_nat word_less_nat_alt)
  from parses_read_n [of "zip ks ss", OF pair] assms(1)
  have "parses (read_n (length ks) ?pair) (concat (map (\<lambda>(pk, sg). pk @ sg) (zip ks ss))) (zip ks ss)"
    by simp
  then show ?thesis
    using assms(3) u lim unfolding count_layout_def
    by (intro parses_if_version parses_rbind [OF parses_u32] parses_checked) simp_all
qed

interpretation header_codec: codec header_layout deserialize_header
    "\<lambda>h. wire_header h \<and> hdr_version h \<ge> 3"
proof
  fix h
  assume h: "wire_header h \<and> hdr_version h \<ge> 3"
  then show "parses deserialize_header (header_layout h) h"
    unfolding deserialize_header_def header_layout_def
    by (cases h) (clarsimp simp: wire_header_def simp del: append_assoc,
        (rule parses_rbind_last [OF parses_quorum] parse_steps | simp del: append_assoc)+)
qed

interpretation block_codec: codec block_layout "read_block S"
    "\<lambda>b. wire_block S b \<and> hdr_version (header b) \<ge> 3" for S
proof
  fix b
  assume b: "wire_block S b \<and> hdr_version (header b) \<ge> 3"
  have lims: "MAX_BLOCK_TRANSACTIONS < 2 ^ 32" "MAX_BLOCK_DEPOSITS < 2 ^ 32"
    "MAX_BLOCK_WITHDRAWALS < 2 ^ 32" "MAX_BLOCK_OUTPUTS < 2 ^ 32"
    by (simp_all add: MAX_BLOCK_TRANSACTIONS_def MAX_BLOCK_DEPOSITS_def MAX_BLOCK_WITHDRAWALS_def
        MAX_BLOCK_OUTPUTS_def)
  note w = b [unfolded wire_block_def]
  have h: "parses deserialize_header (header_layout (header b)) (header b)"
    by (rule header_codec.decode) (use w in simp)
  note t = tx_codec.decode_counted [of S "txs b" MAX_BLOCK_TRANSACTIONS, OF _ _ lims(1)]
  note d = deposit_codec.decode_counted [of "deposits b" MAX_BLOCK_DEPOSITS, OF _ _ lims(2)]
  note wd = withdrawal_codec.decode_counted [of "withdrawals b" MAX_BLOCK_WITHDRAWALS, OF _ _ lims(3)]
  note o = output_codec.decode_counted_if_remaining [where limit = MAX_BLOCK_OUTPUTS, OF _ _ lims(4)]
  have p: "parses (rpure \<lparr>header = header b, txs = txs b, deposits = deposits b,
      withdrawals = withdrawals b, deposit_outputs = deposit_outputs b,
      withdrawal_outputs = withdrawal_outputs b\<rparr>) [] b"
    by (cases b) (simp add: parses_rpure)
  show "parses (read_block S) (block_layout b) b"
    unfolding read_block_def block_layout_def
    by (rule parses_rbind [OF h], rule parses_rbind [OF t], use w in simp, use w in simp,
        rule parses_rbind [OF d], use w in simp, use w in simp,
        rule parses_rbind [OF wd], use w in simp, use w in simp,
        rule parses_rbind [OF o], use w in simp, use w in simp,
        rule parses_rbind_last [OF o], use w in simp, use w in simp, rule p)
qed

section \<open>Properties\<close>

text \<open>
  C34: whatever bytes arrive from the network or the disk, a block that deserialization
  returns respects every limit of the format: counts, string lengths, key lengths, rings
  of 1 to 64 members with as many responses as keys, at most 64 quorum signatures paired
  with their keys, and every point of outputs, rings and key images valid; and the reader
  never went past the end of the data.
\<close>

theorem deserialize_block_safe:
  assumes "deserialize_block S data = Inr b"
  shows "wire_block S b
    \<and> (\<exists>r. read_block S (new_reader data) = Inr (b, r) \<and> rd_data r = data \<and> rd_cursor r \<le> length data)"
  using assms block_decoder.from_bytes
  by (fastforce simp: deserialize_block_def ebind_eq_Inr)

theorem deserialize_block_safe_witness:
  "\<exists>b. deserialize_block toy_sodium (block_layout \<lparr>header = \<lparr>hdr_version = 3, hdr_height = 1,
       prev_block_hash = zero_key, merkle_root = zero_key, hdr_timestamp = 5, hdr_nonce = 0,
       validator_pubkey = zero_key, validator_signature = zero_key @ zero_key, quorum_pubkeys = [],
       quorum_signatures = []\<rparr>, txs = [], deposits = [], withdrawals = [], deposit_outputs = [],
       withdrawal_outputs = []\<rparr>) = Inr b \<and> wire_block toy_sodium b"
  (is "\<exists>b. deserialize_block _ (block_layout ?b) = _ \<and> _")
proof -
  have "wire_block toy_sodium ?b \<and> hdr_version (header ?b) \<ge> 3"
    by (simp add: wire_block_def wire_header_def)
  then have d: "deserialize_block toy_sodium (block_layout ?b) = Inr ?b"
    using block_codec.decode_at [of toy_sodium ?b "[]" "[]"]
    by (simp add: deserialize_block_def new_reader_at)
  show ?thesis
    using deserialize_block_safe [OF d] d by blast
qed

text \<open>
  C35: serialization loses nothing: a block within the limits of the format, of a version
  that carries a quorum, serializes without error, and its bytes, whatever follows them,
  deserialize to the same block.
\<close>

theorem block_roundtrip:
  assumes "wire_block S b" and "hdr_version (header b) \<ge> 3"
  shows "\<exists>bs. serialize_block b = Inr bs \<and> (\<forall>rest. deserialize_block S (bs @ rest) = Inr b)"
  using assms block_codec.decode_at [of S b "[]"]
  by (simp add: serialize_block_eq deserialize_block_def new_reader_at)

definition sample_block :: block where
  "sample_block =
     \<lparr>header = \<lparr>hdr_version = 3, hdr_height = 1,
       prev_block_hash = zero_key, merkle_root = point 6, hdr_timestamp = 5, hdr_nonce = 0,
       validator_pubkey = point 3, validator_signature = zero_key @ zero_key,
       quorum_pubkeys = [point 3], quorum_signatures = [zero_key @ zero_key]\<rparr>,
      txs = [\<lparr>tx_hash = point 4,
        ring_sig = \<lparr>sig_key_image = point 2, sig_c0 = scalar 3, sig_responses = [scalar 4],
                    sig_ring_pubkeys = [point 5]\<rparr>,
        tx_outputs = [\<lparr>ephemeral_public_key = point 7, destination_one_time = point 8, out_amount = 9\<rparr>],
        public_fee = 1, tx_timestamp = ''now''\<rparr>],
      deposits = [], withdrawals = [],
      deposit_outputs = [\<lparr>ephemeral_public_key = point 1, destination_one_time = point 2, out_amount = 5\<rparr>],
      withdrawal_outputs = []\<rparr>"

theorem block_roundtrip_witness:
  "\<exists>bs. serialize_block sample_block = Inr bs \<and> deserialize_block toy_sodium bs = Inr sample_block"
proof -
  have w: "wire_block toy_sodium sample_block" and v: "hdr_version (header sample_block) \<ge> 3"
    by (simp_all add: sample_block_def wire_block_def wire_header_def wire_tx_def wire_ring_sig_def
        wire_output_def output_ok_def MAX_TX_OUTPUTS_def MAX_BLOCK_TRANSACTIONS_def
        MAX_BLOCK_OUTPUTS_def MAX_SERIALIZED_STRING_BYTES_def)
  show ?thesis
    using block_roundtrip [OF w v] by (metis append_Nil2)
qed

text \<open>
  The binary forms of blocks are uniquely decodable: two blocks with the same bytes
  are equal, and no block's bytes are a proper prefix of another's.
\<close>

theorem block_bytes_unique:
  assumes "wire_block S a" and "wire_block S b"
    and "hdr_version (header a) \<ge> 3" and "hdr_version (header b) \<ge> 3"
    and "serialize_block a = Inr xs" and "serialize_block b = Inr (xs @ ys)"
  shows "a = b \<and> ys = []"
  using assms block_codec.encode_prefix_free [of S a b ys "[]"]
  by (simp add: serialize_block_eq)

theorem block_bytes_unique_witness:
  "serialize_block (sample_block\<lparr>txs := []\<rparr>) \<noteq> serialize_block sample_block"
proof
  assume eq: "serialize_block (sample_block\<lparr>txs := []\<rparr>) = serialize_block sample_block"
  have w: "wire_block toy_sodium sample_block" "wire_block toy_sodium (sample_block\<lparr>txs := []\<rparr>)"
    and v: "hdr_version (header sample_block) \<ge> 3" "hdr_version (header (sample_block\<lparr>txs := []\<rparr>)) \<ge> 3"
    by (simp_all add: sample_block_def wire_block_def wire_header_def wire_tx_def wire_ring_sig_def
        wire_output_def output_ok_def MAX_TX_OUTPUTS_def MAX_BLOCK_TRANSACTIONS_def
        MAX_BLOCK_OUTPUTS_def MAX_SERIALIZED_STRING_BYTES_def)
  obtain bs where bs: "serialize_block sample_block = Inr bs"
    using serialize_block_eq [OF w(1)] by blast
  have "sample_block\<lparr>txs := []\<rparr> = sample_block"
    using block_bytes_unique [OF w(2,1) v(2,1), of bs "[]"] eq bs by simp
  then show False
    by (simp add: sample_block_def)
qed

lemma foldl_extends:
  "(\<And>w x. \<exists>t. put w x = w @ t) \<Longrightarrow> \<exists>t. foldl put w xs = w @ t"
proof (induction xs arbitrary: w)
  case (Cons x xs)
  obtain t where "put w x = w @ t"
    using Cons.prems by blast
  moreover obtain u where "foldl put (w @ t) xs = (w @ t) @ u"
    using Cons by blast
  ultimately show ?case
    by simp
qed simp

lemma parses_if_old:
  "\<not> P \<Longrightarrow> parses q bs x \<Longrightarrow> parses (\<lambda>r. if P \<and> n \<le> remaining r then p r else q r) bs x"
  by simp

definition old_header_layout :: "block_header \<Rightarrow> bytes" where
  "old_header_layout h =
     le_bytes 4 (hdr_version h) @ le_bytes 8 (hdr_height h) @ prev_block_hash h @ merkle_root h
     @ le_bytes 8 (hdr_timestamp h) @ le_bytes 8 (hdr_nonce h) @ validator_pubkey h @ validator_signature h"

lemma serialize_old_header:
  "\<exists>q. serialize_header [] h = old_header_layout h @ count_layout (quorum_pubkeys h) @ q"
proof -
  have "\<exists>t. foldl (\<lambda>w i. if i < length (quorum_signatures h)
        then write_array (write_array w (quorum_pubkeys h ! i)) (quorum_signatures h ! i)
        else write_array (write_array w (quorum_pubkeys h ! i)) (replicate 64 0)) w is = w @ t" for w "is"
    by (rule foldl_extends) (simp add: writer_simps)
  from this [of "old_header_layout h @ count_layout (quorum_pubkeys h)"
      "[0..<length (quorum_pubkeys h)]"] show ?thesis
    unfolding serialize_header_def Let_def old_header_layout_def writer_simps write_count_eq
    by simp
qed

lemma parses_old_header:
  assumes "wire_header h" and "hdr_version h < 3"
  shows "parses deserialize_header (old_header_layout h) h"
proof -
  have "quorum_pubkeys h = []" "quorum_signatures h = []"
    using assms by (auto simp: wire_header_def)
  then show ?thesis
    unfolding deserialize_header_def old_header_layout_def using assms
    by (cases h) (clarsimp simp: wire_header_def,
        (rule parses_if_old parse_steps | simp add: not_le)+)
qed

text \<open>
  A header of a version before 3 does not survive serialization when it has a quorum:
  the writer emits the quorum for every version, the reader drops it and leaves at least
  the four bytes of its count in the input, where the reader of the block expects the
  count of transactions.
\<close>

theorem old_header_loses_quorum:
  assumes "wire_header (h\<lparr>quorum_pubkeys := [], quorum_signatures := []\<rparr>)" and "hdr_version h < 3"
  shows "\<exists>r. deserialize_header (new_reader (serialize_header [] h @ rest))
      = Inr (h\<lparr>quorum_pubkeys := [], quorum_signatures := []\<rparr>, r) \<and> 4 + length rest \<le> remaining r"
proof -
  let ?h = "h\<lparr>quorum_pubkeys := [], quorum_signatures := []\<rparr>"
  obtain q where q: "serialize_header [] h = old_header_layout ?h @ count_layout (quorum_pubkeys h) @ q"
    using serialize_old_header [of h] by (auto simp: old_header_layout_def)
  have "deserialize_header (reader_at [] (old_header_layout ?h @ count_layout (quorum_pubkeys h) @ q @ rest))
      = Inr (?h, reader_at (old_header_layout ?h) (count_layout (quorum_pubkeys h) @ q @ rest))"
    using parses_old_header [OF assms(1)] assms(2) by (simp add: parses_def)
  then show ?thesis
    by (simp add: q new_reader_at)
qed

theorem old_header_loses_quorum_witness:
  "\<exists>h r. quorum_pubkeys h \<noteq> [] \<and> deserialize_header (new_reader (serialize_header [] h))
     = Inr (h\<lparr>quorum_pubkeys := [], quorum_signatures := []\<rparr>, r) \<and> 4 \<le> remaining r"
proof -
  let ?h = "(header sample_block)\<lparr>hdr_version := 2\<rparr>"
  have "wire_header (?h\<lparr>quorum_pubkeys := [], quorum_signatures := []\<rparr>)" and "hdr_version ?h < 3"
    and "quorum_pubkeys ?h \<noteq> []"
    by (simp_all add: sample_block_def wire_header_def)
  then show ?thesis
    using old_header_loses_quorum [of ?h "[]"] by fastforce
qed

end
