(* ===== verification/Services.thy ===== *)
theory Services
  imports Doubles Blocks
begin

text \<open>
  What the network layer, the server, the wallet and the bindings share: the conversions of
  the standard library from text to numbers, the JSON library (nlohmann) and the HTTP
  library (httplib), which are not code of the repository and appear as records of
  functions, HTTP requests and replies as the handlers see them, and the copy of a decoded
  key into an array of 32 bytes.
\<close>

section \<open>Numbers in text\<close>

text \<open>
  \<^verbatim>\<open>std::stoull\<close> and \<^verbatim>\<open>std::stoul\<close> (64 bits on the supported platforms): white space is
  skipped, a sign is allowed and a minus negates modulo \<open>2 ^ 64\<close>, the digits end at the
  first other character; no digits at all and a magnitude that does not fit throw.
\<close>

definition is_space :: "char \<Rightarrow> bool" where
  "is_space c = (let n = (of_char c :: nat) in n = 32 \<or> 9 \<le> n \<and> n \<le> 13)"

definition is_digit :: "char \<Rightarrow> bool" where
  "is_digit c = (let n = (of_char c :: nat) in 48 \<le> n \<and> n \<le> 57)"

definition split_sign :: "string \<Rightarrow> bool \<times> string" where
  "split_sign s = (case s of [] \<Rightarrow> (False, [])
     | c # cs \<Rightarrow> if c = CHR ''-'' then (True, cs) else if c = CHR ''+'' then (False, cs) else (False, s))"

definition stoull :: "string \<Rightarrow> error + u64" where
  "stoull s =
     (case split_sign (dropWhile is_space s) of (negative, rest) \<Rightarrow>
        let digits = takeWhile is_digit rest; v = dec_value digits
        in if digits = [] then Inl (Service_error Number_missing)
           else if v \<ge> 2 ^ 64 then Inl (Service_error Number_out_of_range)
           else Inr (if negative then - of_nat v else of_nat v))"

text \<open>\<^verbatim>\<open>std::stoi\<close>, to a 32-bit \<^verbatim>\<open>int\<close>.\<close>

definition stoi :: "string \<Rightarrow> error + int" where
  "stoi s =
     (case split_sign (dropWhile is_space s) of (negative, rest) \<Rightarrow>
        let digits = takeWhile is_digit rest; v = int (dec_value digits); i = (if negative then - v else v)
        in if digits = [] then Inl (Service_error Number_missing)
           else if i < - (2 ^ 31) \<or> i \<ge> 2 ^ 31 then Inl (Service_error Number_out_of_range)
           else Inr i)"

text \<open>\<^verbatim>\<open>std::to_string\<close> of an \<^verbatim>\<open>int\<close>.\<close>

definition int_string :: "int \<Rightarrow> string" where
  "int_string i = (if i < 0 then ''-'' @ dec_string (nat (- i)) else dec_string (nat i))"

lemma is_digit_dec_string: "list_all is_digit (dec_string n)"
  using dec_string_digits [of n] by (auto simp: list_all_iff is_digit_def Let_def)

lemma dec_string_not_Nil [simp]: "dec_string n \<noteq> []"
  by (subst dec_string.simps) simp

lemma digit_no_space: "is_digit c \<Longrightarrow> \<not> is_space c \<and> c \<noteq> CHR ''-'' \<and> c \<noteq> CHR ''+''"
  by (auto simp: is_digit_def is_space_def Let_def)

lemma stoull_dec_string [simp]: "stoull (dec_string (unat (a :: u64))) = Inr a"
proof -
  let ?s = "dec_string (unat a)"
  obtain c cs where s: "?s = c # cs"
    by (cases ?s) simp_all
  have d: "is_digit c"
    using is_digit_dec_string [of "unat a"] by (simp add: s)
  have t: "takeWhile is_digit ?s = ?s"
    using is_digit_dec_string [of "unat a"] by (simp add: list_all_iff takeWhile_eq_all_conv)
  have "split_sign (dropWhile is_space ?s) = (False, ?s)"
    using digit_no_space [OF d] by (simp add: s split_sign_def)
  then show ?thesis
    using unat64_less [of a] by (simp add: stoull_def t Let_def del: unat64_less)
qed

section \<open>JSON\<close>

text \<open>
  Values \<open>'j\<close> and texts \<open>'t\<close>. A reader that throws on a value of another type returns
  \<open>None\<close>; so does \<open>js_parse\<close> on a text that is not JSON. \<open>js_items\<close> are the values a
  range-based \<^verbatim>\<open>for\<close> visits, \<open>js_int\<close> is the signed integer type.
\<close>

record ('j, 't) json_lib =
  js_parse :: "'t \<Rightarrow> 'j option"
  js_dump :: "'j \<Rightarrow> 't"
  js_is_object :: "'j \<Rightarrow> bool"
  js_is_array :: "'j \<Rightarrow> bool"
  js_is_string :: "'j \<Rightarrow> bool"
  js_find :: "'j \<Rightarrow> string \<Rightarrow> 'j option"
  js_items :: "'j \<Rightarrow> 'j list"
  js_get_string :: "'j \<Rightarrow> string option"
  js_get_u64 :: "'j \<Rightarrow> u64 option"
  js_get_u32 :: "'j \<Rightarrow> u32 option"
  js_get_double :: "'j \<Rightarrow> double option"
  js_string :: "string \<Rightarrow> 'j"
  js_u64 :: "u64 \<Rightarrow> 'j"
  js_int :: "int \<Rightarrow> 'j"
  js_bool :: "bool \<Rightarrow> 'j"
  js_double :: "double \<Rightarrow> 'j"
  js_array :: "'j list \<Rightarrow> 'j"
  js_object :: "(string \<times> 'j) list \<Rightarrow> 'j"

text \<open>\<^verbatim>\<open>json::parse\<close>, \<^verbatim>\<open>get<T>\<close>, \<^verbatim>\<open>at\<close>, \<^verbatim>\<open>contains\<close> and \<^verbatim>\<open>value\<close>.\<close>

definition json_some :: "'a option \<Rightarrow> error + 'a" where
  "json_some x = (case x of None \<Rightarrow> Inl (Service_error Json_failed) | Some y \<Rightarrow> Inr y)"

definition json_contains :: "('j, 't) json_lib \<Rightarrow> 'j \<Rightarrow> string \<Rightarrow> bool" where
  "json_contains J j k \<longleftrightarrow> js_is_object J j \<and> js_find J j k \<noteq> None"

definition json_at :: "('j, 't) json_lib \<Rightarrow> 'j \<Rightarrow> string \<Rightarrow> error + 'j" where
  "json_at J j k = (if js_is_object J j then json_some (js_find J j k) else Inl (Service_error Json_failed))"

definition json_value :: "('j, 't) json_lib \<Rightarrow> ('j \<Rightarrow> 'a option) \<Rightarrow> 'j \<Rightarrow> string \<Rightarrow> 'a \<Rightarrow> error + 'a" where
  "json_value J getter j k d =
     (if \<not> js_is_object J j then Inl (Service_error Json_failed)
      else case js_find J j k of None \<Rightarrow> Inr d | Some x \<Rightarrow> json_some (getter x))"

definition json_field :: "('j, 't) json_lib \<Rightarrow> ('j \<Rightarrow> 'a option) \<Rightarrow> 'j \<Rightarrow> string \<Rightarrow> error + 'a" where
  "json_field J getter j k = ebind (json_at J j k) (\<lambda>x. json_some (getter x))"

definition json_hex :: "('j, 't) json_lib \<Rightarrow> 'j \<Rightarrow> error + bytes" where
  "json_hex J x = ebind (json_some (js_get_string J x)) from_hex"

text \<open>
  The documented laws. Texts are those of the documents the sources write: ASCII strings,
  unsigned numbers, finite doubles, truth values, arrays, and objects with distinct keys.
\<close>

definition ascii :: "string \<Rightarrow> bool" where
  "ascii s \<longleftrightarrow> list_all (\<lambda>c. (of_char c :: nat) < 128) s"

inductive json_plain :: "('j, 't) json_lib \<Rightarrow> 'j \<Rightarrow> bool" for J where
  plain_string: "ascii s \<Longrightarrow> json_plain J (js_string J s)"
| plain_u64: "json_plain J (js_u64 J n)"
| plain_bool: "json_plain J (js_bool J b)"
| plain_double: "is_binary64 (Finite neg m e) \<Longrightarrow> json_plain J (js_double J (Finite neg m e))"
| plain_array: "(\<And>x. x \<in> set xs \<Longrightarrow> json_plain J x) \<Longrightarrow> json_plain J (js_array J xs)"
| plain_object: "distinct (map fst kvs) \<Longrightarrow> list_all (\<lambda>kv. ascii (fst kv)) kvs
    \<Longrightarrow> (\<And>kv. kv \<in> set kvs \<Longrightarrow> json_plain J (snd kv)) \<Longrightarrow> json_plain J (js_object J kvs)"

definition json_ok :: "('j, 't) json_lib \<Rightarrow> bool" where
  "json_ok J \<longleftrightarrow>
     (\<forall>j. json_plain J j \<longrightarrow> js_parse J (js_dump J j) = Some j)
   \<and> (\<forall>kvs. js_is_object J (js_object J kvs)
        \<and> (distinct (map fst kvs) \<longrightarrow> (\<forall>k. js_find J (js_object J kvs) k = map_of kvs k)))
   \<and> (\<forall>xs. js_is_array J (js_array J xs) \<and> js_items J (js_array J xs) = xs)
   \<and> (\<forall>s. js_is_string J (js_string J s) \<and> js_get_string J (js_string J s) = Some s)
   \<and> (\<forall>n. js_get_u64 J (js_u64 J n) = Some n)
   \<and> (\<forall>n. js_get_u32 J (js_u64 J (ucast n)) = Some n)
   \<and> (\<forall>d. is_binary64 d \<longrightarrow> js_get_double J (js_double J d) = Some d)"

lemma json_okD:
  assumes "json_ok J"
  shows "json_plain J j \<Longrightarrow> js_parse J (js_dump J j) = Some j"
    and "js_is_object J (js_object J kvs)"
    and "distinct (map fst kvs) \<Longrightarrow> js_find J (js_object J kvs) k = map_of kvs k"
    and "js_is_array J (js_array J xs)" and "js_items J (js_array J xs) = xs"
    and "js_is_string J (js_string J s)" and "js_get_string J (js_string J s) = Some s"
    and "js_get_u64 J (js_u64 J n) = Some n" and "js_get_u32 J (js_u64 J (ucast n32)) = Some n32"
    and "is_binary64 d \<Longrightarrow> js_get_double J (js_double J d) = Some d"
  using assms by (simp_all add: json_ok_def)

lemma json_object_simps:
  assumes "json_ok J" and "distinct (map fst kvs)"
  shows "json_contains J (js_object J kvs) k \<longleftrightarrow> map_of kvs k \<noteq> None"
    and "json_at J (js_object J kvs) k = json_some (map_of kvs k)"
    and "json_value J getter (js_object J kvs) k d
      = (case map_of kvs k of None \<Rightarrow> Inr d | Some x \<Rightarrow> json_some (getter x))"
    and "json_field J getter (js_object J kvs) k = ebind (json_some (map_of kvs k)) (\<lambda>x. json_some (getter x))"
  using json_okD(2) [OF assms(1)] json_okD(3) [OF assms]
  by (simp_all add: json_contains_def json_at_def json_value_def json_field_def)

lemma json_some_simps [simp]:
  "json_some (Some x) = Inr x" "json_some None = Inl (Service_error Json_failed)"
  by (simp_all add: json_some_def)

lemma json_some_eq_Inr [simp]: "json_some x = Inr y \<longleftrightarrow> x = Some y"
  by (cases x) simp_all

lemma ascii_hex: "ascii (to_hex bs)"
proof (induction bs)
  case (Cons b bs)
  have h: "list_all (\<lambda>n. (of_char (hex_digit n) :: nat) < 128) [0..<16]"
    by code_simp
  from Cons h show ?case
    by (simp add: ascii_def list_all_iff)
qed (simp add: ascii_def)

lemma json_hex_to_hex: "json_ok J \<Longrightarrow> json_hex J (js_string J (to_hex bs)) = Inr bs"
  by (simp add: json_hex_def json_okD)

section \<open>HTTP\<close>

text \<open>
  The outside world is a state \<open>'w\<close> that every exchange with a peer may change. A request
  gives the status and body of the reply, or \<open>None\<close> when there is none or the client could
  not be built. The platform also has the clock, the duration between two moments, and the
  order in which a hash table with the given keys is visited.
\<close>

record ('w, 't) platform =
  pf_post :: "'w \<Rightarrow> string \<Rightarrow> string \<Rightarrow> 't \<Rightarrow> 'w \<times> (nat \<times> 't) option"
  pf_get :: "'w \<Rightarrow> string \<Rightarrow> string \<Rightarrow> 'w \<times> (nat \<times> 't) option"
  pf_now :: "'w \<Rightarrow> u64"
  pf_elapsed_ms :: "'w \<Rightarrow> 'w \<Rightarrow> u32"
  pf_order :: "string list \<Rightarrow> string list"

definition visits_all :: "('w, 't) platform \<Rightarrow> bool" where
  "visits_all P \<longleftrightarrow> (\<forall>ks. set (pf_order P ks) = set ks \<and> (distinct ks \<longrightarrow> distinct (pf_order P ks)))"

text \<open>A request and a reply on the side of the server; the header of an absent name is empty.\<close>

record 't request =
  req_body :: 't
  req_params :: "string \<Rightarrow> string option"
  req_header :: "string \<Rightarrow> string"
  req_match :: string

record 't reply =
  reply_status :: nat
  reply_content :: 't

definition answer :: "('j, 't) json_lib \<Rightarrow> nat \<Rightarrow> (string \<times> 'j) list \<Rightarrow> 't reply" where
  "answer J status kvs = \<lparr>reply_status = status, reply_content = js_dump J (js_object J kvs)\<rparr>"

text \<open>\<^verbatim>\<open>catch (const std::exception& e)\<close> of the handlers; the text of the message is a parameter.\<close>

definition failed_with :: "('j, 't) json_lib \<Rightarrow> (error \<Rightarrow> string) \<Rightarrow> error \<Rightarrow> 't reply" where
  "failed_with J what e = answer J 400 [(''error'', js_string J (what e))]"

section \<open>Keys\<close>

text \<open>
  \<^verbatim>\<open>std::memcpy(key.data(), bytes.data(), 32)\<close> without a check of the length: reading past
  the end of a shorter vector is undefined, which the model reports as an error of its own.
\<close>

definition copy_key :: "bytes \<Rightarrow> error + bytes" where
  "copy_key bs = (if length bs < 32 then Inl (Service_error Read_past_end) else Inr (take 32 bs))"

definition checked_key :: "service_error \<Rightarrow> bytes \<Rightarrow> error + bytes" where
  "checked_key e bs = (if length bs \<noteq> 32 then Inl (Service_error e) else Inr bs)"

text \<open>The loops of the sources that decode each element of a list, stopping at the first error.\<close>

fun each :: "('a \<Rightarrow> error + 'b) \<Rightarrow> 'a list \<Rightarrow> error + 'b list" where
  "each f [] = Inr []"
| "each f (x # xs) = ebind (f x) (\<lambda>y. ebind (each f xs) (\<lambda>ys. Inr (y # ys)))"

lemma each_map: "(\<And>x. x \<in> set xs \<Longrightarrow> f (g x) = Inr x) \<Longrightarrow> each f (map g xs) = Inr xs"
  by (induction xs) simp_all

lemma each_Inr: "each f xs = Inr ys \<Longrightarrow> length ys = length xs \<and> (\<forall>y \<in> set ys. \<exists>x \<in> set xs. f x = Inr y)"
  by (induction xs arbitrary: ys) (fastforce elim!: ebind_Inr_E)+

section \<open>A reference instance\<close>

text \<open>JSON values as trees, and texts that are the values themselves.\<close>

datatype toy_json =
    Toy_string string | Toy_u64 u64 | Toy_int int | Toy_bool bool | Toy_double double
  | Toy_array "toy_json list" | Toy_object "(string \<times> toy_json) list"

definition toy_json_lib :: "(toy_json, toy_json) json_lib" where
  "toy_json_lib =
     \<lparr>js_parse = Some, js_dump = (\<lambda>j. j),
      js_is_object = (\<lambda>j. case j of Toy_object _ \<Rightarrow> True | _ \<Rightarrow> False),
      js_is_array = (\<lambda>j. case j of Toy_array _ \<Rightarrow> True | _ \<Rightarrow> False),
      js_is_string = (\<lambda>j. case j of Toy_string _ \<Rightarrow> True | _ \<Rightarrow> False),
      js_find = (\<lambda>j k. case j of Toy_object kvs \<Rightarrow> map_of kvs k | _ \<Rightarrow> None),
      js_items = (\<lambda>j. case j of Toy_array xs \<Rightarrow> xs | Toy_object kvs \<Rightarrow> map snd kvs | _ \<Rightarrow> [j]),
      js_get_string = (\<lambda>j. case j of Toy_string s \<Rightarrow> Some s | _ \<Rightarrow> None),
      js_get_u64 = (\<lambda>j. case j of Toy_u64 n \<Rightarrow> Some n | _ \<Rightarrow> None),
      js_get_u32 = (\<lambda>j. case j of Toy_u64 n \<Rightarrow> Some (ucast n) | _ \<Rightarrow> None),
      js_get_double = (\<lambda>j. case j of Toy_double d \<Rightarrow> Some d | _ \<Rightarrow> None),
      js_string = Toy_string, js_u64 = Toy_u64, js_int = Toy_int, js_bool = Toy_bool,
      js_double = Toy_double, js_array = Toy_array, js_object = Toy_object\<rparr>"

lemma toy_json_simps [simp]:
  "js_parse toy_json_lib t = Some t" "js_dump toy_json_lib j = j"
  "js_is_object toy_json_lib j = (case j of Toy_object _ \<Rightarrow> True | _ \<Rightarrow> False)"
  "js_is_array toy_json_lib j = (case j of Toy_array _ \<Rightarrow> True | _ \<Rightarrow> False)"
  "js_is_string toy_json_lib j = (case j of Toy_string _ \<Rightarrow> True | _ \<Rightarrow> False)"
  "js_find toy_json_lib j k = (case j of Toy_object kvs \<Rightarrow> map_of kvs k | _ \<Rightarrow> None)"
  "js_items toy_json_lib j = (case j of Toy_array xs \<Rightarrow> xs | Toy_object kvs \<Rightarrow> map snd kvs | _ \<Rightarrow> [j])"
  "js_get_string toy_json_lib j = (case j of Toy_string s \<Rightarrow> Some s | _ \<Rightarrow> None)"
  "js_get_u64 toy_json_lib j = (case j of Toy_u64 n \<Rightarrow> Some n | _ \<Rightarrow> None)"
  "js_get_u32 toy_json_lib j = (case j of Toy_u64 n \<Rightarrow> Some (ucast n) | _ \<Rightarrow> None)"
  "js_get_double toy_json_lib j = (case j of Toy_double d \<Rightarrow> Some d | _ \<Rightarrow> None)"
  "js_string toy_json_lib = Toy_string" "js_u64 toy_json_lib = Toy_u64" "js_int toy_json_lib = Toy_int"
  "js_bool toy_json_lib = Toy_bool" "js_double toy_json_lib = Toy_double"
  "js_array toy_json_lib = Toy_array" "js_object toy_json_lib = Toy_object"
  by (simp_all add: toy_json_lib_def)

lemma toy_json_ok: "json_ok toy_json_lib"
proof -
  have "ucast (ucast (n :: u32) :: u64) = n" for n
  proof -
    have "unat n < 4294967296" and "unat n < 18446744073709551616"
      using unat32_less [of n] by (simp_all del: unat32_less)
    then show ?thesis
      by (simp add: word_unat_eq_iff unat_ucast del: unat32_less)
  qed
  then show ?thesis
    by (simp add: json_ok_def)
qed

end
