(* ===== verification/Merkle.thy ===== *)
theory Merkle
  imports Blocks
begin

text \<open>
  Model of \<^verbatim>\<open>Block::compute_merkle_root\<close> and \<^verbatim>\<open>Block::create_genesis\<close> in \<^verbatim>\<open>src/block.cpp\<close>:
  the leaves of a block, the levels of the tree, and what a root commits to. A collision
  is always exhibited among the finitely many strings that the two computations hash.
\<close>

section \<open>Leaves\<close>

definition output_leaf_input :: "one_time_output \<Rightarrow> bytes" where
  "output_leaf_input out =
     write_u64 (write_array (write_array [] (ephemeral_public_key out)) (destination_one_time out))
       (out_amount out)"

definition deposit_leaf_input :: "one_time_output list \<Rightarrow> nat \<Rightarrow> deposit_receipt \<Rightarrow> error + bytes" where
  "deposit_leaf_input outs i dep =
     ebind (write_string [] (dep_tx_hash dep)) (\<lambda>w.
     let w = write_u64 w (dep_gross_usdt_deposited dep);
         w = write_u64 w (dep_fee_to_pool dep);
         w = write_u64 w (dep_net_shielded_tokens_minted dep);
         w = write_array w (dep_recipient_view_pub dep);
         w = write_array w (dep_recipient_spend_pub dep)
     in Inr (if i < length outs
             then write_u64 (write_array (write_array w (ephemeral_public_key (outs ! i)))
                    (destination_one_time (outs ! i))) (out_amount (outs ! i))
             else w))"

definition withdrawal_leaf_input :: "withdrawal_receipt \<Rightarrow> error + bytes" where
  "withdrawal_leaf_input wdr =
     ebind (write_string [] (wdr_order_id wdr)) (\<lambda>w.
     let w = write_u64 w (wdr_gross_tokens_burned wdr);
         w = write_u64 w (wdr_fee_to_pool wdr);
         w = write_u64 w (wdr_net_usdt_to_tumble wdr)
     in ebind (write_string w (wdr_destination_address wdr)) (\<lambda>w.
     let w = write_array w (wdr_key_image wdr);
         w = write_array w (wdr_burned_utxo_pubkey wdr);
         w = write_array w (wdr_burn_signature_c0 wdr)
     in Inr (write_array w (wdr_burn_signature_s wdr))))"

text \<open>The loops that push one leaf for each element; the deposits count from \<open>i\<close>.\<close>

fun deposit_leaves ::
  "sodium \<Rightarrow> one_time_output list \<Rightarrow> nat \<Rightarrow> deposit_receipt list \<Rightarrow> error + bytes list" where
  "deposit_leaves S outs i [] = Inr []"
| "deposit_leaves S outs i (dep # deps) =
     ebind (deposit_leaf_input outs i dep) (\<lambda>m.
     ebind (deposit_leaves S outs (Suc i) deps) (\<lambda>ls. Inr (generichash S 32 m [] # ls)))"

fun withdrawal_leaves :: "sodium \<Rightarrow> withdrawal_receipt list \<Rightarrow> error + bytes list" where
  "withdrawal_leaves S [] = Inr []"
| "withdrawal_leaves S (wdr # wdrs) =
     ebind (withdrawal_leaf_input wdr) (\<lambda>m.
     ebind (withdrawal_leaves S wdrs) (\<lambda>ls. Inr (generichash S 32 m [] # ls)))"

definition block_leaves :: "sodium \<Rightarrow> block \<Rightarrow> error + bytes list" where
  "block_leaves S b =
     ebind (deposit_leaves S (deposit_outputs b) 0 (deposits b)) (\<lambda>ds.
     ebind (withdrawal_leaves S (withdrawals b)) (\<lambda>ws.
     Inr (map tx_hash (txs b) @ ds @ ws
          @ map (\<lambda>out. generichash S 32 (output_leaf_input out) []) (withdrawal_outputs b))))"

section \<open>Levels\<close>

fun merkle_level :: "sodium \<Rightarrow> bytes list \<Rightarrow> bytes list" where
  "merkle_level S [] = []"
| "merkle_level S [a] = [generichash S 32 (a @ a) []]"
| "merkle_level S (a # b # rest) = generichash S 32 (a @ b) [] # merkle_level S rest"

lemma length_merkle_level: "length (merkle_level S xs) = (length xs + 1) div 2"
  by (induction S xs rule: merkle_level.induct) simp_all

text \<open>The \<^verbatim>\<open>while (current.size() > 1)\<close> loop; each level is shorter.\<close>

function merkle_loop :: "sodium \<Rightarrow> bytes list \<Rightarrow> bytes list" where
  "merkle_loop S current =
     (if length current > 1 then merkle_loop S (merkle_level S current) else current)"
  by auto
termination
  by (relation "measure (\<lambda>(S, current). length current)") (auto simp: length_merkle_level)

declare merkle_loop.simps [simp del]

definition merkle_root_of :: "sodium \<Rightarrow> bytes list \<Rightarrow> bytes" where
  "merkle_root_of S leaves =
     (if leaves = [] then replicate 32 0 else merkle_loop S leaves ! 0)"

definition compute_merkle_root :: "sodium \<Rightarrow> block \<Rightarrow> error + bytes" where
  "compute_merkle_root S b = ebind (block_leaves S b) (\<lambda>leaves. Inr (merkle_root_of S leaves))"

definition default_header :: block_header where
  "default_header =
     \<lparr>hdr_version = PROTOCOL_VERSION, hdr_height = 0, prev_block_hash = zero_key,
      merkle_root = zero_key, hdr_timestamp = 0, hdr_nonce = 0, validator_pubkey = zero_key,
      validator_signature = replicate 64 0, quorum_pubkeys = [], quorum_signatures = []\<rparr>"

definition empty_block :: block where
  "empty_block = \<lparr>header = default_header, txs = [], deposits = [], withdrawals = [],
     deposit_outputs = [], withdrawal_outputs = []\<rparr>"

definition create_genesis :: "sodium \<Rightarrow> error + block" where
  "create_genesis S =
     (let genesis = empty_block\<lparr>header := default_header
            \<lparr>hdr_height := 0, prev_block_hash := replicate 32 0, hdr_timestamp := 1773273600,
             hdr_nonce := 0x47454E45534953\<rparr>\<rparr>
      in ebind (compute_merkle_root S genesis) (\<lambda>root.
         Inr (genesis\<lparr>header := (header genesis)\<lparr>merkle_root := root\<rparr>\<rparr>)))"

section \<open>What a root commits to\<close>

text \<open>The strings hashed above the leaves.\<close>

fun level_inputs :: "bytes list \<Rightarrow> bytes list" where
  "level_inputs [] = []"
| "level_inputs [a] = [a @ a]"
| "level_inputs (a # b # rest) = (a @ b) # level_inputs rest"

function merkle_inputs :: "sodium \<Rightarrow> bytes list \<Rightarrow> bytes list" where
  "merkle_inputs S current =
     (if length current > 1 then level_inputs current @ merkle_inputs S (merkle_level S current) else [])"
  by auto
termination
  by (relation "measure (\<lambda>(S, current). length current)") (auto simp: length_merkle_level)

declare merkle_inputs.simps [simp del]

definition collision :: "sodium \<Rightarrow> bytes set \<Rightarrow> bytes set \<Rightarrow> bool" where
  "collision S A B \<longleftrightarrow>
     (\<exists>x \<in> A. \<exists>y \<in> B. x \<noteq> y \<and> generichash S 32 x [] = generichash S 32 y [])"

definition hashes_32 :: "sodium \<Rightarrow> bool" where
  "hashes_32 S \<longleftrightarrow> (\<forall>m. length (generichash S 32 m []) = 32)"

lemma collision_mono: "collision S A B \<Longrightarrow> A \<subseteq> C \<Longrightarrow> B \<subseteq> D \<Longrightarrow> collision S C D"
  by (auto simp: collision_def)

lemma merkle_level_map: "merkle_level S xs = map (\<lambda>m. generichash S 32 m []) (level_inputs xs)"
  by (induction xs rule: level_inputs.induct) simp_all

lemma level_inputs_inject:
  "\<forall>x \<in> set xs. length x = 32 \<Longrightarrow> \<forall>y \<in> set ys. length y = 32 \<Longrightarrow> length xs = length ys
   \<Longrightarrow> level_inputs xs = level_inputs ys \<Longrightarrow> xs = ys"
proof (induction xs arbitrary: ys rule: level_inputs.induct)
  case (2 a)
  from "2.prems"(3) obtain c where ys: "ys = [c]"
    by (cases ys) auto
  have "length a = length c"
    using "2.prems"(1,2) ys by simp
  moreover have "a @ a = c @ c"
    using "2.prems"(4) ys by simp
  ultimately show ?case
    using ys by simp
next
  case (3 a b rest)
  from "3.prems"(3) obtain c d rest' where ys: "ys = c # d # rest'"
    by (cases ys; cases "tl ys") auto
  have "length a = length c"
    using "3.prems"(1,2) ys by simp
  moreover have "a @ b = c @ d" and rest: "level_inputs rest = level_inputs rest'"
    using "3.prems"(4) ys by simp_all
  ultimately have "a = c" and "b = d"
    by simp_all
  moreover have "rest = rest'"
    by (rule "3.IH") (use "3.prems" ys rest in simp_all)
  ultimately show ?case
    using ys by simp
qed simp

lemma map_hash_collision:
  assumes "map (\<lambda>m. generichash S 32 m []) xs = map (\<lambda>m. generichash S 32 m []) ys" and "xs \<noteq> ys"
  shows "collision S (set xs) (set ys)"
proof -
  have len: "length xs = length ys"
    using assms(1) map_eq_imp_length_eq by blast
  with assms(2) obtain i where i: "i < length xs" and "xs ! i \<noteq> ys ! i"
    by (metis nth_equalityI)
  moreover have "generichash S 32 (xs ! i) [] = generichash S 32 (ys ! i) []"
    using assms(1) i len by (metis nth_map)
  ultimately show ?thesis
    using len unfolding collision_def by (metis nth_mem)
qed

lemma merkle_level_32: "hashes_32 S \<Longrightarrow> \<forall>x \<in> set (merkle_level S xs). length x = 32"
  by (auto simp: merkle_level_map hashes_32_def)

lemma merkle_loop_binds:
  assumes "hashes_32 S" and "\<forall>x \<in> set xs. length x = 32" and "\<forall>y \<in> set ys. length y = 32"
    and "length xs = length ys" and "merkle_loop S xs = merkle_loop S ys" and "xs \<noteq> ys"
  shows "collision S (set (merkle_inputs S xs)) (set (merkle_inputs S ys))"
  using assms
proof (induction S xs arbitrary: ys rule: merkle_loop.induct)
  case (1 S xs)
  note prems = "1.prems"
  show ?case
  proof (cases "length xs > 1")
    case False
    then have "merkle_loop S xs = xs" and "merkle_loop S ys = ys"
      using prems(4) by (simp_all add: merkle_loop.simps [of _ xs] merkle_loop.simps [of _ ys])
    with prems(5,6) show ?thesis
      by simp
  next
    case True
    then have True': "length ys > 1"
      using prems(4) by simp
    note step = merkle_inputs.simps [of S xs, unfolded if_P [OF True]]
      merkle_inputs.simps [of S ys, unfolded if_P [OF True']]
    note up = merkle_loop.simps [of S xs, unfolded if_P [OF True]]
      merkle_loop.simps [of S ys, unfolded if_P [OF True']]
    show ?thesis
    proof (cases "merkle_level S xs = merkle_level S ys")
      case same: True
      have "level_inputs xs \<noteq> level_inputs ys"
        using level_inputs_inject prems(2-4,6) by blast
      with same have "collision S (set (level_inputs xs)) (set (level_inputs ys))"
        by (intro map_hash_collision) (simp_all add: merkle_level_map)
      then show ?thesis
        by (rule collision_mono) (simp_all add: step)
    next
      case False
      have "collision S (set (merkle_inputs S (merkle_level S xs))) (set (merkle_inputs S (merkle_level S ys)))"
        by (rule "1.IH" [OF True prems(1) merkle_level_32 merkle_level_32 _ _ False])
           (use prems up in \<open>simp_all add: length_merkle_level\<close>)
      then show ?thesis
        by (rule collision_mono) (simp_all add: step)
    qed
  qed
qed

section \<open>The leaves of a block\<close>

definition deposit_leaf :: "deposit_receipt \<Rightarrow> one_time_output \<Rightarrow> bytes" where
  "deposit_leaf dep out =
     string_layout (dep_tx_hash dep) @ le_bytes 8 (dep_gross_usdt_deposited dep)
     @ le_bytes 8 (dep_fee_to_pool dep) @ le_bytes 8 (dep_net_shielded_tokens_minted dep)
     @ dep_recipient_view_pub dep @ dep_recipient_spend_pub dep @ output_layout out"

definition withdrawal_leaf :: "withdrawal_receipt \<Rightarrow> bytes" where
  "withdrawal_leaf wdr =
     string_layout (wdr_order_id wdr) @ le_bytes 8 (wdr_gross_tokens_burned wdr)
     @ le_bytes 8 (wdr_fee_to_pool wdr) @ le_bytes 8 (wdr_net_usdt_to_tumble wdr)
     @ string_layout (wdr_destination_address wdr) @ wdr_key_image wdr @ wdr_burned_utxo_pubkey wdr
     @ wdr_burn_signature_c0 wdr @ wdr_burn_signature_s wdr"

definition leaf_inputs :: "block \<Rightarrow> bytes list" where
  "leaf_inputs b =
     map (\<lambda>(dep, out). deposit_leaf dep out) (zip (deposits b) (deposit_outputs b))
     @ map withdrawal_leaf (withdrawals b) @ map output_layout (withdrawal_outputs b)"

definition hashed_inputs :: "sodium \<Rightarrow> block \<Rightarrow> bytes set" where
  "hashed_inputs S b = set (leaf_inputs b)
     \<union> set (merkle_inputs S (map tx_hash (txs b) @ map (\<lambda>m. generichash S 32 m []) (leaf_inputs b)))"

lemma le64_inject: "le_bytes 8 (a :: u64) = le_bytes 8 b \<longleftrightarrow> a = b"
  by (rule le_bytes_inject)

lemma output_layout_inject:
  assumes "output_ok x" and "output_ok y"
  shows "output_layout x = output_layout y \<longleftrightarrow> x = y"
  using assms by (cases x; cases y) (auto simp: output_ok_def output_layout_def le64_inject)

lemma string_layout_inject:
  assumes "length s \<le> MAX_SERIALIZED_STRING_BYTES" and "length t \<le> MAX_SERIALIZED_STRING_BYTES"
  shows "string_layout s @ xs = string_layout t @ ys \<longleftrightarrow> s = t \<and> xs = ys"
  using string_codec.encode_prefix_free [OF assms, of xs ys] by auto

lemma deposit_leaf_inject:
  assumes "wire_deposit d" and "wire_deposit e" and "output_ok x" and "output_ok y"
  shows "deposit_leaf d x = deposit_leaf e y \<longleftrightarrow> d = e \<and> x = y"
  using assms
  by (cases d; cases e)
     (auto simp: deposit_leaf_def wire_deposit_def string_layout_inject le64_inject output_layout_inject)

text \<open>The change key of a withdrawal is not part of its leaf.\<close>

definition without_change :: "withdrawal_receipt \<Rightarrow> withdrawal_receipt" where
  "without_change wdr = wdr\<lparr>wdr_change_output_pubkey := zero_key\<rparr>"

lemma withdrawal_leaf_inject:
  assumes "wire_withdrawal v" and "wire_withdrawal w"
  shows "withdrawal_leaf v = withdrawal_leaf w \<longleftrightarrow>
    without_change v = without_change w"
  using assms string_layout_inject [where xs = "[]" and ys = "[]"]
  by (cases v; cases w)
     (auto simp: withdrawal_leaf_def wire_withdrawal_def string_layout_inject le64_inject
       without_change_def)

lemma deposit_leaf_input_eq:
  assumes "wire_deposit dep" and "i < length outs"
  shows "deposit_leaf_input outs i dep = Inr (deposit_leaf dep (outs ! i))"
  using assms
  by (simp add: deposit_leaf_input_def wire_deposit_def write_string_fits writer_simps Let_def
      deposit_leaf_def output_layout_def)

lemma deposit_leaves_eq:
  "\<forall>d \<in> set deps. wire_deposit d \<Longrightarrow> length outs = i + length deps \<Longrightarrow>
   deposit_leaves S outs i deps = Inr (map (\<lambda>m. generichash S 32 m [])
     (map (\<lambda>(dep, out). deposit_leaf dep out) (zip deps (drop i outs))))"
proof (induction deps arbitrary: i)
  case (Cons d deps)
  have "drop i outs = outs ! i # drop (Suc i) outs"
    using Cons.prems(2) by (simp add: Cons_nth_drop_Suc)
  with Cons show ?case
    by (simp add: deposit_leaf_input_eq)
qed simp

lemma withdrawal_leaf_input_eq:
  "wire_withdrawal wdr \<Longrightarrow> withdrawal_leaf_input wdr = Inr (withdrawal_leaf wdr)"
  by (simp add: withdrawal_leaf_input_def wire_withdrawal_def write_string_fits writer_simps Let_def
      withdrawal_leaf_def)

lemma withdrawal_leaves_eq:
  "\<forall>w \<in> set wdrs. wire_withdrawal w \<Longrightarrow> withdrawal_leaves S wdrs
     = Inr (map (\<lambda>m. generichash S 32 m []) (map withdrawal_leaf wdrs))"
  by (induction wdrs) (simp_all add: withdrawal_leaf_input_eq)

lemma output_leaf_input_eq: "output_leaf_input out = output_layout out"
  by (simp add: output_leaf_input_def output_layout_def writer_simps)

lemma block_leaves_eq:
  assumes "wire_block S b" and "length (deposit_outputs b) = length (deposits b)"
  shows "block_leaves S b
    = Inr (map tx_hash (txs b) @ map (\<lambda>m. generichash S 32 m []) (leaf_inputs b))"
proof -
  have "\<forall>d \<in> set (deposits b). wire_deposit d" and "\<forall>w \<in> set (withdrawals b). wire_withdrawal w"
    using assms(1) by (simp_all add: wire_block_def list_all_iff)
  then show ?thesis
    using deposit_leaves_eq [of "deposits b" "deposit_outputs b" 0 S] assms(2)
    by (simp add: block_leaves_def withdrawal_leaves_eq leaf_inputs_def output_leaf_input_eq comp_def)
qed

text \<open>The shape of a block: how many leaves of each kind.\<close>

definition same_shape :: "block \<Rightarrow> block \<Rightarrow> bool" where
  "same_shape a b \<longleftrightarrow>
     length (txs a) = length (txs b) \<and> length (deposits a) = length (deposits b)
   \<and> length (withdrawals a) = length (withdrawals b)
   \<and> length (withdrawal_outputs a) = length (withdrawal_outputs b)
   \<and> length (deposit_outputs a) = length (deposits a)
   \<and> length (deposit_outputs b) = length (deposits b)"

definition same_contents :: "block \<Rightarrow> block \<Rightarrow> bool" where
  "same_contents a b \<longleftrightarrow>
     map tx_hash (txs a) = map tx_hash (txs b) \<and> deposits a = deposits b
   \<and> deposit_outputs a = deposit_outputs b \<and> withdrawal_outputs a = withdrawal_outputs b
   \<and> map without_change (withdrawals a) = map without_change (withdrawals b)"

lemma map2_deposit_leaf_inject:
  assumes "length ds = length es" and "length xs = length ds" and "length ys = length es"
    and "\<forall>d \<in> set ds. wire_deposit d" and "\<forall>d \<in> set es. wire_deposit d"
    and "\<forall>d \<in> set xs. output_ok d" and "\<forall>d \<in> set ys. output_ok d"
    and "map (\<lambda>(dep, out). deposit_leaf dep out) (zip ds xs) = map (\<lambda>(dep, out). deposit_leaf dep out) (zip es ys)"
  shows "ds = es \<and> xs = ys"
  using assms
proof (induction ds es arbitrary: xs ys rule: list_induct2)
  case (Cons d ds e es)
  then obtain x xs' y ys' where "xs = x # xs'" and "ys = y # ys'"
    by (cases xs; cases ys) auto
  with Cons.prems Cons.IH [of xs' ys'] show ?case
    by (simp add: deposit_leaf_inject)
qed simp

lemma map_withdrawal_leaf_inject:
  assumes "\<forall>v \<in> set vs. wire_withdrawal v" and "\<forall>w \<in> set ws. wire_withdrawal w"
    and "map withdrawal_leaf vs = map withdrawal_leaf ws"
  shows "map without_change vs = map without_change ws"
proof -
  have "length vs = length ws"
    using assms(3) by (rule map_eq_imp_length_eq)
  then show ?thesis
    using assms by (induction vs ws rule: list_induct2) (simp_all add: withdrawal_leaf_inject)
qed

lemma map_output_layout_inject:
  assumes "\<forall>v \<in> set vs. output_ok v" and "\<forall>w \<in> set ws. output_ok w"
    and "map output_layout vs = map output_layout ws"
  shows "vs = ws"
proof -
  have "length vs = length ws"
    using assms(3) by (rule map_eq_imp_length_eq)
  then show ?thesis
    using assms by (induction vs ws rule: list_induct2) (simp_all add: output_layout_inject)
qed

lemma wire_block_parts:
  assumes "wire_block S b"
  shows "\<forall>t \<in> set (txs b). length (tx_hash t) = 32" and "\<forall>d \<in> set (deposits b). wire_deposit d"
    and "\<forall>w \<in> set (withdrawals b). wire_withdrawal w" and "\<forall>x \<in> set (deposit_outputs b). output_ok x"
    and "\<forall>x \<in> set (withdrawal_outputs b). output_ok x"
  using assms by (auto simp: wire_block_def list_all_iff wire_tx_def wire_output_def)

lemma leaf_inputs_inject:
  assumes "wire_block S a" and "wire_block S b" and "same_shape a b"
    and "leaf_inputs a = leaf_inputs b"
  shows "deposits a = deposits b \<and> deposit_outputs a = deposit_outputs b
    \<and> map without_change (withdrawals a) = map without_change (withdrawals b)
    \<and> withdrawal_outputs a = withdrawal_outputs b"
proof -
  note A = wire_block_parts [OF assms(1)] and B = wire_block_parts [OF assms(2)]
  from assms(3,4) have d: "map (\<lambda>(dep, out). deposit_leaf dep out) (zip (deposits a) (deposit_outputs a))
       = map (\<lambda>(dep, out). deposit_leaf dep out) (zip (deposits b) (deposit_outputs b))"
    and w: "map withdrawal_leaf (withdrawals a) = map withdrawal_leaf (withdrawals b)"
    and o: "map output_layout (withdrawal_outputs a) = map output_layout (withdrawal_outputs b)"
    by (simp_all add: leaf_inputs_def same_shape_def)
  have "deposits a = deposits b \<and> deposit_outputs a = deposit_outputs b"
    by (rule map2_deposit_leaf_inject [OF _ _ _ A(2) B(2) A(4) B(4) d])
       (use assms(3) in \<open>simp_all add: same_shape_def\<close>)
  then show ?thesis
    using map_withdrawal_leaf_inject [OF A(3) B(3) w] map_output_layout_inject [OF A(5) B(5) o]
    by simp
qed

lemma merkle_loop_single: "xs \<noteq> [] \<Longrightarrow> \<exists>r. merkle_loop S xs = [r]"
proof (induction S xs rule: merkle_loop.induct)
  case (1 S xs)
  show ?case
  proof (cases "length xs > 1")
    case True
    then have "merkle_level S xs \<noteq> []"
      using length_merkle_level [of S xs] by auto
    with True "1.IH" show ?thesis
      by (simp add: merkle_loop.simps [of _ xs])
  next
    case False
    with "1.prems" show ?thesis
      by (cases xs) (auto simp: merkle_loop.simps)
  qed
qed

lemma root_binds_contents:
  assumes "hashes_32 S" and "wire_block S a" and "wire_block S b" and "same_shape a b"
    and "compute_merkle_root S a = compute_merkle_root S b"
  shows "same_contents a b \<or> collision S (hashed_inputs S a) (hashed_inputs S b)"
proof -
  let ?H = "\<lambda>m. generichash S 32 m []"
  let ?la = "map tx_hash (txs a) @ map ?H (leaf_inputs a)"
  let ?lb = "map tx_hash (txs b) @ map ?H (leaf_inputs b)"
  have len: "length ?la = length ?lb"
    using assms(4) by (simp add: leaf_inputs_def same_shape_def)
  have leaves: "block_leaves S a = Inr ?la" "block_leaves S b = Inr ?lb"
    using assms(2-4) by (simp_all add: block_leaves_eq same_shape_def)
  have l32: "\<forall>x \<in> set ?la. length x = 32" "\<forall>x \<in> set ?lb. length x = 32"
    using wire_block_parts(1) [OF assms(2)] wire_block_parts(1) [OF assms(3)] assms(1)
    by (auto simp: hashes_32_def)
  consider (same) "?la = ?lb" | (diff) "?la \<noteq> ?lb"
    by blast
  then show ?thesis
  proof cases
    case diff
    with len have ne: "?la \<noteq> []" "?lb \<noteq> []"
      by force+
    have "merkle_loop S ?la ! 0 = merkle_loop S ?lb ! 0"
      using assms(5) ne by (simp only: compute_merkle_root_def leaves ebind_simps merkle_root_of_def
          if_False sum.inject)
    then have "merkle_loop S ?la = merkle_loop S ?lb"
      using ne by (metis merkle_loop_single list.sel(1) nth_Cons_0)
    from merkle_loop_binds [OF assms(1) l32 len this diff] show ?thesis
      by (intro disjI2) (rule collision_mono, auto simp: hashed_inputs_def)
  next
    case same
    then have tx: "map tx_hash (txs a) = map tx_hash (txs b)"
      and ls: "map ?H (leaf_inputs a) = map ?H (leaf_inputs b)"
      using assms(4) by (simp_all add: same_shape_def)
    show ?thesis
    proof (cases "leaf_inputs a = leaf_inputs b")
      case True
      with leaf_inputs_inject [OF assms(2-4)] tx show ?thesis
        by (simp add: same_contents_def)
    next
      case False
      from map_hash_collision [OF ls False] show ?thesis
        by (intro disjI2) (rule collision_mono, auto simp: hashed_inputs_def)
    qed
  qed
qed

section \<open>Balanced trees\<close>

lemma merkle_level_append:
  "even (length xs) \<Longrightarrow> merkle_level S (xs @ ys) = merkle_level S xs @ merkle_level S ys"
  by (induction S xs rule: merkle_level.induct) simp_all

lemma merkle_root_single: "merkle_root_of S [a] = a"
  by (simp add: merkle_root_of_def merkle_loop.simps)

lemma merkle_loop_halves:
  assumes "length xs = 2 ^ k" and "length ys = 2 ^ k"
  shows "merkle_loop S (xs @ ys)
    = [generichash S 32 (merkle_loop S xs ! 0 @ merkle_loop S ys ! 0) []]"
  using assms
proof (induction k arbitrary: xs ys)
  case 0
  then obtain a b where "xs = [a]" and "ys = [b]"
    by (auto simp: length_Suc_conv)
  then show ?case
    by (simp add: merkle_loop.simps)
next
  case (Suc k)
  obtain m where "(2 :: nat) ^ k = Suc m"
    by (cases "(2 :: nat) ^ k") auto
  with Suc.prems have long: "length xs > 1" "length ys > 1" "length (xs @ ys) > 1"
    by simp_all
  note up = merkle_loop.simps [of S xs, unfolded if_P [OF long(1)]]
    merkle_loop.simps [of S ys, unfolded if_P [OF long(2)]]
    merkle_loop.simps [of S "xs @ ys", unfolded if_P [OF long(3)]]
  have "merkle_loop S (xs @ ys) = merkle_loop S (merkle_level S xs @ merkle_level S ys)"
    using Suc.prems(1) by (simp only: up(3)) (simp add: merkle_level_append)
  also have "\<dots> = [generichash S 32 (merkle_loop S (merkle_level S xs) ! 0
      @ merkle_loop S (merkle_level S ys) ! 0) []]"
    using Suc.prems by (intro Suc.IH) (simp_all add: length_merkle_level)
  finally show ?case
    by (simp only: up)
qed

section \<open>Properties\<close>



text \<open>
  The root does not commit to the number of leaves: a level of odd length pairs its
  last hash with itself, so a block whose last leaf is repeated has the same root as the
  block without the repetition.
\<close>

theorem merkle_duplicate_leaf: "merkle_root_of S [a, b, c] = merkle_root_of S [a, b, c, c]"
  by (simp add: merkle_root_of_def merkle_loop.simps)

text \<open>
  The levels build the balanced tree: the root over two lists of the same power of two
  of leaves is the hash of the two roots, and a single leaf is its own root.
\<close>

theorem merkle_root_of_halves:
  assumes "length xs = 2 ^ k" and "length ys = 2 ^ k"
  shows "merkle_root_of S (xs @ ys)
      = generichash S 32 (merkle_root_of S xs @ merkle_root_of S ys) []
    \<and> merkle_root_of S [a] = a"
  using merkle_loop_halves [OF assms, of S] assms merkle_root_single
  by (auto simp: merkle_root_of_def)

theorem merkle_root_of_halves_witness:
  "merkle_root_of toy_sodium ([point 1, point 2] @ [point 3, point 4])
   = generichash toy_sodium 32 (merkle_root_of toy_sodium [point 1, point 2]
       @ merkle_root_of toy_sodium [point 3, point 4]) []"
  using merkle_root_of_halves [of "[point 1, point 2]" 1 "[point 3, point 4]" toy_sodium] by simp

end
