(* ===== verification/Headers.thy ===== *)
theory Headers
  imports Blocks
begin

text \<open>
  Model of the methods of \<^verbatim>\<open>BlockHeader\<close> in \<^verbatim>\<open>src/block.cpp\<close>: the hash that is signed, the
  collection of quorum signatures in a canonical order, and the count of authorised
  signers. The secret key of a signer is an argument.
\<close>

section \<open>Operations\<close>

definition signing_input :: "block_header \<Rightarrow> bytes" where
  "signing_input h =
     (let w = write_u32 [] (hdr_version h);
          w = write_u64 w (hdr_height h);
          w = write_array w (prev_block_hash h);
          w = write_array w (merkle_root h);
          w = write_u64 w (hdr_timestamp h)
      in write_u64 w (hdr_nonce h))"

definition signing_hash :: "sodium \<Rightarrow> block_header \<Rightarrow> bytes" where
  "signing_hash S h = generichash S 32 (signing_input h) []"

definition header_hash :: "sodium \<Rightarrow> block_header \<Rightarrow> bytes" where
  "header_hash S h = generichash S 32 (serialize_header [] h) []"

text \<open>The \<^verbatim>\<open>while\<close> loop that looks for the position of a key, and \<^verbatim>\<open>vector::insert\<close>.\<close>

fun quorum_position :: "bytes list \<Rightarrow> bytes \<Rightarrow> nat" where
  "quorum_position [] k = 0"
| "quorum_position (pk # pks) k = (if lex_less pk k then Suc (quorum_position pks k) else 0)"

definition insert_at :: "nat \<Rightarrow> 'a \<Rightarrow> 'a list \<Rightarrow> 'a list" where
  "insert_at pos x xs = take pos xs @ x # drop pos xs"

definition add_quorum_signature :: "block_header \<Rightarrow> bytes \<Rightarrow> bytes \<Rightarrow> block_header" where
  "add_quorum_signature h pub_key sg =
     (if list_ex (\<lambda>pk. pk = pub_key) (quorum_pubkeys h) then h
      else let pos = quorum_position (quorum_pubkeys h) pub_key
           in h\<lparr>quorum_pubkeys := insert_at pos pub_key (quorum_pubkeys h),
                quorum_signatures := insert_at pos sg (quorum_signatures h)\<rparr>)"

definition sign_header :: "sodium \<Rightarrow> block_header \<Rightarrow> bytes \<Rightarrow> bytes \<Rightarrow> block_header" where
  "sign_header S h secret_key pub_key =
     (let h = h\<lparr>validator_pubkey := pub_key\<rparr>;
          sh = signing_hash S h;
          h = h\<lparr>validator_signature := sign_detached S sh secret_key\<rparr>
      in add_quorum_signature h pub_key (validator_signature h))"

definition verify_signature :: "sodium \<Rightarrow> block_header \<Rightarrow> bool" where
  "verify_signature S h =
     (if list_all (\<lambda>b. b = 0) (validator_pubkey h) then False
      else verify_detached S (validator_signature h) (signing_hash S h) (validator_pubkey h))"

fun quorum_scan ::
  "sodium \<Rightarrow> bytes \<Rightarrow> bytes list \<Rightarrow> (bytes \<times> bytes) list \<Rightarrow> bytes list \<Rightarrow> bytes list" where
  "quorum_scan S sh authorized [] verified_keys = verified_keys"
| "quorum_scan S sh authorized ((pk, sg) # rest) verified_keys =
     (if \<not> list_ex (\<lambda>auth_pk. auth_pk = pk) authorized
      then quorum_scan S sh authorized rest verified_keys
      else if list_ex (\<lambda>vk. vk = pk) verified_keys
      then quorum_scan S sh authorized rest verified_keys
      else if verify_detached S sg sh pk
      then quorum_scan S sh authorized rest (verified_keys @ [pk])
      else quorum_scan S sh authorized rest verified_keys)"

definition verify_quorum :: "sodium \<Rightarrow> block_header \<Rightarrow> bytes list \<Rightarrow> nat" where
  "verify_quorum S h authorized =
     (if authorized = [] then 0
      else let sh = signing_hash S h;
               verified_keys =
                 (if verify_signature S h
                  then if list_ex (\<lambda>auth_pk. auth_pk = validator_pubkey h) authorized
                       then [validator_pubkey h] else []
                  else [])
           in length (quorum_scan S sh authorized
                (zip (quorum_pubkeys h) (quorum_signatures h)) verified_keys))"

section \<open>What the count of signers means\<close>

text \<open>A key endorses a header by a valid signature of it, in either of the two places.\<close>

definition endorsed :: "sodium \<Rightarrow> block_header \<Rightarrow> bytes \<Rightarrow> bool" where
  "endorsed S h k \<longleftrightarrow>
     verify_signature S h \<and> validator_pubkey h = k
   \<or> (\<exists>sg. (k, sg) \<in> set (zip (quorum_pubkeys h) (quorum_signatures h))
         \<and> verify_detached S sg (signing_hash S h) k)"

lemma list_ex_eq: "list_ex (\<lambda>x. x = a) xs \<longleftrightarrow> a \<in> set xs"
  by (auto simp: list_ex_iff)

lemma quorum_scan_set:
  "set (quorum_scan S sh auth ps vs)
     = set vs \<union> {k \<in> set auth. \<exists>sg. (k, sg) \<in> set ps \<and> verify_detached S sg sh k}"
  by (induction S sh auth ps vs rule: quorum_scan.induct) (auto simp: list_ex_eq)

lemma quorum_scan_distinct: "distinct vs \<Longrightarrow> distinct (quorum_scan S sh auth ps vs)"
  by (induction S sh auth ps vs rule: quorum_scan.induct) (auto simp: list_ex_eq)

lemma verify_quorum_card: "verify_quorum S h auth = card {k \<in> set auth. endorsed S h k}"
proof (cases "auth = []")
  case False
  let ?vs = "if verify_signature S h \<and> validator_pubkey h \<in> set auth then [validator_pubkey h] else []"
  let ?r = "quorum_scan S (signing_hash S h) auth (zip (quorum_pubkeys h) (quorum_signatures h)) ?vs"
  have "verify_quorum S h auth = length ?r"
    using False by (simp add: verify_quorum_def list_ex_eq)
  also have "\<dots> = card (set ?r)"
    by (rule distinct_card [symmetric]) (rule quorum_scan_distinct, simp)
  also have "set ?r = {k \<in> set auth. endorsed S h k}"
    unfolding quorum_scan_set by (auto simp: endorsed_def)
  finally show ?thesis .
qed (simp add: verify_quorum_def)

section \<open>The canonical order of the quorum\<close>

definition quorum_ok :: "block_header \<Rightarrow> bool" where
  "quorum_ok h \<longleftrightarrow> sorted_wrt lex_less (quorum_pubkeys h)
     \<and> length (quorum_signatures h) = length (quorum_pubkeys h)"

definition quorum_pairs :: "block_header \<Rightarrow> (bytes \<times> bytes) list" where
  "quorum_pairs h = zip (quorum_pubkeys h) (quorum_signatures h)"

lemma quorum_position_le: "quorum_position ks k \<le> length ks"
  by (induction ks) auto

lemma insert_at_Suc: "insert_at (Suc n) x (y # ys) = y # insert_at n x ys"
  by (simp add: insert_at_def)

lemma insert_at_0: "insert_at 0 x ys = x # ys"
  by (simp add: insert_at_def)

lemma set_insert_at: "set (insert_at n x xs) = insert x (set xs)"
  by (simp add: insert_at_def) (metis append_take_drop_id set_append)

lemma length_insert_at [simp]: "n \<le> length xs \<Longrightarrow> length (insert_at n x xs) = Suc (length xs)"
  by (simp add: insert_at_def)

lemma zip_insert_at:
  "length xs = length ys \<Longrightarrow> zip (insert_at n x xs) (insert_at n y ys) = insert_at n (x, y) (zip xs ys)"
  by (simp add: insert_at_def take_zip drop_zip)

lemma sorted_insert_at_position:
  "sorted_wrt lex_less ks \<Longrightarrow> k \<notin> set ks \<Longrightarrow> sorted_wrt lex_less (insert_at (quorum_position ks k) k ks)"
proof (induction ks)
  case (Cons a ks)
  show ?case
  proof (cases "lex_less a k")
    case True
    with Cons show ?thesis
      by (simp add: insert_at_Suc set_insert_at)
  next
    case False
    with Cons.prems have "lex_less k a"
      using lex_less_total [of a k] by auto
    with False Cons.prems show ?thesis
      by (auto simp: insert_at_0 intro: lex_less_trans)
  qed
qed (simp add: insert_at_0)

lemma add_quorum_ok:
  assumes "quorum_ok h"
  shows "quorum_ok (add_quorum_signature h k sg)"
  using assms quorum_position_le [of "quorum_pubkeys h" k]
  by (auto simp: quorum_ok_def add_quorum_signature_def Let_def list_ex_eq sorted_insert_at_position)

lemma add_quorum_pairs:
  assumes "quorum_ok h"
  shows "set (quorum_pairs (add_quorum_signature h k sg)) =
    (if k \<in> set (quorum_pubkeys h) then set (quorum_pairs h) else insert (k, sg) (set (quorum_pairs h)))"
  using assms
  by (simp add: quorum_pairs_def add_quorum_signature_def Let_def list_ex_eq quorum_ok_def
      zip_insert_at set_insert_at)

lemma add_quorum_pubkeys:
  "set (quorum_pubkeys (add_quorum_signature h k sg)) = insert k (set (quorum_pubkeys h))"
  by (auto simp: add_quorum_signature_def Let_def list_ex_eq set_insert_at)

lemma signing_hash_add [simp]: "signing_hash S (add_quorum_signature h k sg) = signing_hash S h"
  by (simp add: add_quorum_signature_def signing_hash_def signing_input_def Let_def)

text \<open>A header is determined by the set of its quorum pairs and its other fields.\<close>

lemma lex_sorted_unique:
  assumes "sorted_wrt lex_less xs" and "sorted_wrt lex_less ys" and "set xs = set ys"
  shows "xs = ys"
  using assms
proof (induction xs arbitrary: ys)
  case (Cons x xs)
  then obtain y ys' where ys: "ys = y # ys'"
    by (cases ys) auto
  have "x = y"
    using Cons.prems unfolding ys
    by (metis insert_iff lex_less_irrefl lex_less_trans list.simps(15) sorted_wrt.simps(2))
  moreover have "x \<notin> set xs" "y \<notin> set ys'"
    using Cons.prems(1,2) by (auto simp: ys)
  ultimately show ?case
    using Cons ys by (metis insert_ident list.simps(15) sorted_wrt.simps(2))
qed simp

lemma lex_sorted_distinct: "sorted_wrt lex_less xs \<Longrightarrow> distinct xs"
  by (induction xs) auto

lemma map_of_zip_map:
  assumes "length ss = length ks" and "distinct ks"
  shows "map (\<lambda>k. the (map_of (zip ks ss) k)) ks = ss"
  using assms by (intro nth_equalityI) (simp_all add: map_of_zip_nth)

lemma quorum_canonical:
  assumes "quorum_ok h1" and "quorum_ok h2" and "set (quorum_pairs h1) = set (quorum_pairs h2)"
  shows "quorum_pubkeys h1 = quorum_pubkeys h2 \<and> quorum_signatures h1 = quorum_signatures h2"
proof -
  have fst: "set (quorum_pubkeys h) = fst ` set (quorum_pairs h)"
    and dist: "distinct (quorum_pubkeys h)" "distinct (map fst (quorum_pairs h))"
    if "quorum_ok h" for h
    using that by (simp_all add: quorum_ok_def quorum_pairs_def lex_sorted_distinct flip: set_map)
  have keys: "quorum_pubkeys h1 = quorum_pubkeys h2"
    using assms fst [OF assms(1)] fst [OF assms(2)] lex_sorted_unique by (simp add: quorum_ok_def)
  have "map_of (quorum_pairs h1) = map_of (quorum_pairs h2)"
    using assms dist by (simp add: map_of_inject_set)
  then have eq: "map (\<lambda>k. the (map_of (quorum_pairs h1) k)) (quorum_pubkeys h1)
      = map (\<lambda>k. the (map_of (quorum_pairs h2) k)) (quorum_pubkeys h2)"
    by (simp add: keys)
  have sigs: "map (\<lambda>k. the (map_of (quorum_pairs h) k)) (quorum_pubkeys h) = quorum_signatures h"
    if "quorum_ok h" for h
    unfolding quorum_pairs_def
    by (rule map_of_zip_map) (use that dist(1) [OF that] in \<open>simp_all add: quorum_ok_def\<close>)
  show ?thesis
    using keys eq sigs [OF assms(1)] sigs [OF assms(2)] by simp
qed

definition add_quorum_signatures :: "block_header \<Rightarrow> (bytes \<times> bytes) list \<Rightarrow> block_header" where
  "add_quorum_signatures h sigs = foldl (\<lambda>h (k, sg). add_quorum_signature h k sg) h sigs"

lemma add_quorum_signatures_simps [simp]:
  "add_quorum_signatures h [] = h"
  "add_quorum_signatures h ((k, sg) # sigs) = add_quorum_signatures (add_quorum_signature h k sg) sigs"
  by (simp_all add: add_quorum_signatures_def)

lemma add_quorum_signatures_ok: "quorum_ok h \<Longrightarrow> quorum_ok (add_quorum_signatures h sigs)"
  by (induction sigs arbitrary: h) (auto simp: add_quorum_ok)

lemma add_quorum_signatures_pairs:
  assumes "quorum_ok h" and "distinct (map fst sigs)"
  shows "set (quorum_pairs (add_quorum_signatures h sigs)) =
    set (quorum_pairs h) \<union> {p \<in> set sigs. fst p \<notin> set (quorum_pubkeys h)}"
  using assms
proof (induction sigs arbitrary: h)
  case (Cons p sigs)
  obtain k sg where p: "p = (k, sg)"
    by fastforce
  have "k \<notin> fst ` set sigs"
    using Cons.prems(2) by (simp add: p)
  then show ?case
    using Cons.IH [OF add_quorum_ok [OF Cons.prems(1)], of k sg] Cons.prems
    by (auto simp: p add_quorum_pairs add_quorum_pubkeys rev_image_eqI)
qed simp

lemma add_quorum_frame:
  "h\<lparr>quorum_pubkeys := quorum_pubkeys (add_quorum_signatures h sigs),
     quorum_signatures := quorum_signatures (add_quorum_signatures h sigs)\<rparr> = add_quorum_signatures h sigs"
proof (induction sigs arbitrary: h)
  case (Cons p sigs)
  obtain k sg where p: "p = (k, sg)"
    by fastforce
  have "h\<lparr>quorum_pubkeys := ks, quorum_signatures := ss\<rparr>
      = (add_quorum_signature h k sg)\<lparr>quorum_pubkeys := ks, quorum_signatures := ss\<rparr>" for ks ss
    by (simp add: add_quorum_signature_def Let_def)
  with Cons.IH [of "add_quorum_signature h k sg"] show ?case
    by (simp add: p)
qed simp

lemma quorum_order_irrelevant_lemma:
  assumes "quorum_ok h" and "distinct (map fst sigs)" and "distinct (map fst sigs')"
    and "set sigs = set sigs'"
  shows "add_quorum_signatures h sigs = add_quorum_signatures h sigs'"
proof -
  have "set (quorum_pairs (add_quorum_signatures h sigs)) = set (quorum_pairs (add_quorum_signatures h sigs'))"
    using assms by (simp add: add_quorum_signatures_pairs)
  with quorum_canonical add_quorum_signatures_ok assms(1) show ?thesis
    by (metis add_quorum_frame)
qed

section \<open>Adding a signature and the count\<close>

lemma verify_signature_add [simp]:
  "verify_signature S (add_quorum_signature h k sg) = verify_signature S h"
  "validator_pubkey (add_quorum_signature h k sg) = validator_pubkey h"
  by (simp_all add: verify_signature_def)
     (simp_all add: add_quorum_signature_def Let_def)

lemma endorsed_add:
  assumes "quorum_ok h"
  shows "endorsed S (add_quorum_signature h k sg) j \<longleftrightarrow>
    endorsed S h j \<or> j = k \<and> k \<notin> set (quorum_pubkeys h) \<and> verify_detached S sg (signing_hash S h) k"
  using add_quorum_pairs [OF assms, of k sg] by (auto simp: endorsed_def quorum_pairs_def)

lemma verify_quorum_add:
  assumes "quorum_ok h"
  shows "verify_quorum S (add_quorum_signature h k sg) auth =
    verify_quorum S h auth
    + (if k \<in> set auth \<and> \<not> endorsed S h k \<and> k \<notin> set (quorum_pubkeys h)
          \<and> verify_detached S sg (signing_hash S h) k then 1 else 0)"
proof -
  let ?new = "k \<in> set auth \<and> \<not> endorsed S h k \<and> k \<notin> set (quorum_pubkeys h)
     \<and> verify_detached S sg (signing_hash S h) k"
  have "{j \<in> set auth. endorsed S (add_quorum_signature h k sg) j}
      = {j \<in> set auth. endorsed S h j} \<union> (if ?new then {k} else {})"
    using endorsed_add [OF assms] by auto
  then show ?thesis
    by (auto simp: verify_quorum_card)
qed

section \<open>Properties\<close>

text \<open>
  C36: the number that is compared with the quorum threshold is the number of distinct
  authorised validators whose valid signature of the header is present, as the producer's
  or in the list: signatures of other keys, invalid ones, repetitions in the list or in
  the authorised set add nothing.
\<close>

theorem verify_quorum_counts_signers:
  "verify_quorum S h authorized = card {k \<in> set authorized. endorsed S h k}"
  by (rule verify_quorum_card)

text \<open>
  The order in which signatures of different validators arrive does not matter: the
  same set of signatures gives the same header, so all nodes hash the same bytes.
\<close>

theorem quorum_order_irrelevant:
  assumes "quorum_ok h" and "distinct (map fst sigs)" and "distinct (map fst sigs')"
    and "set sigs = set sigs'"
  shows "add_quorum_signatures h sigs = add_quorum_signatures h sigs'
    \<and> header_hash S (add_quorum_signatures h sigs) = header_hash S (add_quorum_signatures h sigs')
    \<and> quorum_ok (add_quorum_signatures h sigs)"
  using quorum_order_irrelevant_lemma [OF assms] add_quorum_signatures_ok [OF assms(1)] by simp

theorem quorum_order_irrelevant_witness:
  "add_quorum_signatures ((header sample_block)\<lparr>quorum_pubkeys := [], quorum_signatures := []\<rparr>)
     [(point 5, zero_key), (point 3, zero_key)]
   = add_quorum_signatures ((header sample_block)\<lparr>quorum_pubkeys := [], quorum_signatures := []\<rparr>)
     [(point 3, zero_key), (point 5, zero_key)]"
proof -
  have "quorum_ok ((header sample_block)\<lparr>quorum_pubkeys := [], quorum_signatures := []\<rparr>)"
    by (simp add: quorum_ok_def)
  from quorum_order_irrelevant [OF this, of "[(point 5, zero_key), (point 3, zero_key)]"
      "[(point 3, zero_key), (point 5, zero_key)]"] show ?thesis
    by (simp add: insert_commute del: add_quorum_signatures_simps)
qed

text \<open>
  A signature added to a canonical header leaves it canonical, never lowers the count
  of signers, and raises it by one exactly when it is a valid signature of an authorised
  validator that neither endorsed the header before nor is listed already. (A listed key
  keeps its first signature, even an invalid one.)
\<close>

theorem add_quorum_signature_counts:
  assumes "quorum_ok h"
  shows "quorum_ok (add_quorum_signature h k sg)
    \<and> verify_quorum S (add_quorum_signature h k sg) auth = verify_quorum S h auth
      + (if k \<in> set auth \<and> \<not> endorsed S h k \<and> k \<notin> set (quorum_pubkeys h)
            \<and> verify_detached S sg (signing_hash S h) k then 1 else 0)"
  using verify_quorum_add [OF assms] add_quorum_ok [OF assms] by blast

theorem add_quorum_signature_counts_witness:
  "verify_quorum toy_sodium (add_quorum_signature (header sample_block) (point 3) zero_key) [point 3]
   = verify_quorum toy_sodium (header sample_block) [point 3]"
proof -
  have "quorum_ok (header sample_block)"
    by (simp add: quorum_ok_def sample_block_def)
  from add_quorum_signature_counts [OF this, of "point 3"] show ?thesis
    by (simp add: sample_block_def)
qed

end
