(* ===== verification/ChainDB.thy ===== *)
theory ChainDB
  imports Merkle Headers "HOL-Library.AList"
begin

text \<open>
  Model of \<^verbatim>\<open>include/blockchain_db.hpp\<close> and \<^verbatim>\<open>src/blockchain_db.cpp\<close>: the blocks, the
  indexes and the vault balances in an LMDB environment, written in one transaction per
  block. LMDB is not part of the repository: its calls are an argument, and what the
  theorems rely on is the hypothesis \<open>lmdb_ok\<close>. A transaction is the state it would
  leave; aborting it drops that state.
\<close>

section \<open>The LMDB interface\<close>

datatype dbi = Blocks | Block_index | Key_images | Utxos | Metadata | Deposit_txs

text \<open>
  \<open>None\<close> is a non-zero return code. \<open>mdb_entries\<close> is what a cursor enumerates from
  \<^verbatim>\<open>MDB_FIRST\<close> by \<^verbatim>\<open>MDB_NEXT\<close>.
\<close>

record 's lmdb =
  mdb_txn_begin :: "'s \<Rightarrow> bool"
  mdb_get :: "'s \<Rightarrow> dbi \<Rightarrow> bytes \<Rightarrow> bytes option"
  mdb_put :: "'s \<Rightarrow> dbi \<Rightarrow> bytes \<Rightarrow> bytes \<Rightarrow> 's option"
  mdb_del :: "'s \<Rightarrow> dbi \<Rightarrow> bytes \<Rightarrow> 's option"
  mdb_entries :: "'s \<Rightarrow> dbi \<Rightarrow> (bytes \<times> bytes) list"
  mdb_txn_commit :: "'s \<Rightarrow> 's option"

text \<open>
  The documented behaviour of LMDB: a transaction begins, what was put is got, a deleted
  key is gone, deleting fails just on absent keys, committing changes nothing, and a
  cursor enumerates the pairs of a table, each once.
\<close>

definition lmdb_ok :: "'s lmdb \<Rightarrow> bool" where
  "lmdb_ok L \<longleftrightarrow>
     (\<forall>s. mdb_txn_begin L s)
   \<and> (\<forall>s d k v s'. mdb_put L s d k v = Some s' \<longrightarrow>
        (\<forall>d' k'. mdb_get L s' d' k' = (if d' = d \<and> k' = k then Some v else mdb_get L s d' k')))
   \<and> (\<forall>s d k s'. mdb_del L s d k = Some s' \<longrightarrow>
        (\<forall>d' k'. mdb_get L s' d' k' = (if d' = d \<and> k' = k then None else mdb_get L s d' k')))
   \<and> (\<forall>s d k. mdb_del L s d k = None \<longleftrightarrow> mdb_get L s d k = None)
   \<and> (\<forall>s s'. mdb_txn_commit L s = Some s' \<longrightarrow> mdb_get L s' = mdb_get L s)
   \<and> (\<forall>s d. distinct (map fst (mdb_entries L s d))
        \<and> (\<forall>k v. (k, v) \<in> set (mdb_entries L s d) \<longleftrightarrow> mdb_get L s d k = Some v))"

section \<open>State\<close>

record 's chain_db =
  db_env :: "'s option"
  db_top_height :: u64
  db_top_hash :: bytes

definition new_chain_db :: "'s chain_db" where
  "new_chain_db = \<lparr>db_env = None, db_top_height = 0, db_top_hash = zero_key\<rparr>"

text \<open>The eight bytes in memory of \<open>to_big_endian_64 h\<close>, and the fixed keys of the metadata.\<close>

definition height_key :: "u64 \<Rightarrow> bytes" where
  "height_key h = le_bytes 8 (to_big_endian_64 h)"

definition top_height_key :: bytes where
  "top_height_key = bytes_of_string ''top_height''"

definition vault_state_key :: bytes where
  "vault_state_key = bytes_of_string ''vault_state''"

definition block_hash :: "sodium \<Rightarrow> block \<Rightarrow> bytes" where
  "block_hash S b = header_hash S (header b)"

section \<open>Opening and reading\<close>

definition init_top_height :: "'s lmdb \<Rightarrow> sodium \<Rightarrow> 's \<Rightarrow> u64 \<times> bytes" where
  "init_top_height L S s =
     (if \<not> mdb_txn_begin L s then (0, zero_key)
      else case mdb_get L s Metadata top_height_key of
        None \<Rightarrow> (0, zero_key)
      | Some v \<Rightarrow>
          if length v \<noteq> 8 then (0, zero_key)
          else let h = from_big_endian_64 (le_value v) in
            (case mdb_get L s Blocks (height_key h) of
               None \<Rightarrow> (h, zero_key)
             | Some bv \<Rightarrow> (case deserialize_block S bv of
                  Inl e \<Rightarrow> (h, zero_key) | Inr b \<Rightarrow> (h, block_hash S b))))"

text \<open>
  \<open>opened\<close> is what the file system and LMDB make of the path: the environment with its
  six tables, or \<open>None\<close> when one of the calls of \<^verbatim>\<open>open\<close> failed.
\<close>

definition db_open ::
  "'s lmdb \<Rightarrow> sodium \<Rightarrow> 's chain_db \<Rightarrow> 's option \<Rightarrow> 's chain_db \<times> (error + unit)" where
  "db_open L S db opened =
     (case db_env db of Some _ \<Rightarrow> (db, Inr ())
      | None \<Rightarrow> (case opened of None \<Rightarrow> (db, Inl (Db_error Db_open_failed))
         | Some s \<Rightarrow> (case init_top_height L S s of (h, bh) \<Rightarrow>
             (\<lparr>db_env = Some s, db_top_height = h, db_top_hash = bh\<rparr>, Inr ()))))"

definition db_close :: "'s chain_db \<Rightarrow> 's chain_db" where
  "db_close db = db\<lparr>db_env := None\<rparr>"

text \<open>A read-only transaction: the environment if it is open and the transaction begins.\<close>

definition snapshot :: "'s lmdb \<Rightarrow> 's chain_db \<Rightarrow> 's option" where
  "snapshot L db =
     (case db_env db of None \<Rightarrow> None | Some s \<Rightarrow> if mdb_txn_begin L s then Some s else None)"

definition stored_block :: "'s lmdb \<Rightarrow> sodium \<Rightarrow> 's \<Rightarrow> bytes \<Rightarrow> block option" where
  "stored_block L S s k =
     (case mdb_get L s Blocks k of None \<Rightarrow> None
      | Some v \<Rightarrow> (case deserialize_block S v of Inl _ \<Rightarrow> None | Inr b \<Rightarrow> Some b))"

definition get_block_by_height :: "'s lmdb \<Rightarrow> sodium \<Rightarrow> 's chain_db \<Rightarrow> u64 \<Rightarrow> block option" where
  "get_block_by_height L S db h =
     (case snapshot L db of None \<Rightarrow> None | Some s \<Rightarrow> stored_block L S s (height_key h))"

definition get_block_by_hash :: "'s lmdb \<Rightarrow> sodium \<Rightarrow> 's chain_db \<Rightarrow> bytes \<Rightarrow> block option" where
  "get_block_by_hash L S db hash =
     (case snapshot L db of None \<Rightarrow> None
      | Some s \<Rightarrow> (case mdb_get L s Block_index hash of None \<Rightarrow> None
         | Some v \<Rightarrow> if length v \<noteq> 8 then None else stored_block L S s v))"

definition is_key_image_spent :: "'s lmdb \<Rightarrow> sodium \<Rightarrow> 's chain_db \<Rightarrow> bytes \<Rightarrow> bool" where
  "is_key_image_spent L S db img =
     (case snapshot L db of None \<Rightarrow> False
      | Some s \<Rightarrow> mdb_get L s Key_images (canonical_key_image S img) \<noteq> None)"

definition is_deposit_tx_processed :: "'s lmdb \<Rightarrow> 's chain_db \<Rightarrow> string \<Rightarrow> bool" where
  "is_deposit_tx_processed L db txh =
     (if db_env db = None \<or> txh = [] then False
      else case snapshot L db of None \<Rightarrow> False
      | Some s \<Rightarrow> mdb_get L s Deposit_txs (bytes_of_string txh) \<noteq> None)"

definition load_all_key_images :: "'s lmdb \<Rightarrow> 's chain_db \<Rightarrow> bytes list" where
  "load_all_key_images L db =
     (case snapshot L db of None \<Rightarrow> []
      | Some s \<Rightarrow> filter (\<lambda>k. length k = 32) (map fst (mdb_entries L s Key_images)))"

definition stored_output :: "sodium \<Rightarrow> bytes \<Rightarrow> one_time_output option" where
  "stored_output S v =
     (case deserialize_output S (new_reader v) of Inl _ \<Rightarrow> None | Inr (out, _) \<Rightarrow> Some out)"

definition load_all_utxos :: "'s lmdb \<Rightarrow> sodium \<Rightarrow> 's chain_db \<Rightarrow> one_time_output list" where
  "load_all_utxos L S db =
     (case snapshot L db of None \<Rightarrow> []
      | Some s \<Rightarrow> List.map_filter (\<lambda>(k, v). stored_output S v) (mdb_entries L s Utxos))"

text \<open>
  The vault is an output parameter: \<^verbatim>\<open>restore_state\<close> has already assigned the balances
  when it throws, and the exception is swallowed.
\<close>

definition load_vault_state :: "'s lmdb \<Rightarrow> 's chain_db \<Rightarrow> vault \<Rightarrow> vault \<times> bool" where
  "load_vault_state L db v =
     (case snapshot L db of None \<Rightarrow> (v, False)
      | Some s \<Rightarrow> (case mdb_get L s Metadata vault_state_key of None \<Rightarrow> (v, False)
         | Some bs \<Rightarrow>
             (case rbind read_u64 (\<lambda>collateral. rbind read_u64 (\<lambda>circulating.
                     rbind read_u64 (\<lambda>fee_pool. rpure (collateral, circulating, fee_pool))))
                   (new_reader bs) of
                Inl _ \<Rightarrow> (v, False)
              | Inr ((collateral, circulating, fee_pool), _) \<Rightarrow>
                  (case restore_state v collateral circulating fee_pool of
                     (v', Inl _) \<Rightarrow> (v', False) | (v', Inr _) \<Rightarrow> (v', True)))))"

section \<open>Writing\<close>

definition vault_record :: "vault \<Rightarrow> bytes" where
  "vault_record v =
     write_u64 (write_u64 (write_u64 [] (total_collateral v)) (circulating_supply v)) (fee_pool_reserve v)"

definition save_vault_state :: "'s lmdb \<Rightarrow> 's chain_db \<Rightarrow> vault \<Rightarrow> 's chain_db \<times> bool" where
  "save_vault_state L db v =
     (case snapshot L db of None \<Rightarrow> (db, False)
      | Some s \<Rightarrow> (case mdb_put L s Metadata vault_state_key (vault_record v) of
           None \<Rightarrow> (db, False)
         | Some t \<Rightarrow> (case mdb_txn_commit L t of None \<Rightarrow> (db, False)
              | Some s' \<Rightarrow> (db\<lparr>db_env := Some s'\<rparr>, True))))"

text \<open>\<^verbatim>\<open>mdb_put\<close> followed by the check that throws.\<close>

definition put_or :: "'s lmdb \<Rightarrow> db_error \<Rightarrow> dbi \<Rightarrow> 's \<Rightarrow> bytes \<Rightarrow> bytes \<Rightarrow> error + 's" where
  "put_or L e d t k v = (case mdb_put L t d k v of None \<Rightarrow> Inl (Db_error e) | Some t' \<Rightarrow> Inr t')"

fun put_images :: "'s lmdb \<Rightarrow> sodium \<Rightarrow> bytes \<Rightarrow> 's \<Rightarrow> bytes list \<Rightarrow> error + 's" where
  "put_images L S be_height t [] = Inr t"
| "put_images L S be_height t (ki # kis) =
     ebind (put_or L Commit_image_put_failed Key_images t (canonical_key_image S ki) be_height)
       (\<lambda>t. put_images L S be_height t kis)"

fun put_utxos :: "'s lmdb \<Rightarrow> 's \<Rightarrow> one_time_output list \<Rightarrow> error + 's" where
  "put_utxos L t [] = Inr t"
| "put_utxos L t (utxo # utxos) =
     ebind (put_or L Commit_utxo_put_failed Utxos t (destination_one_time utxo) (serialize_output [] utxo))
       (\<lambda>t. put_utxos L t utxos)"

fun put_deposits :: "'s lmdb \<Rightarrow> bytes \<Rightarrow> 's \<Rightarrow> deposit_receipt list \<Rightarrow> error + 's" where
  "put_deposits L be_height t [] = Inr t"
| "put_deposits L be_height t (dep # deps) =
     (if dep_tx_hash dep \<noteq> []
      then ebind (put_or L Commit_deposit_put_failed Deposit_txs t (bytes_of_string (dep_tx_hash dep)) be_height)
             (\<lambda>t. put_deposits L be_height t deps)
      else put_deposits L be_height t deps)"

text \<open>The body of the transaction of \<^verbatim>\<open>commit_block\<close>, up to its commit.\<close>

definition write_block ::
  "'s lmdb \<Rightarrow> sodium \<Rightarrow> 's \<Rightarrow> block \<Rightarrow> vault \<Rightarrow> one_time_output list \<Rightarrow> bytes list \<Rightarrow> error + 's" where
  "write_block L S t b v new_utxos spent_images =
     (let be_height = height_key (hdr_height (header b)) in
      ebind (serialize_block b) (\<lambda>block_bytes.
      ebind (put_or L Commit_block_put_failed Blocks t be_height block_bytes) (\<lambda>t.
      ebind (put_or L Commit_index_put_failed Block_index t (block_hash S b) be_height) (\<lambda>t.
      ebind (put_images L S be_height t spent_images) (\<lambda>t.
      ebind (put_utxos L t new_utxos) (\<lambda>t.
      ebind (put_deposits L be_height t (deposits b)) (\<lambda>t.
      ebind (put_or L Commit_height_put_failed Metadata t top_height_key be_height) (\<lambda>t.
      put_or L Commit_vault_put_failed Metadata t vault_state_key (vault_record v)))))))))"

definition commit_block ::
  "'s lmdb \<Rightarrow> sodium \<Rightarrow> 's chain_db \<Rightarrow> block \<Rightarrow> vault \<Rightarrow> one_time_output list \<Rightarrow> bytes list
     \<Rightarrow> 's chain_db \<times> (error + unit)" where
  "commit_block L S db b v new_utxos spent_images =
     (case db_env db of None \<Rightarrow> (db, Inl (Db_error Commit_db_closed))
      | Some s \<Rightarrow>
          if \<not> mdb_txn_begin L s then (db, Inl (Db_error Commit_begin_failed))
          else case write_block L S s b v new_utxos spent_images of
            Inl e \<Rightarrow> (db, Inl e)
          | Inr t \<Rightarrow> (case mdb_txn_commit L t of
                None \<Rightarrow> (db, Inl (Db_error Commit_failed))
              | Some s' \<Rightarrow>
                  (\<lparr>db_env = Some s', db_top_height = hdr_height (header b),
                    db_top_hash = block_hash S b\<rparr>, Inr ())))"

section \<open>Rolling back\<close>

text \<open>Calls whose return code \<^verbatim>\<open>rollback_top_block\<close> ignores.\<close>

definition del_ignored :: "'s lmdb \<Rightarrow> dbi \<Rightarrow> 's \<Rightarrow> bytes \<Rightarrow> 's" where
  "del_ignored L d t k = (case mdb_del L t d k of None \<Rightarrow> t | Some t' \<Rightarrow> t')"

definition put_ignored :: "'s lmdb \<Rightarrow> dbi \<Rightarrow> 's \<Rightarrow> bytes \<Rightarrow> bytes \<Rightarrow> 's" where
  "put_ignored L d t k v = (case mdb_put L t d k v of None \<Rightarrow> t | Some t' \<Rightarrow> t')"

definition block_images :: "block \<Rightarrow> bytes list" where
  "block_images b = map (\<lambda>tx. sig_key_image (ring_sig tx)) (txs b) @ map wdr_key_image (withdrawals b)"

definition block_outputs :: "block \<Rightarrow> one_time_output list" where
  "block_outputs b = deposit_outputs b @ concat (map tx_outputs (txs b)) @ withdrawal_outputs b"

definition erase_block :: "'s lmdb \<Rightarrow> sodium \<Rightarrow> block \<Rightarrow> 's \<Rightarrow> 's" where
  "erase_block L S b t =
     (let t = del_ignored L Block_index t (block_hash S b);
          t = foldl (\<lambda>t ki. del_ignored L Key_images t (canonical_key_image S ki)) t (block_images b);
          t = foldl (\<lambda>t out. del_ignored L Utxos t (destination_one_time out)) t (block_outputs b)
      in foldl (\<lambda>t dep. if dep_tx_hash dep \<noteq> []
                   then del_ignored L Deposit_txs t (bytes_of_string (dep_tx_hash dep)) else t)
           t (deposits b))"

text \<open>
  Replaying the vault operations of the stored blocks. The receipts are discarded, and
  with them the random bytes of hashes and order identifiers.
\<close>

fun replay_deposits :: "vault \<Rightarrow> deposit_receipt list \<Rightarrow> error + vault" where
  "replay_deposits v [] = Inr v"
| "replay_deposits v (dep # deps) =
     (case deposit v (dep_gross_usdt_deposited dep) (dep_tx_hash dep) [] of
        (_, Inl e) \<Rightarrow> Inl e | (v', Inr _) \<Rightarrow> replay_deposits v' deps)"

fun replay_withdrawals :: "vault \<Rightarrow> withdrawal_receipt list \<Rightarrow> error + vault" where
  "replay_withdrawals v [] = Inr v"
| "replay_withdrawals v (wdr # wdrs) =
     (case request_withdrawal v (wdr_gross_tokens_burned wdr) [] of
        (_, Inl e) \<Rightarrow> Inl e | (v', Inr _) \<Rightarrow> replay_withdrawals v' wdrs)"

definition replay_block :: "vault \<Rightarrow> block \<Rightarrow> error + vault" where
  "replay_block v b = ebind (replay_deposits v (deposits b)) (\<lambda>v. replay_withdrawals v (withdrawals b))"

fun replay_heights :: "'s lmdb \<Rightarrow> sodium \<Rightarrow> 's \<Rightarrow> vault \<Rightarrow> nat list \<Rightarrow> error + vault" where
  "replay_heights L S t v [] = Inr v"
| "replay_heights L S t v (h # hs) =
     (case mdb_get L t Blocks (height_key (of_nat h)) of
        None \<Rightarrow> replay_heights L S t v hs
      | Some bv \<Rightarrow> ebind (deserialize_block S bv) (\<lambda>b.
          ebind (replay_block v b) (\<lambda>v. replay_heights L S t v hs)))"

definition previous_hash :: "'s lmdb \<Rightarrow> sodium \<Rightarrow> 's \<Rightarrow> u64 \<Rightarrow> error + bytes" where
  "previous_hash L S t new_height =
     (case mdb_get L t Blocks (height_key new_height) of
        None \<Rightarrow> Inr zero_key
      | Some v \<Rightarrow> ebind (deserialize_block S v) (\<lambda>b. Inr (block_hash S b)))"

definition rollback_top_block :: "'s lmdb \<Rightarrow> sodium \<Rightarrow> 's chain_db \<Rightarrow> 's chain_db \<times> bool" where
  "rollback_top_block L S db =
     (case db_env db of None \<Rightarrow> (db, False)
      | Some s \<Rightarrow>
        if db_top_height db = 0 then (db, False)
        else if \<not> mdb_txn_begin L s then (db, False)
        else let k_h = height_key (db_top_height db) in
        (case mdb_get L s Blocks k_h of None \<Rightarrow> (db, False)
         | Some bv \<Rightarrow>
        (case deserialize_block S bv of Inl _ \<Rightarrow> (db, False)
         | Inr top_block \<Rightarrow>
        (case mdb_del L s Blocks k_h of None \<Rightarrow> (db, False)
         | Some t \<Rightarrow>
        let t = erase_block L S top_block t;
            new_height = db_top_height db - 1
        in (case previous_hash L S t new_height of Inl _ \<Rightarrow> (db, False)
         | Inr prev_hash \<Rightarrow>
        let db = db\<lparr>db_top_hash := prev_hash, db_top_height := new_height\<rparr>;
            t = put_ignored L Metadata t top_height_key (height_key new_height)
        in (case replay_heights L S t (new_vault 50 50) [1..<Suc (unat new_height)] of
              Inl _ \<Rightarrow> (db, False)
            | Inr prev_vault \<Rightarrow>
        let t = put_ignored L Metadata t vault_state_key (vault_record prev_vault)
        in (case mdb_txn_commit L t of None \<Rightarrow> (db, False)
            | Some s' \<Rightarrow> (db\<lparr>db_env := Some s'\<rparr>, True))))))))"

section \<open>What the calls of LMDB do\<close>

lemma lmdb_okD:
  assumes "lmdb_ok L"
  shows "mdb_txn_begin L s"
    and "mdb_put L s d k v = Some s' \<Longrightarrow> mdb_get L s' = (mdb_get L s)(d := (mdb_get L s d)(k \<mapsto> v))"
    and "mdb_del L s d k = Some s' \<Longrightarrow> mdb_get L s' = (mdb_get L s)(d := (mdb_get L s d)(k := None))"
    and "mdb_del L s d k = None \<longleftrightarrow> mdb_get L s d k = None"
    and "mdb_txn_commit L s = Some s' \<Longrightarrow> mdb_get L s' = mdb_get L s"
    and "distinct (map fst (mdb_entries L s d))"
    and "(k, v) \<in> set (mdb_entries L s d) \<longleftrightarrow> mdb_get L s d k = Some v"
  using assms unfolding lmdb_ok_def by (auto intro!: ext)

lemma height_key_inject [simp]: "height_key a = height_key b \<longleftrightarrow> a = b"
proof
  assume "height_key a = height_key b"
  then have "to_big_endian_64 a = to_big_endian_64 b"
    using u64_codec.encode_inject [of "to_big_endian_64 a" "to_big_endian_64 b"]
    by (simp add: height_key_def)
  then have "from_big_endian_64 (to_big_endian_64 a) = from_big_endian_64 (to_big_endian_64 b)"
    by (rule arg_cong)
  then show "a = b"
    by simp
qed simp

lemma length_height_key [simp]: "length (height_key h) = 8"
  by (simp add: height_key_def)

lemma meta_keys [simp]: "top_height_key \<noteq> vault_state_key" "vault_state_key \<noteq> top_height_key"
  by (simp_all add: top_height_key_def vault_state_key_def)

lemma snapshot_open: "lmdb_ok L \<Longrightarrow> db_env db = Some s \<Longrightarrow> snapshot L db = Some s"
  by (simp add: snapshot_def lmdb_okD(1))

lemma put_or_get:
  "lmdb_ok L \<Longrightarrow> put_or L e d t k v = Inr t'
   \<Longrightarrow> mdb_get L t' = (mdb_get L t)(d := (mdb_get L t d)(k \<mapsto> v))"
  by (auto simp: put_or_def lmdb_okD(2) split: option.splits)

text \<open>The tables after the loops of a commit.\<close>

lemma put_images_get:
  assumes "lmdb_ok L" and "put_images L S be t kis = Inr t'"
  shows "mdb_get L t' = (mdb_get L t)(Key_images := (\<lambda>k.
    if k \<in> canonical_key_image S ` set kis then Some be else mdb_get L t Key_images k))"
  using assms(2)
proof (induction kis arbitrary: t)
  case (Cons ki kis)
  from Cons.prems obtain u where u: "put_or L Commit_image_put_failed Key_images t (canonical_key_image S ki) be = Inr u"
    and rest: "put_images L S be u kis = Inr t'"
    by (auto simp: ebind_eq_Inr)
  show ?case
    unfolding Cons.IH [OF rest] put_or_get [OF assms(1) u] by (auto intro!: ext)
qed simp

definition add_outputs :: "(bytes \<Rightarrow> bytes option) \<Rightarrow> one_time_output list \<Rightarrow> bytes \<Rightarrow> bytes option" where
  "add_outputs m outs = foldl (\<lambda>m out. m(destination_one_time out \<mapsto> serialize_output [] out)) m outs"

lemma put_utxos_get:
  assumes "lmdb_ok L" and "put_utxos L t outs = Inr t'"
  shows "mdb_get L t' = (mdb_get L t)(Utxos := add_outputs (mdb_get L t Utxos) outs)"
  using assms(2)
proof (induction outs arbitrary: t)
  case (Cons out outs)
  from Cons.prems obtain u where u: "put_or L Commit_utxo_put_failed Utxos t (destination_one_time out) (serialize_output [] out) = Inr u"
    and rest: "put_utxos L u outs = Inr t'"
    by (auto simp: ebind_eq_Inr)
  show ?case
    unfolding Cons.IH [OF rest] put_or_get [OF assms(1) u] by (simp add: add_outputs_def)
qed (simp add: add_outputs_def)

lemma put_deposits_get:
  assumes "lmdb_ok L" and "put_deposits L be t deps = Inr t'"
  shows "mdb_get L t' = (mdb_get L t)(Deposit_txs := (\<lambda>k.
    if k \<in> bytes_of_string ` (dep_tx_hash ` set deps - {[]}) then Some be else mdb_get L t Deposit_txs k))"
  using assms(2)
proof (induction deps arbitrary: t)
  case (Cons dep deps)
  show ?case
  proof (cases "dep_tx_hash dep = []")
    case True
    with Cons.prems have rest: "put_deposits L be t deps = Inr t'"
      by simp
    show ?thesis
      unfolding Cons.IH [OF rest] by (simp add: True)
  next
    case False
    with Cons.prems obtain u where u: "put_or L Commit_deposit_put_failed Deposit_txs t (bytes_of_string (dep_tx_hash dep)) be = Inr u"
      and rest: "put_deposits L be u deps = Inr t'"
      by (auto simp: ebind_eq_Inr)
    show ?thesis
      unfolding Cons.IH [OF rest] put_or_get [OF assms(1) u] using False by (auto intro!: ext)
  qed
qed simp

lemma write_block_get:
  assumes "lmdb_ok L" and "write_block L S s b v outs kis = Inr t"
  shows "\<exists>bs. serialize_block b = Inr bs \<and> mdb_get L t = (mdb_get L s)
    (Blocks := (mdb_get L s Blocks)(height_key (hdr_height (header b)) \<mapsto> bs),
     Block_index := (mdb_get L s Block_index)(block_hash S b \<mapsto> height_key (hdr_height (header b))),
     Key_images := (\<lambda>k. if k \<in> canonical_key_image S ` set kis
       then Some (height_key (hdr_height (header b))) else mdb_get L s Key_images k),
     Utxos := add_outputs (mdb_get L s Utxos) outs,
     Deposit_txs := (\<lambda>k. if k \<in> bytes_of_string ` (dep_tx_hash ` set (deposits b) - {[]})
       then Some (height_key (hdr_height (header b))) else mdb_get L s Deposit_txs k),
     Metadata := (mdb_get L s Metadata)(top_height_key \<mapsto> height_key (hdr_height (header b)),
       vault_state_key \<mapsto> vault_record v))"
proof -
  let ?h = "height_key (hdr_height (header b))"
  from assms(2) obtain bs t1 t2 t3 t4 t5 t6 where bs: "serialize_block b = Inr bs"
    and steps: "put_or L Commit_block_put_failed Blocks s ?h bs = Inr t1"
      "put_or L Commit_index_put_failed Block_index t1 (block_hash S b) ?h = Inr t2"
      "put_images L S ?h t2 kis = Inr t3" "put_utxos L t3 outs = Inr t4"
      "put_deposits L ?h t4 (deposits b) = Inr t5"
      "put_or L Commit_height_put_failed Metadata t5 top_height_key ?h = Inr t6"
      "put_or L Commit_vault_put_failed Metadata t6 vault_state_key (vault_record v) = Inr t"
    by (auto simp: write_block_def Let_def ebind_eq_Inr)
  note g = put_or_get [OF assms(1) steps(7)] put_or_get [OF assms(1) steps(6)]
    put_deposits_get [OF assms(1) steps(5)] put_utxos_get [OF assms(1) steps(4)]
    put_images_get [OF assms(1) steps(3)] put_or_get [OF assms(1) steps(2)]
    put_or_get [OF assms(1) steps(1)]
  show ?thesis
    using bs unfolding g by (auto intro!: ext)
qed

section \<open>The chain that a database holds\<close>

text \<open>
  What the readers of a database can see: the tip, the blocks by height, the canonical
  images that are spent, the deposit hashes that are processed, the outputs by
  destination key and the balances of the vault.
\<close>

record chain_view =
  view_tip :: "u64 \<times> bytes"
  view_block :: "u64 \<Rightarrow> block option"
  view_spent :: "bytes \<Rightarrow> bool"
  view_processed :: "string \<Rightarrow> bool"
  view_output :: "bytes \<Rightarrow> one_time_output option"
  view_balances :: "(amount \<times> amount \<times> amount) option"

definition balances :: "vault \<Rightarrow> amount \<times> amount \<times> amount" where
  "balances v = (total_collateral v, circulating_supply v, fee_pool_reserve v)"

definition read_balances :: "bytes \<Rightarrow> (amount \<times> amount \<times> amount) option" where
  "read_balances bs =
     (case rbind read_u64 (\<lambda>collateral. rbind read_u64 (\<lambda>circulating.
             rbind read_u64 (\<lambda>fee_pool. rpure (collateral, circulating, fee_pool)))) (new_reader bs) of
        Inl _ \<Rightarrow> None | Inr (bal, _) \<Rightarrow> Some bal)"

definition view_of_tables ::
  "sodium \<Rightarrow> u64 \<times> bytes \<Rightarrow> (dbi \<Rightarrow> bytes \<Rightarrow> bytes option) \<Rightarrow> chain_view" where
  "view_of_tables S tip g =
     \<lparr>view_tip = tip,
      view_block = (\<lambda>h. Option.bind (g Blocks (height_key h))
        (\<lambda>v. case deserialize_block S v of Inl _ \<Rightarrow> None | Inr b \<Rightarrow> Some b)),
      view_spent = (\<lambda>c. g Key_images c \<noteq> None),
      view_processed = (\<lambda>tx. tx \<noteq> [] \<and> g Deposit_txs (bytes_of_string tx) \<noteq> None),
      view_output = (\<lambda>d. Option.bind (g Utxos d) (stored_output S)),
      view_balances = Option.bind (g Metadata vault_state_key) read_balances\<rparr>"

definition chain_view_of :: "'s lmdb \<Rightarrow> sodium \<Rightarrow> 's chain_db \<Rightarrow> chain_view" where
  "chain_view_of L S db =
     view_of_tables S (db_top_height db, db_top_hash db)
       (case snapshot L db of None \<Rightarrow> (\<lambda>d k. None) | Some s \<Rightarrow> mdb_get L s)"

lemma get_block_by_height_view: "get_block_by_height L S db h = view_block (chain_view_of L S db) h"
  by (auto simp: get_block_by_height_def chain_view_of_def view_of_tables_def stored_block_def
      split: option.split)

lemma is_key_image_spent_view:
  "is_key_image_spent L S db i = view_spent (chain_view_of L S db) (canonical_key_image S i)"
  by (auto simp: is_key_image_spent_def chain_view_of_def view_of_tables_def split: option.split)

lemma is_deposit_tx_processed_view:
  "is_deposit_tx_processed L db tx = view_processed (chain_view_of L S db) tx"
  by (auto simp: is_deposit_tx_processed_def chain_view_of_def view_of_tables_def snapshot_def
      split: option.split)

lemma load_vault_state_view:
  "load_vault_state L db v = (case view_balances (chain_view_of L S db) of None \<Rightarrow> (v, False)
     | Some (c, s, f) \<Rightarrow> (fst (restore_state v c s f), c = s + f))"
  by (auto simp: load_vault_state_def chain_view_of_def view_of_tables_def read_balances_def
      restore_state_def Let_def split: option.split sum.split prod.split)

lemma set_map_filter_iff: "y \<in> set (List.map_filter f xs) \<longleftrightarrow> (\<exists>x \<in> set xs. f x = Some y)"
  by (induction xs) (auto simp: List.map_filter_simps split: option.split)

lemma load_all_utxos_view:
  assumes "lmdb_ok L"
  shows "set (load_all_utxos L S db) = ran (view_output (chain_view_of L S db))"
proof (cases "snapshot L db")
  case (Some s)
  have "set (load_all_utxos L S db) = {out. \<exists>k v. mdb_get L s Utxos k = Some v \<and> stored_output S v = Some out}"
    by (auto simp: load_all_utxos_def Some set_map_filter_iff Bex_def lmdb_okD(7) [OF assms]) blast
  also have "\<dots> = ran (view_output (chain_view_of L S db))"
    by (auto simp: chain_view_of_def view_of_tables_def Some ran_def bind_eq_Some_conv)
  finally show ?thesis .
qed (simp add: load_all_utxos_def chain_view_of_def view_of_tables_def)

lemma load_all_key_images_view:
  assumes "lmdb_ok L"
  shows "set (load_all_key_images L db) = {c. length c = 32 \<and> view_spent (chain_view_of L S db) c}"
proof (cases "snapshot L db")
  case (Some s)
  have "set (load_all_key_images L db) = {c. length c = 32 \<and> (\<exists>v. (c, v) \<in> set (mdb_entries L s Key_images))}"
    by (force simp: load_all_key_images_def Some)
  then show ?thesis
    by (simp add: lmdb_okD(7) [OF assms] chain_view_of_def view_of_tables_def Some)
qed (simp add: load_all_key_images_def chain_view_of_def view_of_tables_def)

text \<open>The abstract commit.\<close>

definition add_view_outputs ::
  "(bytes \<Rightarrow> one_time_output option) \<Rightarrow> one_time_output list \<Rightarrow> bytes \<Rightarrow> one_time_output option" where
  "add_view_outputs m outs = foldl (\<lambda>m out. m(destination_one_time out \<mapsto> out)) m outs"

definition view_commit ::
  "sodium \<Rightarrow> block \<Rightarrow> vault \<Rightarrow> one_time_output list \<Rightarrow> bytes list \<Rightarrow> chain_view \<Rightarrow> chain_view" where
  "view_commit S b v outs kis V =
     \<lparr>view_tip = (hdr_height (header b), block_hash S b),
      view_block = (view_block V)(hdr_height (header b) \<mapsto> b),
      view_spent = (\<lambda>c. c \<in> canonical_key_image S ` set kis \<or> view_spent V c),
      view_processed = (\<lambda>tx. tx \<noteq> [] \<and> tx \<in> dep_tx_hash ` set (deposits b) \<or> view_processed V tx),
      view_output = add_view_outputs (view_output V) outs,
      view_balances = Some (balances v)\<rparr>"

lemma stored_output_serialized:
  assumes "wire_output S out"
  shows "stored_output S (serialize_output [] out) = Some out"
  using output_codec.decode_at [OF assms, of "[]" "[]"]
  by (simp add: stored_output_def serialize_output_eq new_reader_at)

lemma read_vault_record [simp]: "read_balances (vault_record v) = Some (balances v)"
proof -
  have rec: "vault_record v = le_bytes 8 (total_collateral v) @ le_bytes 8 (circulating_supply v)
      @ le_bytes 8 (fee_pool_reserve v)"
    by (simp add: vault_record_def write_u64_eq)
  have "parses (rbind read_u64 (\<lambda>collateral. rbind read_u64 (\<lambda>circulating.
      rbind read_u64 (\<lambda>fee_pool. rpure (collateral, circulating, fee_pool))))) (vault_record v) (balances v)"
    unfolding rec balances_def by (rule parse_steps | simp)+
  then show ?thesis
    unfolding parses_def read_balances_def new_reader_at by (metis (no_types, lifting) append_Nil2 case_prod_conv sum.case(2))
qed

lemma bind_add_outputs:
  assumes "list_all (wire_output S) outs"
  shows "(\<lambda>d. Option.bind (add_outputs m outs d) (stored_output S))
    = add_view_outputs (\<lambda>d. Option.bind (m d) (stored_output S)) outs"
  using assms
proof (induction outs arbitrary: m)
  case (Cons out outs)
  then have "(\<lambda>d. Option.bind (add_outputs (m(destination_one_time out \<mapsto> serialize_output [] out)) outs d)
      (stored_output S))
    = add_view_outputs (\<lambda>d. Option.bind ((m(destination_one_time out \<mapsto> serialize_output [] out)) d)
        (stored_output S)) outs"
    by simp
  moreover have "(\<lambda>d. Option.bind ((m(destination_one_time out \<mapsto> serialize_output [] out)) d) (stored_output S))
    = (\<lambda>d. Option.bind (m d) (stored_output S))(destination_one_time out \<mapsto> out)"
    using Cons.prems stored_output_serialized [of S out] by (auto intro!: ext)
  ultimately show ?case
    by (simp add: add_outputs_def add_view_outputs_def)
qed (simp add: add_outputs_def add_view_outputs_def)

lemma write_block_view:
  assumes "lmdb_ok L" and "wire_block S b" and "hdr_version (header b) \<ge> 3"
    and "list_all (wire_output S) outs" and "write_block L S s b v outs kis = Inr t"
  shows "view_of_tables S (hdr_height (header b), block_hash S b) (mdb_get L t)
    = view_commit S b v outs kis (view_of_tables S tip (mdb_get L s))"
proof -
  obtain bs where bs: "serialize_block b = Inr bs" and g: "mdb_get L t = (mdb_get L s)
    (Blocks := (mdb_get L s Blocks)(height_key (hdr_height (header b)) \<mapsto> bs),
     Block_index := (mdb_get L s Block_index)(block_hash S b \<mapsto> height_key (hdr_height (header b))),
     Key_images := (\<lambda>k. if k \<in> canonical_key_image S ` set kis
       then Some (height_key (hdr_height (header b))) else mdb_get L s Key_images k),
     Utxos := add_outputs (mdb_get L s Utxos) outs,
     Deposit_txs := (\<lambda>k. if k \<in> bytes_of_string ` (dep_tx_hash ` set (deposits b) - {[]})
       then Some (height_key (hdr_height (header b))) else mdb_get L s Deposit_txs k),
     Metadata := (mdb_get L s Metadata)(top_height_key \<mapsto> height_key (hdr_height (header b)),
       vault_state_key \<mapsto> vault_record v))"
    using write_block_get [OF assms(1,5)] by blast
  have "deserialize_block S bs = Inr b"
    using block_codec.decode_at [of S b "[]" "[]"] assms(2,3) bs
    by (simp add: serialize_block_eq deserialize_block_def new_reader_at)
  then show ?thesis
    unfolding view_of_tables_def view_commit_def g
    by (auto intro!: ext simp: bind_add_outputs [OF assms(4)] inj_image_mem_iff)
qed

text \<open>Opening the environment again finds the tip that was committed.\<close>

lemma reopen_committed:
  assumes "lmdb_ok L" and "wire_block S b" and "hdr_version (header b) \<ge> 3"
    and "commit_block L S db b v outs kis = (db', Inr ())"
  shows "db_open L S new_chain_db (db_env db') = (db', Inr ())"
proof -
  from assms(4) obtain s t s' where w: "write_block L S s b v outs kis = Inr t"
    and c: "mdb_txn_commit L t = Some s'"
    and db': "db' = \<lparr>db_env = Some s', db_top_height = hdr_height (header b), db_top_hash = block_hash S b\<rparr>"
    by (auto simp: commit_block_def split: option.splits if_splits sum.splits)
  obtain bs where bs: "serialize_block b = Inr bs"
    and g: "mdb_get L t Blocks (height_key (hdr_height (header b))) = Some bs"
      "mdb_get L t Metadata top_height_key = Some (height_key (hdr_height (header b)))"
    using write_block_get [OF assms(1) w] by auto
  have "deserialize_block S bs = Inr b"
    using block_codec.decode_at [of S b "[]" "[]"] assms(2,3) bs
    by (simp add: serialize_block_eq deserialize_block_def new_reader_at)
  moreover have "from_big_endian_64 (le_value (height_key h)) = h" for h
    by (simp add: height_key_def le_value_le_bytes)
  ultimately have "init_top_height L S s' = (hdr_height (header b), block_hash S b)"
    using g by (simp add: init_top_height_def lmdb_okD(1,5) [OF assms(1)] lmdb_okD(5) [OF assms(1) c])
  then show ?thesis
    by (simp add: db_open_def new_chain_db_def db')
qed

lemma commit_block_view:
  assumes "lmdb_ok L" and "wire_block S b" and "hdr_version (header b) \<ge> 3"
    and "list_all (wire_output S) outs" and "commit_block L S db b v outs kis = (db', Inr ())"
  shows "chain_view_of L S db' = view_commit S b v outs kis (chain_view_of L S db)"
proof -
  from assms(5) obtain s t s' where s: "db_env db = Some s" and w: "write_block L S s b v outs kis = Inr t"
    and c: "mdb_txn_commit L t = Some s'"
    and db': "db' = \<lparr>db_env = Some s', db_top_height = hdr_height (header b), db_top_hash = block_hash S b\<rparr>"
    by (auto simp: commit_block_def split: option.splits if_splits sum.splits)
  have "snapshot L db' = Some s'" and "snapshot L db = Some s"
    by (simp_all add: snapshot_open [OF assms(1)] db' s)
  then show ?thesis
    using write_block_view [OF assms(1-4) w]
    by (simp add: chain_view_of_def db' lmdb_okD(5) [OF assms(1) c])
qed

lemma commit_block_error: "commit_block L S db b v outs kis = (db', Inl e) \<Longrightarrow> db' = db"
  by (auto simp: commit_block_def split: option.splits if_splits sum.splits)

section \<open>Undoing a block\<close>

text \<open>An environment in which puts and commits do not fail, for lack of space say.\<close>

definition lmdb_reliable :: "'s lmdb \<Rightarrow> bool" where
  "lmdb_reliable L \<longleftrightarrow> (\<forall>s d k v. mdb_put L s d k v \<noteq> None) \<and> (\<forall>s. mdb_txn_commit L s \<noteq> None)"

text \<open>The keys under which a block is stored are not in use.\<close>

definition fresh_block :: "sodium \<Rightarrow> block \<Rightarrow> (dbi \<Rightarrow> bytes \<Rightarrow> bytes option) \<Rightarrow> bool" where
  "fresh_block S b g \<longleftrightarrow>
     g Blocks (height_key (hdr_height (header b))) = None
   \<and> g Block_index (block_hash S b) = None
   \<and> (\<forall>i \<in> set (block_images b). g Key_images (canonical_key_image S i) = None)
   \<and> (\<forall>out \<in> set (block_outputs b). g Utxos (destination_one_time out) = None)
   \<and> (\<forall>dep \<in> set (deposits b). g Deposit_txs (bytes_of_string (dep_tx_hash dep)) = None)"

lemma del_ignored_get:
  assumes "lmdb_ok L"
  shows "mdb_get L (del_ignored L d t k) = (mdb_get L t)(d := (mdb_get L t d)(k := None))"
proof (cases "mdb_del L t d k")
  case None
  with assms have "mdb_get L t d k = None"
    by (simp add: lmdb_okD(4))
  with None show ?thesis
    by (auto simp: del_ignored_def intro!: ext)
qed (simp add: del_ignored_def lmdb_okD(3) [OF assms])

lemma foldl_del_get:
  assumes "lmdb_ok L"
  shows "mdb_get L (foldl (\<lambda>t x. del_ignored L d t (f x)) t xs)
    = (mdb_get L t)(d := mdb_get L t d |` (- f ` set xs))"
proof (induction xs arbitrary: t)
  case (Cons x xs)
  show ?case
    unfolding foldl_Cons Cons.IH del_ignored_get [OF assms]
    by (auto intro!: ext simp: restrict_map_def)
qed (auto intro!: ext simp: restrict_map_def)

lemma foldl_if_filter:
  "foldl (\<lambda>t x. if P x then f t x else t) t xs = foldl f t (filter P xs)"
  by (induction xs arbitrary: t) simp_all

lemma erase_block_get:
  assumes "lmdb_ok L"
  shows "mdb_get L (erase_block L S b t) = (mdb_get L t)
    (Block_index := (mdb_get L t Block_index)(block_hash S b := None),
     Key_images := mdb_get L t Key_images |` (- canonical_key_image S ` set (block_images b)),
     Utxos := mdb_get L t Utxos |` (- destination_one_time ` set (block_outputs b)),
     Deposit_txs := mdb_get L t Deposit_txs
       |` (- (bytes_of_string \<circ> dep_tx_hash) ` {dep \<in> set (deposits b). dep_tx_hash dep \<noteq> []}))"
  unfolding erase_block_def Let_def foldl_if_filter
  using foldl_del_get [OF assms, where f = "bytes_of_string \<circ> dep_tx_hash"]
  by (simp add: foldl_del_get [OF assms] del_ignored_get [OF assms])

lemma replay_heights_cong:
  assumes "\<forall>h \<in> set hs. mdb_get L t Blocks (height_key (of_nat h)) = mdb_get L s Blocks (height_key (of_nat h))"
  shows "replay_heights L S t v hs = replay_heights L S s v hs"
  using assms
proof (induction hs arbitrary: v)
  case (Cons h hs)
  then have "replay_heights L S t w hs = replay_heights L S s w hs" for w
    by simp
  with Cons.prems show ?case
    by (simp split: option.split)
qed simp

lemma put_ignored_get:
  assumes "lmdb_ok L" and "lmdb_reliable L"
  shows "mdb_get L (put_ignored L d t k v) = (mdb_get L t)(d := (mdb_get L t d)(k \<mapsto> v))"
  using assms(2) by (auto simp: put_ignored_def lmdb_reliable_def lmdb_okD(2) [OF assms(1)] split: option.split)

lemma wire_block_outputs: "wire_block S b \<Longrightarrow> list_all (wire_output S) (block_outputs b)"
  by (auto simp: wire_block_def block_outputs_def wire_tx_def list_all_iff)

text \<open>The tables after a fresh block was written and erased again.\<close>

lemma add_outputs_outside: "d \<notin> destination_one_time ` set outs \<Longrightarrow> add_outputs m outs d = m d"
  unfolding add_outputs_def by (induction outs arbitrary: m) auto

lemma erase_written:
  assumes "lmdb_ok L" and "fresh_block S b (mdb_get L s)"
    and "write_block L S s b v outs (block_images b) = Inr t" and "set outs = set (block_outputs b)"
    and "mdb_get L t' = mdb_get L t" and "mdb_del L t' Blocks (height_key (hdr_height (header b))) = Some u"
  shows "mdb_get L (erase_block L S b u) = (mdb_get L s)(Metadata := mdb_get L t Metadata)"
proof -
  obtain bs where g: "mdb_get L t = (mdb_get L s)
    (Blocks := (mdb_get L s Blocks)(height_key (hdr_height (header b)) \<mapsto> bs),
     Block_index := (mdb_get L s Block_index)(block_hash S b \<mapsto> height_key (hdr_height (header b))),
     Key_images := (\<lambda>k. if k \<in> canonical_key_image S ` set (block_images b)
       then Some (height_key (hdr_height (header b))) else mdb_get L s Key_images k),
     Utxos := add_outputs (mdb_get L s Utxos) outs,
     Deposit_txs := (\<lambda>k. if k \<in> bytes_of_string ` (dep_tx_hash ` set (deposits b) - {[]})
       then Some (height_key (hdr_height (header b))) else mdb_get L s Deposit_txs k),
     Metadata := (mdb_get L s Metadata)(top_height_key \<mapsto> height_key (hdr_height (header b)),
       vault_state_key \<mapsto> vault_record v))"
    using write_block_get [OF assms(1,3)] by blast
  note f = assms(2) [unfolded fresh_block_def]
  have tabs: "(mdb_get L s Blocks)(height_key (hdr_height (header b)) := None) = mdb_get L s Blocks"
    "(mdb_get L s Block_index)(block_hash S b := None) = mdb_get L s Block_index"
    using f by (auto intro!: ext)
  have imgs: "(\<lambda>k. if k \<in> canonical_key_image S ` set (block_images b)
       then Some (height_key (hdr_height (header b))) else mdb_get L s Key_images k)
      |` (- canonical_key_image S ` set (block_images b)) = mdb_get L s Key_images"
    using f by (auto intro!: ext simp: restrict_map_def)
  have outs: "add_outputs (mdb_get L s Utxos) outs
      |` (- destination_one_time ` set (block_outputs b)) = mdb_get L s Utxos"
    using f add_outputs_outside [of _ outs] assms(4) by (fastforce intro!: ext simp: restrict_map_def)
  have deps: "(\<lambda>k. if k \<in> bytes_of_string ` (dep_tx_hash ` set (deposits b) - {[]})
       then Some (height_key (hdr_height (header b))) else mdb_get L s Deposit_txs k)
      |` (- (bytes_of_string \<circ> dep_tx_hash) ` {dep \<in> set (deposits b). dep_tx_hash dep \<noteq> []})
      = mdb_get L s Deposit_txs"
    using f by (auto intro!: ext simp: restrict_map_def)
  show ?thesis
    unfolding erase_block_get [OF assms(1)] lmdb_okD(3) [OF assms(1,6)] assms(5)
    by (rule ext) (simp add: g tabs imgs outs deps [unfolded o_def] o_def)
qed

lemma rollback_after_commit:
  assumes "lmdb_ok L" and "lmdb_reliable L" and "wire_block S b" and "hdr_version (header b) \<ge> 3"
    and "db_env db = Some s" and "fresh_block S b (mdb_get L s)"
    and "get_block_by_height L S db (db_top_height db) = Some p" and "block_hash S p = db_top_hash db"
    and "hdr_height (header b) = db_top_height db + 1" and "hdr_height (header b) \<noteq> 0"
    and "set outs = set (block_outputs b)"
    and "commit_block L S db b v outs (block_images b) = (db1, Inr ())"
    and "replay_heights L S s (new_vault 50 50) [1..<Suc (unat (db_top_height db))] = Inr w"
  shows "\<exists>db2. rollback_top_block L S db1 = (db2, True)
    \<and> chain_view_of L S db2 = (chain_view_of L S db)\<lparr>view_balances := Some (balances w)\<rparr>"
proof -
  let ?h = "hdr_height (header b)" and ?top = "db_top_height db"
  from assms(5,12) obtain t s1 where wr: "write_block L S s b v outs (block_images b) = Inr t"
    and c: "mdb_txn_commit L t = Some s1"
    and db1: "db1 = \<lparr>db_env = Some s1, db_top_height = ?h, db_top_hash = block_hash S b\<rparr>"
    by (auto simp: commit_block_def split: if_splits sum.splits option.splits)
  have g1: "mdb_get L s1 = mdb_get L t"
    by (rule lmdb_okD(5) [OF assms(1) c])
  obtain bs where bs: "serialize_block b = Inr bs" "mdb_get L t Blocks (height_key ?h) = Some bs"
    using write_block_get [OF assms(1) wr] by auto
  have des: "deserialize_block S bs = Inr b"
    using block_codec.decode_at [of S b "[]" "[]"] assms(3,4) bs
    by (simp add: serialize_block_eq deserialize_block_def new_reader_at)
  obtain u where u: "mdb_del L s1 Blocks (height_key ?h) = Some u"
    using bs(2) lmdb_okD(4) [OF assms(1), of s1 Blocks "height_key ?h"] g1 by auto
  define t1 where "t1 = erase_block L S b u"
  have get1: "mdb_get L t1 = (mdb_get L s)(Metadata := mdb_get L t Metadata)"
    unfolding t1_def by (rule erase_written [OF assms(1,6) wr assms(11) g1 u])
  have prev: "previous_hash L S t1 ?top = Inr (db_top_hash db)"
    using assms(7,8) by (auto simp: previous_hash_def get1 get_block_by_height_def stored_block_def
        snapshot_open [OF assms(1,5)] split: option.splits sum.splits)
  define t2 where "t2 = put_ignored L Metadata t1 top_height_key (height_key ?top)"
  have get2: "mdb_get L t2 = (mdb_get L t1)(Metadata := (mdb_get L t1 Metadata)(top_height_key \<mapsto> height_key ?top))"
    unfolding t2_def by (rule put_ignored_get [OF assms(1,2)])
  have rep: "replay_heights L S t2 (new_vault 50 50) [1..<Suc (unat ?top)] = Inr w"
    using assms(13) replay_heights_cong [of "[1..<Suc (unat ?top)]" L t2 s S "new_vault 50 50"]
    by (simp add: get2 get1)
  define t3 where "t3 = put_ignored L Metadata t2 vault_state_key (vault_record w)"
  have get3: "mdb_get L t3 = (mdb_get L t2)(Metadata := (mdb_get L t2 Metadata)(vault_state_key \<mapsto> vault_record w))"
    unfolding t3_def by (rule put_ignored_get [OF assms(1,2)])
  obtain s2 where s2: "mdb_txn_commit L t3 = Some s2"
    using assms(2) unfolding lmdb_reliable_def by blast
  define db2 where "db2 = \<lparr>db_env = Some s2, db_top_height = ?top, db_top_hash = db_top_hash db\<rparr>"
  have "rollback_top_block L S db1 = (db2, True)"
    unfolding rollback_top_block_def db1
    using assms(9,10) bs(2) g1 des u prev rep s2
    by (simp add: lmdb_okD(1) [OF assms(1)] Let_def t1_def [symmetric] t2_def [symmetric]
        t3_def [symmetric] db2_def)
  moreover have "chain_view_of L S db2 = (chain_view_of L S db)\<lparr>view_balances := Some (balances w)\<rparr>"
    by (simp add: chain_view_of_def db2_def snapshot_open [OF assms(1)] snapshot_open [OF assms(1,5)]
        lmdb_okD(5) [OF assms(1) s2] get3 get2 get1 view_of_tables_def)
  ultimately show ?thesis
    by blast
qed

text \<open>Without such failures a commit of a block that serializes succeeds.\<close>

lemma put_or_reliable: "lmdb_reliable L \<Longrightarrow> \<exists>t'. put_or L e d t k v = Inr t'"
  by (auto simp: lmdb_reliable_def put_or_def split: option.split)

lemma put_loops_reliable:
  assumes "lmdb_reliable L"
  shows "\<exists>t'. put_images L S be t kis = Inr t'" and "\<exists>t'. put_utxos L t outs = Inr t'"
    and "\<exists>t'. put_deposits L be t deps = Inr t'"
proof -
  note p = put_or_reliable [OF assms]
  show "\<exists>t'. put_images L S be t kis = Inr t'"
    by (induction kis arbitrary: t) (simp, metis ebind_simps(2) p put_images.simps(2))
  show "\<exists>t'. put_utxos L t outs = Inr t'"
    by (induction outs arbitrary: t) (simp, metis ebind_simps(2) p put_utxos.simps(2))
  show "\<exists>t'. put_deposits L be t deps = Inr t'"
    by (induction deps arbitrary: t) (simp, metis ebind_simps(2) p put_deposits.simps(2))
qed

lemma commit_block_succeeds:
  assumes "lmdb_ok L" and "lmdb_reliable L" and "serialize_block b = Inr bs" and "db_env db = Some s"
  shows "\<exists>db'. commit_block L S db b v outs kis = (db', Inr ())"
proof -
  note p = put_or_reliable [OF assms(2)] and loops = put_loops_reliable [OF assms(2)]
  have "\<exists>t. write_block L S s b v outs kis = Inr t"
    unfolding write_block_def Let_def assms(3) ebind_simps
    by (metis (no_types, lifting) ebind_simps(2) p loops)
  then obtain t where "write_block L S s b v outs kis = Inr t"
    by blast
  moreover obtain s' where "mdb_txn_commit L t = Some s'"
    using assms(2) unfolding lmdb_reliable_def by blast
  ultimately show ?thesis
    using assms(4) by (simp add: commit_block_def lmdb_okD(1) [OF assms(1)])
qed

section \<open>A reference environment\<close>

text \<open>Association lists satisfy the hypotheses on LMDB; the witnesses compute with them.\<close>

definition toy_lmdb :: "(dbi \<Rightarrow> (bytes \<times> bytes) list) lmdb" where
  "toy_lmdb =
     \<lparr>mdb_txn_begin = (\<lambda>s. True),
      mdb_get = (\<lambda>s d. map_of (s d)),
      mdb_put = (\<lambda>s d k v. Some (s(d := AList.update k v (s d)))),
      mdb_del = (\<lambda>s d k. if map_of (s d) k = None then None else Some (s(d := AList.delete k (s d)))),
      mdb_entries = (\<lambda>s d. AList.clearjunk (s d)),
      mdb_txn_commit = Some\<rparr>"

lemma toy_lmdb_ok: "lmdb_ok toy_lmdb"
proof -
  have "(k, v) \<in> set (AList.clearjunk xs) \<longleftrightarrow> map_of xs k = Some v" for k v and xs :: "(bytes \<times> bytes) list"
    using map_of_eq_Some_iff [OF distinct_clearjunk, of xs k v] by (simp add: map_of_clearjunk)
  then show ?thesis
    by (auto simp: lmdb_ok_def toy_lmdb_def update_conv' delete_conv' distinct_clearjunk)
qed

lemma toy_lmdb_reliable: "lmdb_reliable toy_lmdb"
  by (simp add: lmdb_reliable_def toy_lmdb_def)

section \<open>Properties\<close>


lemma sample_block_wire: "wire_block toy_sodium sample_block" "hdr_version (header sample_block) \<ge> 3"
  by (simp_all add: sample_block_def wire_block_def wire_header_def wire_tx_def wire_ring_sig_def
      wire_output_def output_ok_def MAX_TX_OUTPUTS_def MAX_BLOCK_TRANSACTIONS_def
      MAX_BLOCK_OUTPUTS_def MAX_SERIALIZED_STRING_BYTES_def)

definition empty_db :: "(dbi \<Rightarrow> (bytes \<times> bytes) list) chain_db" where
  "empty_db = \<lparr>db_env = Some (\<lambda>d. []), db_top_height = 0, db_top_hash = zero_key\<rparr>"

lemma toy_commit:
  assumes "wire_block toy_sodium b" and "db_env db = Some s"
  obtains db' where "commit_block toy_lmdb toy_sodium db b v outs kis = (db', Inr ())"
  using commit_block_succeeds [OF toy_lmdb_ok toy_lmdb_reliable serialize_block_eq [OF assms(1)] assms(2)] by blast



text \<open>The chain of one empty block.\<close>

definition one_block_db :: "(dbi \<Rightarrow> (bytes \<times> bytes) list) chain_db" where
  "one_block_db = fst (commit_block toy_lmdb toy_sodium empty_db empty_block (new_vault 50 50) [] [])"


end
