(* ===== verification/Validation.thy ===== *)
theory Validation
  imports ChainDB
begin

text \<open>
  Model of the checks of \<^verbatim>\<open>Node::apply_remote_block\<close> in \<^verbatim>\<open>src/node.cpp\<close>: what a block from
  the network must satisfy against the state of the node before it is applied. The checks
  stand in the order of the source; each message it returns is a constructor of
  \<open>rejection\<close>, and an exception that leaves the function is \<open>Thrown\<close>. The calls that only
  wipe memory are left out.
\<close>

section \<open>The state of a node\<close>

text \<open>
  The fields of \<^verbatim>\<open>Node\<close>. \<open>node_announced\<close> collects the blocks handed to the callback
  \<^verbatim>\<open>on_block_mined_\<close>, which is set when \<open>node_callback_set\<close> holds. The mutex makes each
  method one step.
\<close>

record 's node =
  node_db :: "'s chain_db"
  node_vault :: vault
  node_ledger :: key_image_ledger
  node_pool :: "one_time_output list"
  node_history :: "shielded_transaction list"
  node_callback_set :: bool
  node_announced :: "block list"
  node_validator_pub :: bytes
  node_validator_secret :: bytes
  node_has_validator_key :: bool
  node_authorized :: "bytes list"
  node_threshold :: u32

definition image_spent :: "'s lmdb \<Rightarrow> sodium \<Rightarrow> 's node \<Rightarrow> bytes \<Rightarrow> bool" where
  "image_spent L S n img \<longleftrightarrow> is_spent S (node_ledger n) img \<or> is_key_image_spent L S (node_db n) img"

definition required_quorum :: "'s node \<Rightarrow> nat" where
  "required_quorum n = unat (max 1 (node_threshold n))"

section \<open>Outcomes\<close>

datatype (plugins only: code size) rejection =
    Reorg_top_missing
  | Reorg_other_ancestor
  | Reorg_not_preferred
  | Reorg_rollback_failed
  | Bad_height
  | Bad_previous_hash
  | Bad_merkle_root
  | No_authorized_validators
  | Quorum_insufficient
  | Bad_validator_signature
  | Validator_not_authorized
  | Deposit_count_mismatch
  | Deposit_hash_empty
  | Deposit_replayed
  | Deposit_repeated_in_block
  | Deposit_gross_zero
  | Deposit_wrong_fee
  | Deposit_wrong_amount
  | Deposit_ephemeral_failed
  | Deposit_wrong_ephemeral
  | Deposit_no_recipient
  | Deposit_bad_recipient
  | Deposit_rB_failed
  | Deposit_hG_failed
  | Deposit_sum_failed
  | Deposit_wrong_destination
  | Deposit_bad_destination
  | Deposit_refused error
  | Tx_wrong_hash
  | Tx_bad_signature
  | Tx_double_spend_in_block
  | Tx_double_spend
  | Tx_zero_output
  | Tx_amount_overflow
  | Tx_ring_duplicate
  | Tx_ring_mixed
  | Tx_ring_unknown
  | Tx_unbalanced
  | Change_zero
  | Change_bad_point
  | Burn_zero
  | Burn_wrong_fee
  | Burn_bad_address
  | Burn_output_unknown
  | Burn_output_short
  | Burn_change_missing
  | Burn_change_unexpected
  | Burn_bad_proof
  | Burn_double_spend
  | Burn_double_spend_in_block
  | Burn_refused error
  | Change_orphaned
  | Block_insolvent
  | Persist_failed error

datatype stop = Rejected rejection | Thrown error

text \<open>A call that may throw, inside a check that may reject.\<close>

definition throwing :: "error + 'a \<Rightarrow> stop + 'a" where
  "throwing m = (case m of Inl e \<Rightarrow> Inl (Thrown e) | Inr x \<Rightarrow> Inr x)"

section \<open>Header\<close>

definition check_header :: "sodium \<Rightarrow> 's node \<Rightarrow> u64 \<Rightarrow> block \<Rightarrow> stop + unit" where
  "check_header S n current_height b =
     (if hdr_height (header b) \<noteq> current_height + 1 then Inl (Rejected Bad_height)
      else if prev_block_hash (header b) \<noteq> db_top_hash (node_db n) then Inl (Rejected Bad_previous_hash)
      else ebind (throwing (compute_merkle_root S b)) (\<lambda>calculated_root.
        if merkle_root (header b) \<noteq> calculated_root then Inl (Rejected Bad_merkle_root)
        else if deposits b \<noteq> [] then
          (if node_authorized n = [] then Inl (Rejected No_authorized_validators)
           else if verify_quorum S (header b) (node_authorized n) < required_quorum n
           then Inl (Rejected Quorum_insufficient)
           else Inr ())
        else if node_authorized n \<noteq> [] then
          (if \<not> verify_signature S (header b) then Inl (Rejected Bad_validator_signature)
           else if \<not> list_ex (\<lambda>auth_pk. auth_pk = validator_pubkey (header b)) (node_authorized n)
           then Inl (Rejected Validator_not_authorized)
           else Inr ())
        else Inr ()))"

section \<open>Deposits\<close>

text \<open>
  The output of a deposit must be the one derived from its transaction hash for the
  recipient named in the receipt.
\<close>

definition check_derivation :: "sodium \<Rightarrow> deposit_receipt \<Rightarrow> one_time_output \<Rightarrow> stop + unit" where
  "check_derivation S dep out =
     (let seed = generichash S 32 (bytes_of_string (dep_tx_hash dep)) [];
          expected_r = scalar_reduce S (generichash S 64 seed [])
      in case mult_base S expected_r of (ok, expected_R) \<Rightarrow>
      if \<not> ok then Inl (Rejected Deposit_ephemeral_failed)
      else if ephemeral_public_key out \<noteq> expected_R then Inl (Rejected Deposit_wrong_ephemeral)
      else if \<not> list_ex (\<lambda>x. x \<noteq> 0) (dep_recipient_view_pub dep) then Inl (Rejected Deposit_no_recipient)
      else if \<not> is_valid_point S (dep_recipient_view_pub dep)
            \<or> \<not> is_valid_point S (dep_recipient_spend_pub dep) then Inl (Rejected Deposit_bad_recipient)
      else case mult_noclamp S expected_r (dep_recipient_view_pub dep) of
        None \<Rightarrow> Inl (Rejected Deposit_rB_failed)
      | Some rB \<Rightarrow>
         (case mult_base S (scalar_reduce S (generichash S 64 rB [])) of (ok, hG) \<Rightarrow>
          if \<not> ok then Inl (Rejected Deposit_hG_failed)
          else case ed_add S hG (dep_recipient_spend_pub dep) of
            None \<Rightarrow> Inl (Rejected Deposit_sum_failed)
          | Some expected_P \<Rightarrow>
              if destination_one_time out \<noteq> expected_P then Inl (Rejected Deposit_wrong_destination)
              else if \<not> is_valid_point S (destination_one_time out)
              then Inl (Rejected Deposit_bad_destination)
              else Inr ()))"

text \<open>The loop over the deposits with their outputs: the hashes seen and the vault so far.\<close>

fun check_deposits ::
  "'s lmdb \<Rightarrow> sodium \<Rightarrow> 's node \<Rightarrow> string list \<Rightarrow> vault \<Rightarrow> (deposit_receipt \<times> one_time_output) list
     \<Rightarrow> stop + vault" where
  "check_deposits L S n seen temp_vault [] = Inr temp_vault"
| "check_deposits L S n seen temp_vault ((dep, out) # rest) =
     (if dep_tx_hash dep = [] then Inl (Rejected Deposit_hash_empty)
      else if is_deposit_tx_processed L (node_db n) (dep_tx_hash dep) then Inl (Rejected Deposit_replayed)
      else if list_ex (\<lambda>existing_tx. existing_tx = dep_tx_hash dep) seen
      then Inl (Rejected Deposit_repeated_in_block)
      else if dep_gross_usdt_deposited dep = 0 then Inl (Rejected Deposit_gross_zero)
      else ebind (throwing (safe_fee_calc (dep_gross_usdt_deposited dep) (deposit_fee_bps (node_vault n))))
        (\<lambda>expected_fee.
          let expected_net = dep_gross_usdt_deposited dep - expected_fee in
          if dep_fee_to_pool dep \<noteq> expected_fee \<or> dep_net_shielded_tokens_minted dep \<noteq> expected_net
          then Inl (Rejected Deposit_wrong_fee)
          else if out_amount out \<noteq> expected_net then Inl (Rejected Deposit_wrong_amount)
          else ebind (check_derivation S dep out) (\<lambda>_.
            case deposit temp_vault (dep_gross_usdt_deposited dep) (dep_tx_hash dep) [] of
              (_, Inl e) \<Rightarrow> Inl (Rejected (Deposit_refused e))
            | (temp_vault', Inr _) \<Rightarrow>
                check_deposits L S n (seen @ [dep_tx_hash dep]) temp_vault' rest)))"

section \<open>Transactions\<close>

text \<open>
  The two loops that \<^verbatim>\<open>apply_remote_block\<close> and \<^verbatim>\<open>submit_pre_signed_transaction\<close> share; what
  they report differs and is an argument. The sum of fee and outputs:
\<close>

fun sum_outputs :: "'e \<Rightarrow> 'e \<Rightarrow> amount \<Rightarrow> one_time_output list \<Rightarrow> 'e + amount" where
  "sum_outputs e_zero e_overflow total_spent [] = Inr total_spent"
| "sum_outputs e_zero e_overflow total_spent (out # outs) =
     (if out_amount out = 0 then Inl e_zero
      else case safe_add_amount total_spent (out_amount out) of
        None \<Rightarrow> Inl e_overflow
      | Some total_spent \<Rightarrow> sum_outputs e_zero e_overflow total_spent outs)"

text \<open>and the denomination of a ring, the amount of all its members in the pool:\<close>

definition pool_amount :: "one_time_output list \<Rightarrow> bytes \<Rightarrow> amount option" where
  "pool_amount pool pk = map_option out_amount (List.find (\<lambda>u. pk = destination_one_time u) pool)"

fun ring_denomination ::
  "'e \<Rightarrow> 'e \<Rightarrow> one_time_output list \<Rightarrow> amount option \<Rightarrow> bytes list \<Rightarrow> 'e + amount option" where
  "ring_denomination e_mixed e_unknown pool denomination [] = Inr denomination"
| "ring_denomination e_mixed e_unknown pool denomination (r_pk # r_pks) =
     (case pool_amount pool r_pk of
        None \<Rightarrow> Inl e_unknown
      | Some a \<Rightarrow>
         (case denomination of
            None \<Rightarrow> ring_denomination e_mixed e_unknown pool (Some a) r_pks
          | Some d \<Rightarrow> if a \<noteq> d then Inl e_mixed
                      else ring_denomination e_mixed e_unknown pool (Some d) r_pks))"

definition tx_hash_valid :: "sodium \<Rightarrow> u64 \<Rightarrow> shielded_transaction \<Rightarrow> bool" where
  "tx_hash_valid S height tx =
     (if tx_hash tx = compute_canonical_tx_hash S (tx_outputs tx) (public_fee tx)
           (sig_ring_pubkeys (ring_sig tx)) (sig_key_image (ring_sig tx))
      then True
      else tx_outputs tx \<noteq> [] \<and> height = 0
           \<and> tx_hash tx = generichash S 32 (destination_one_time (tx_outputs tx ! 0)) [])"

definition in_block_double :: "sodium \<Rightarrow> bytes list \<Rightarrow> bytes \<Rightarrow> bool" where
  "in_block_double S spent_images img =
     list_ex (\<lambda>ki. canonical_key_image S ki = canonical_key_image S img) spent_images"

definition check_tx ::
  "'s lmdb \<Rightarrow> sodium \<Rightarrow> 's node \<Rightarrow> u64 \<Rightarrow> bytes list \<Rightarrow> shielded_transaction \<Rightarrow> stop + unit" where
  "check_tx L S n height spent_images tx =
     (if \<not> tx_hash_valid S height tx then Inl (Rejected Tx_wrong_hash)
      else ebind (throwing (ring_verify S (tx_hash tx) (ring_sig tx))) (\<lambda>verified.
        if \<not> verified then Inl (Rejected Tx_bad_signature)
        else if in_block_double S spent_images (sig_key_image (ring_sig tx))
        then Inl (Rejected Tx_double_spend_in_block)
        else if image_spent L S n (sig_key_image (ring_sig tx)) then Inl (Rejected Tx_double_spend)
        else ebind (sum_outputs (Rejected Tx_zero_output) (Rejected Tx_amount_overflow)
                      (public_fee tx) (tx_outputs tx)) (\<lambda>tx_total_spent.
          if ring_has_duplicates (sig_ring_pubkeys (ring_sig tx)) then Inl (Rejected Tx_ring_duplicate)
          else ebind (ring_denomination (Rejected Tx_ring_mixed) (Rejected Tx_ring_unknown)
                        (node_pool n) None (sig_ring_pubkeys (ring_sig tx))) (\<lambda>denomination.
            if denomination \<noteq> Some tx_total_spent then Inl (Rejected Tx_unbalanced) else Inr ()))))"

fun check_txs ::
  "'s lmdb \<Rightarrow> sodium \<Rightarrow> 's node \<Rightarrow> u64 \<Rightarrow> bytes list \<Rightarrow> one_time_output list \<Rightarrow> shielded_transaction list
     \<Rightarrow> stop + (bytes list \<times> one_time_output list)" where
  "check_txs L S n height spent_images new_utxos [] = Inr (spent_images, new_utxos)"
| "check_txs L S n height spent_images new_utxos (tx # rest) =
     ebind (check_tx L S n height spent_images tx) (\<lambda>_.
       check_txs L S n height (spent_images @ [sig_key_image (ring_sig tx)])
         (new_utxos @ tx_outputs tx) rest)"

section \<open>Withdrawals\<close>

fun check_change_outputs :: "sodium \<Rightarrow> one_time_output list \<Rightarrow> stop + unit" where
  "check_change_outputs S [] = Inr ()"
| "check_change_outputs S (co # cos) =
     (if out_amount co = 0 then Inl (Rejected Change_zero)
      else if \<not> is_valid_point S (destination_one_time co) \<or> \<not> is_valid_point S (ephemeral_public_key co)
      then Inl (Rejected Change_bad_point)
      else check_change_outputs S cos)"

text \<open>The first change output not yet claimed that has the amount and the key.\<close>

definition claim_change ::
  "one_time_output list \<Rightarrow> bool list \<Rightarrow> amount \<Rightarrow> bytes \<Rightarrow> bool list option" where
  "claim_change outs claimed expected_change key =
     map_option (\<lambda>oi. claimed[oi := True])
       (List.find (\<lambda>oi. \<not> claimed ! oi \<and> out_amount (outs ! oi) = expected_change
                       \<and> destination_one_time (outs ! oi) = key) [0..<length outs])"

text \<open>What the change of a withdrawal must be: the claims and the number expected so far.\<close>

definition check_change ::
  "one_time_output list \<Rightarrow> amount \<Rightarrow> withdrawal_receipt \<Rightarrow> bool list \<times> nat \<Rightarrow> stop + (bool list \<times> nat)" where
  "check_change outs expected_change wdr st =
     (case st of (claimed, count) \<Rightarrow>
      if expected_change > 0 then
        (case claim_change outs claimed expected_change (wdr_change_output_pubkey wdr) of
           None \<Rightarrow> Inl (Rejected Burn_change_missing)
         | Some claimed' \<Rightarrow> Inr (claimed', count + 1))
      else if wdr_change_output_pubkey wdr \<noteq> zero_key then Inl (Rejected Burn_change_unexpected)
      else Inr (claimed, count))"

definition check_burn ::
  "'s lmdb \<Rightarrow> sodium \<Rightarrow> 's node \<Rightarrow> block \<Rightarrow> bytes list \<Rightarrow> bool list \<times> nat \<Rightarrow> withdrawal_receipt
     \<Rightarrow> stop + (bool list \<times> nat)" where
  "check_burn L S n b spent_images st wdr =
     (if wdr_gross_tokens_burned wdr = 0 then Inl (Rejected Burn_zero)
      else ebind (throwing (safe_fee_calc (wdr_gross_tokens_burned wdr) (withdraw_fee_bps (node_vault n))))
        (\<lambda>expected_fee.
          let expected_net = wdr_gross_tokens_burned wdr - expected_fee in
          if wdr_fee_to_pool wdr \<noteq> expected_fee \<or> wdr_net_usdt_to_tumble wdr \<noteq> expected_net
          then Inl (Rejected Burn_wrong_fee)
          else if \<not> is_valid_evm_address (wdr_destination_address wdr) then Inl (Rejected Burn_bad_address)
          else case pool_amount (node_pool n) (wdr_burned_utxo_pubkey wdr) of
            None \<Rightarrow> Inl (Rejected Burn_output_unknown)
          | Some utxo_amount \<Rightarrow>
              if utxo_amount < wdr_gross_tokens_burned wdr then Inl (Rejected Burn_output_short)
              else ebind (check_change (withdrawal_outputs b)
                            (utxo_amount - wdr_gross_tokens_burned wdr) wdr st) (\<lambda>st.
                ebind (throwing (verify_burn_proof S
                         (compute_burn_message_hash S (wdr_order_id wdr) (wdr_gross_tokens_burned wdr)
                            (wdr_destination_address wdr) (wdr_change_output_pubkey wdr))
                         (wdr_burned_utxo_pubkey wdr) (wdr_key_image wdr)
                         (wdr_burn_signature_c0 wdr) (wdr_burn_signature_s wdr))) (\<lambda>verified.
                  if \<not> verified then Inl (Rejected Burn_bad_proof)
                  else if image_spent L S n (wdr_key_image wdr) then Inl (Rejected Burn_double_spend)
                  else if in_block_double S spent_images (wdr_key_image wdr)
                  then Inl (Rejected Burn_double_spend_in_block)
                  else Inr st))))"

fun check_burns ::
  "'s lmdb \<Rightarrow> sodium \<Rightarrow> 's node \<Rightarrow> block \<Rightarrow> vault \<Rightarrow> bytes list \<Rightarrow> bool list \<times> nat \<Rightarrow> withdrawal_receipt list
     \<Rightarrow> stop + (vault \<times> bytes list \<times> nat)" where
  "check_burns L S n b temp_vault spent_images st [] = Inr (temp_vault, spent_images, snd st)"
| "check_burns L S n b temp_vault spent_images st (wdr # rest) =
     ebind (check_burn L S n b spent_images st wdr) (\<lambda>st.
       case request_withdrawal temp_vault (wdr_gross_tokens_burned wdr) [] of
         (_, Inl e) \<Rightarrow> Inl (Rejected (Burn_refused e))
       | (temp_vault', Inr _) \<Rightarrow>
           check_burns L S n b temp_vault' (spent_images @ [wdr_key_image wdr]) st rest)"

section \<open>The whole block\<close>

text \<open>
  The vault, the images and the new outputs that the block leads to.
\<close>

definition temporary_vault :: "vault \<Rightarrow> error + vault" where
  "temporary_vault v =
     (case restore_state (new_vault (deposit_fee_bps v) (withdraw_fee_bps v))
             (total_collateral v) (circulating_supply v) (fee_pool_reserve v) of
        (_, Inl e) \<Rightarrow> Inl e | (temp_vault, Inr _) \<Rightarrow> Inr temp_vault)"

definition validate_block ::
  "'s lmdb \<Rightarrow> sodium \<Rightarrow> 's node \<Rightarrow> u64 \<Rightarrow> block \<Rightarrow> stop + (vault \<times> bytes list \<times> one_time_output list)" where
  "validate_block L S n current_height b =
     ebind (check_header S n current_height b) (\<lambda>_.
     ebind (throwing (temporary_vault (node_vault n))) (\<lambda>temp_vault.
     if length (deposits b) \<noteq> length (deposit_outputs b) then Inl (Rejected Deposit_count_mismatch)
     else
     ebind (check_deposits L S n [] temp_vault (zip (deposits b) (deposit_outputs b))) (\<lambda>temp_vault.
     ebind (check_txs L S n (hdr_height (header b)) [] [] (txs b)) (\<lambda>(spent_images, new_utxos).
     ebind (check_change_outputs S (withdrawal_outputs b)) (\<lambda>_.
     ebind (check_burns L S n b temp_vault spent_images
              (replicate (length (withdrawal_outputs b)) False, 0) (withdrawals b))
       (\<lambda>(temp_vault, spent_images, expected_change_count).
     if length (withdrawal_outputs b) \<noteq> expected_change_count then Inl (Rejected Change_orphaned)
     else if \<not> audit_solvency temp_vault then Inl (Rejected Block_insolvent)
     else Inr (temp_vault, spent_images, new_utxos @ deposit_outputs b @ withdrawal_outputs b)))))))"

section \<open>What the checks establish\<close>

lemma throwing_eq_Inr [simp]: "throwing m = Inr x \<longleftrightarrow> m = Inr x"
  by (cases m) (simp_all add: throwing_def)

lemma restore_own:
  "restore_state (new_vault (deposit_fee_bps v) (withdraw_fee_bps v)) (total_collateral v)
     (circulating_supply v) (fee_pool_reserve v)
   = (v, if audit_solvency v then Inr () else Inl Restore_inconsistent)"
  by (simp add: restore_state_def new_vault_def Let_def audit_solvency_def)

lemma temporary_vault_eq: "temporary_vault v = Inr tv \<longleftrightarrow> audit_solvency v \<and> tv = v"
  by (auto simp: temporary_vault_def restore_own)

subsection \<open>Deposits\<close>

text \<open>The output of a deposit is the one that a purchase with this hash creates.\<close>

definition deposit_seed :: "sodium \<Rightarrow> string \<Rightarrow> bytes" where
  "deposit_seed S txh = generichash S 32 (bytes_of_string txh) []"

definition deposit_admissible ::
  "'s lmdb \<Rightarrow> sodium \<Rightarrow> 's node \<Rightarrow> deposit_receipt \<times> one_time_output \<Rightarrow> bool" where
  "deposit_admissible L S n = (\<lambda>(dep, out).
     dep_tx_hash dep \<noteq> [] \<and> \<not> is_deposit_tx_processed L (node_db n) (dep_tx_hash dep)
   \<and> dep_gross_usdt_deposited dep \<noteq> 0
   \<and> safe_fee_calc (dep_gross_usdt_deposited dep) (deposit_fee_bps (node_vault n)) = Inr (dep_fee_to_pool dep)
   \<and> dep_net_shielded_tokens_minted dep = dep_gross_usdt_deposited dep - dep_fee_to_pool dep
   \<and> is_valid_point S (destination_one_time out)
   \<and> create_one_time_output S
       \<lparr>addr_spend_public_key = dep_recipient_spend_pub dep, addr_view_public_key = dep_recipient_view_pub dep\<rparr>
       (dep_net_shielded_tokens_minted dep) (Some (deposit_seed S (dep_tx_hash dep))) [] = Inr out)"

lemma check_derivation_output:
  assumes "check_derivation S dep out = Inr ()"
  shows "create_one_time_output S
       \<lparr>addr_spend_public_key = dep_recipient_spend_pub dep, addr_view_public_key = dep_recipient_view_pub dep\<rparr>
       (out_amount out) (Some (deposit_seed S (dep_tx_hash dep))) rnd = Inr out"
    and "is_valid_point S (destination_one_time out)"
  using assms
  by (auto simp: check_derivation_def create_one_time_output_def deposit_seed_def base_point_def Let_def
      split: option.splits prod.splits if_splits)

lemma check_deposits_sound:
  assumes "check_deposits L S n seen tv ps = Inr tv'"
  shows "replay_deposits tv (map fst ps) = Inr tv'
    \<and> list_all (deposit_admissible L S n) ps
    \<and> distinct (map (dep_tx_hash \<circ> fst) ps) \<and> set (map (dep_tx_hash \<circ> fst) ps) \<inter> set seen = {}"
  using assms
proof (induction ps arbitrary: seen tv)
  case (Cons p rest)
  obtain dep out where p: "p = (dep, out)"
    by fastforce
  from Cons.prems obtain fee where first: "dep_tx_hash dep \<noteq> []"
      "\<not> is_deposit_tx_processed L (node_db n) (dep_tx_hash dep)" "dep_tx_hash dep \<notin> set seen"
      "dep_gross_usdt_deposited dep \<noteq> 0"
    and fee: "safe_fee_calc (dep_gross_usdt_deposited dep) (deposit_fee_bps (node_vault n)) = Inr fee"
      "dep_fee_to_pool dep = fee" "dep_net_shielded_tokens_minted dep = dep_gross_usdt_deposited dep - fee"
      "out_amount out = dep_gross_usdt_deposited dep - fee"
    and der: "check_derivation S dep out = Inr ()"
    and rest: "(case deposit tv (dep_gross_usdt_deposited dep) (dep_tx_hash dep) [] of
        (_, Inl e) \<Rightarrow> Inl (Rejected (Deposit_refused e))
      | (tv1, Inr _) \<Rightarrow> check_deposits L S n (seen @ [dep_tx_hash dep]) tv1 rest) = Inr tv'"
    by (auto simp: p ebind_eq_Inr Let_def list_ex_iff split: if_splits)
  from rest obtain tv1 r where dep: "deposit tv (dep_gross_usdt_deposited dep) (dep_tx_hash dep) [] = (tv1, Inr r)"
    and more: "check_deposits L S n (seen @ [dep_tx_hash dep]) tv1 rest = Inr tv'"
    by (auto split: prod.splits sum.splits)
  have adm: "deposit_admissible L S n (dep, out)"
    using first fee check_derivation_output [OF der] by (simp add: deposit_admissible_def)
  show ?case
    using Cons.IH [OF more] adm dep first by (auto simp: p)
qed simp

subsection \<open>Transactions\<close>

lemma sum_outputs_sound:
  assumes "sum_outputs ez eo start outs = Inr t"
  shows "unat t = unat start + sum_list (map (unat \<circ> out_amount) outs) \<and> (\<forall>out \<in> set outs. out_amount out \<noteq> 0)"
  using assms
  by (induction outs arbitrary: start) (auto simp: exact_arith split: if_splits option.splits)

lemma ring_denomination_Some:
  "ring_denomination em eu pool (Some d) pks = Inr den
   \<longleftrightarrow> (\<forall>pk \<in> set pks. pool_amount pool pk \<noteq> None) \<and> (\<forall>pk \<in> set pks. pool_amount pool pk = Some d) \<and> den = Some d"
  by (induction pks) (auto split: option.splits)

lemma ring_denomination_sound:
  assumes "ring_denomination em eu pool None pks = Inr (Some d)"
  shows "pks \<noteq> [] \<and> (\<forall>pk \<in> set pks. pool_amount pool pk = Some d)"
  using assms by (cases pks) (auto simp: ring_denomination_Some split: option.splits)

text \<open>
  A transaction that a node may apply: the ring signature verifies for the canonical hash,
  the members of the ring are distinct outputs of the pool of one denomination, the
  outputs are nonzero and with the fee make up that denomination exactly, and the image
  is not spent.
\<close>

definition tx_admissible :: "'s lmdb \<Rightarrow> sodium \<Rightarrow> 's node \<Rightarrow> shielded_transaction \<Rightarrow> bool" where
  "tx_admissible L S n tx \<longleftrightarrow>
     ring_verify S (tx_hash tx) (ring_sig tx) = Inr True
   \<and> \<not> image_spent L S n (sig_key_image (ring_sig tx))
   \<and> (\<forall>out \<in> set (tx_outputs tx). out_amount out \<noteq> 0)
   \<and> (\<exists>d. sig_ring_pubkeys (ring_sig tx) \<noteq> []
        \<and> (\<forall>pk \<in> set (sig_ring_pubkeys (ring_sig tx)). pool_amount (node_pool n) pk = Some d)
        \<and> unat d = unat (public_fee tx) + sum_list (map (unat \<circ> out_amount) (tx_outputs tx)))"

definition hash_canonical :: "sodium \<Rightarrow> shielded_transaction \<Rightarrow> bool" where
  "hash_canonical S tx \<longleftrightarrow>
     tx_hash tx = compute_canonical_tx_hash S (tx_outputs tx) (public_fee tx)
       (sig_ring_pubkeys (ring_sig tx)) (sig_key_image (ring_sig tx))"

lemma check_tx_sound:
  assumes "check_tx L S n height spent tx = Inr ()"
  shows "tx_admissible L S n tx \<and> (height \<noteq> 0 \<longrightarrow> hash_canonical S tx)
    \<and> canonical_key_image S (sig_key_image (ring_sig tx)) \<notin> canonical_key_image S ` set spent"
proof -
  from assms obtain t d where
    hash: "tx_hash_valid S height tx" and ver: "ring_verify S (tx_hash tx) (ring_sig tx) = Inr True"
    and new: "\<not> in_block_double S spent (sig_key_image (ring_sig tx))" "\<not> image_spent L S n (sig_key_image (ring_sig tx))"
    and sum: "sum_outputs (Rejected Tx_zero_output) (Rejected Tx_amount_overflow) (public_fee tx) (tx_outputs tx) = Inr t"
    and ring: "ring_denomination (Rejected Tx_ring_mixed) (Rejected Tx_ring_unknown) (node_pool n) None
        (sig_ring_pubkeys (ring_sig tx)) = Inr (Some t)"
    by (auto simp: check_tx_def ebind_eq_Inr split: if_splits)
  have "height \<noteq> 0 \<longrightarrow> hash_canonical S tx"
    using hash by (auto simp: tx_hash_valid_def hash_canonical_def split: if_splits)
  moreover have "canonical_key_image S (sig_key_image (ring_sig tx)) \<notin> canonical_key_image S ` set spent"
    using new(1) by (auto simp: in_block_double_def list_ex_iff)
  ultimately show ?thesis
    using ver new(2) sum_outputs_sound [OF sum] ring_denomination_sound [OF ring]
    by (auto simp: tx_admissible_def)
qed

text \<open>The canonical forms of a list of images are distinct.\<close>

definition distinct_images :: "sodium \<Rightarrow> bytes list \<Rightarrow> bool" where
  "distinct_images S imgs \<longleftrightarrow> distinct (map (canonical_key_image S) imgs)"

lemma check_txs_sound:
  assumes "check_txs L S n height spent outs txl = Inr (spent', outs')"
    and "distinct_images S spent"
  shows "spent' = spent @ map (sig_key_image \<circ> ring_sig) txl \<and> outs' = outs @ concat (map tx_outputs txl)
    \<and> distinct_images S spent' \<and> list_all (tx_admissible L S n) txl
    \<and> (height \<noteq> 0 \<longrightarrow> list_all (hash_canonical S) txl)"
  using assms
proof (induction txl arbitrary: spent outs)
  case (Cons tx rest)
  from Cons.prems(1) have tx: "check_tx L S n height spent tx = Inr ()"
    and rest: "check_txs L S n height (spent @ [sig_key_image (ring_sig tx)]) (outs @ tx_outputs tx) rest
      = Inr (spent', outs')"
    by (auto simp: ebind_eq_Inr)
  note t = check_tx_sound [OF tx]
  have "distinct_images S (spent @ [sig_key_image (ring_sig tx)])"
    using t Cons.prems(2) by (auto simp: distinct_images_def)
  from Cons.IH [OF rest this] t show ?case
    by auto
qed simp

subsection \<open>Withdrawals\<close>

definition burned_amount :: "'s node \<Rightarrow> withdrawal_receipt \<Rightarrow> amount" where
  "burned_amount n wdr = the (pool_amount (node_pool n) (wdr_burned_utxo_pubkey wdr))"

definition change_of :: "'s node \<Rightarrow> withdrawal_receipt \<Rightarrow> nat" where
  "change_of n wdr = unat (burned_amount n wdr) - unat (wdr_gross_tokens_burned wdr)"

text \<open>
  A withdrawal that a node may apply: exact fee, a valid destination, an output of the pool
  that covers the amount, and a burn proof by its owner whose image is not spent.
\<close>

definition burn_admissible :: "'s lmdb \<Rightarrow> sodium \<Rightarrow> 's node \<Rightarrow> withdrawal_receipt \<Rightarrow> bool" where
  "burn_admissible L S n wdr \<longleftrightarrow>
     wdr_gross_tokens_burned wdr \<noteq> 0
   \<and> safe_fee_calc (wdr_gross_tokens_burned wdr) (withdraw_fee_bps (node_vault n)) = Inr (wdr_fee_to_pool wdr)
   \<and> wdr_net_usdt_to_tumble wdr = wdr_gross_tokens_burned wdr - wdr_fee_to_pool wdr
   \<and> is_valid_evm_address (wdr_destination_address wdr)
   \<and> pool_amount (node_pool n) (wdr_burned_utxo_pubkey wdr) = Some (burned_amount n wdr)
   \<and> wdr_gross_tokens_burned wdr \<le> burned_amount n wdr
   \<and> verify_burn_proof S
       (compute_burn_message_hash S (wdr_order_id wdr) (wdr_gross_tokens_burned wdr)
          (wdr_destination_address wdr) (wdr_change_output_pubkey wdr))
       (wdr_burned_utxo_pubkey wdr) (wdr_key_image wdr) (wdr_burn_signature_c0 wdr)
       (wdr_burn_signature_s wdr) = Inr True
   \<and> \<not> image_spent L S n (wdr_key_image wdr)"

text \<open>The claimed change outputs: how many there are and what they amount to.\<close>

definition claimed_total :: "one_time_output list \<Rightarrow> bool list \<Rightarrow> nat" where
  "claimed_total outs claimed =
     (\<Sum>oi \<in> {oi. oi < length outs \<and> claimed ! oi}. unat (out_amount (outs ! oi)))"

definition claims_ok :: "one_time_output list \<Rightarrow> bool list \<times> nat \<Rightarrow> nat \<Rightarrow> bool" where
  "claims_ok outs st total_change \<longleftrightarrow> (case st of (claimed, count) \<Rightarrow>
     length claimed = length outs \<and> count = card {oi. oi < length outs \<and> claimed ! oi}
     \<and> claimed_total outs claimed = total_change)"

lemma claim_changeD:
  assumes "claim_change outs claimed ch key = Some claimed'"
  obtains oi where "oi < length outs" and "\<not> claimed ! oi" and "out_amount (outs ! oi) = ch"
    and "claimed' = claimed[oi := True]"
  using assms by (auto simp: claim_change_def find_Some_iff)

lemma claims_ok_claim:
  assumes "claims_ok outs (claimed, count) k" and "oi < length outs" and "\<not> claimed ! oi"
  shows "claims_ok outs (claimed[oi := True], Suc count) (k + unat (out_amount (outs ! oi)))"
proof -
  have set_eq: "{i. i < length outs \<and> claimed[oi := True] ! i} = insert oi {i. i < length outs \<and> claimed ! i}"
    using assms by (auto simp: claims_ok_def nth_list_update split: if_splits)
  have fin: "finite {i. i < length outs \<and> claimed ! i}" and new: "oi \<notin> {i. i < length outs \<and> claimed ! i}"
    using assms(3) by auto
  show ?thesis
    using assms(1) fin new by (simp add: claims_ok_def claimed_total_def set_eq)
qed

lemma check_change_sound:
  assumes "check_change outs ch wdr st = Inr st'" and "claims_ok outs st k"
  shows "claims_ok outs st' (k + unat ch)"
proof -
  obtain claimed count where st: "st = (claimed, count)"
    by fastforce
  show ?thesis
  proof (cases "ch > 0")
    case True
    with assms(1) obtain claimed' where c: "claim_change outs claimed ch (wdr_change_output_pubkey wdr) = Some claimed'"
      and st': "st' = (claimed', Suc count)"
      by (auto simp: check_change_def st split: option.splits)
    from claim_changeD [OF c] obtain oi where "oi < length outs" "\<not> claimed ! oi"
      "out_amount (outs ! oi) = ch" "claimed' = claimed[oi := True]"
      by blast
    with claims_ok_claim [of outs claimed count k oi] assms(2) st st' show ?thesis
      by simp
  next
    case False
    with assms show ?thesis
      by (auto simp: check_change_def st word_gt_0 split: if_splits)
  qed
qed

lemma check_burn_sound:
  assumes "check_burn L S n b spent st wdr = Inr st'" and "claims_ok (withdrawal_outputs b) st k"
  shows "burn_admissible L S n wdr \<and> claims_ok (withdrawal_outputs b) st' (k + change_of n wdr)
    \<and> canonical_key_image S (wdr_key_image wdr) \<notin> canonical_key_image S ` set spent"
proof -
  from assms(1) obtain fee a where first: "wdr_gross_tokens_burned wdr \<noteq> 0"
      "is_valid_evm_address (wdr_destination_address wdr)"
    and fee: "safe_fee_calc (wdr_gross_tokens_burned wdr) (withdraw_fee_bps (node_vault n)) = Inr fee"
      "wdr_fee_to_pool wdr = fee" "wdr_net_usdt_to_tumble wdr = wdr_gross_tokens_burned wdr - fee"
    and a: "pool_amount (node_pool n) (wdr_burned_utxo_pubkey wdr) = Some a" "\<not> a < wdr_gross_tokens_burned wdr"
    and ch: "check_change (withdrawal_outputs b) (a - wdr_gross_tokens_burned wdr) wdr st = Inr st'"
    and proof_ok: "verify_burn_proof S
         (compute_burn_message_hash S (wdr_order_id wdr) (wdr_gross_tokens_burned wdr)
            (wdr_destination_address wdr) (wdr_change_output_pubkey wdr))
         (wdr_burned_utxo_pubkey wdr) (wdr_key_image wdr) (wdr_burn_signature_c0 wdr)
         (wdr_burn_signature_s wdr) = Inr True"
    and new: "\<not> image_spent L S n (wdr_key_image wdr)" "\<not> in_block_double S spent (wdr_key_image wdr)"
    by (auto simp: check_burn_def ebind_eq_Inr Let_def split: if_splits option.splits)
  have amount: "burned_amount n wdr = a"
    using a(1) by (simp add: burned_amount_def)
  have "claims_ok (withdrawal_outputs b) st' (k + unat (a - wdr_gross_tokens_burned wdr))"
    by (rule check_change_sound [OF ch assms(2)])
  moreover have "unat (a - wdr_gross_tokens_burned wdr) = change_of n wdr"
    using a(2) by (simp add: change_of_def amount unat_sub_exact not_less)
  moreover have "canonical_key_image S (wdr_key_image wdr) \<notin> canonical_key_image S ` set spent"
    using new(2) by (auto simp: in_block_double_def list_ex_iff)
  ultimately show ?thesis
    using first fee a new(1) proof_ok by (simp add: burn_admissible_def amount not_less)
qed

lemma check_burns_sound:
  assumes "check_burns L S n b tv spent st wdrs = Inr (tv', spent', count)"
    and "claims_ok (withdrawal_outputs b) st k" and "distinct_images S spent"
  shows "replay_withdrawals tv wdrs = Inr tv' \<and> spent' = spent @ map wdr_key_image wdrs
    \<and> distinct_images S spent' \<and> list_all (burn_admissible L S n) wdrs
    \<and> (\<exists>claimed. claims_ok (withdrawal_outputs b) (claimed, count) (k + sum_list (map (change_of n) wdrs)))"
  using assms
proof (induction wdrs arbitrary: tv spent st k)
  case Nil
  then show ?case
    by (cases st) auto
next
  case (Cons wdr rest)
  obtain tv1 res where res: "request_withdrawal tv (wdr_gross_tokens_burned wdr) [] = (tv1, res)"
    by fastforce
  with Cons.prems(1) obtain st1 r where one: "check_burn L S n b spent st wdr = Inr st1"
    and r: "res = Inr r"
    and more: "check_burns L S n b tv1 (spent @ [wdr_key_image wdr]) st1 rest = Inr (tv', spent', count)"
    by (cases res) (auto simp: ebind_eq_Inr)
  note req = res [unfolded r]
  note c = check_burn_sound [OF one Cons.prems(2)]
  have "distinct_images S (spent @ [wdr_key_image wdr])"
    using c Cons.prems(3) by (auto simp: distinct_images_def)
  from Cons.IH [OF more _ this, of "k + change_of n wdr"] c req show ?case
    by (auto simp: add.assoc)
qed

text \<open>When every change output is claimed, together they are the change of the withdrawals.\<close>

lemma all_claimed:
  assumes "claims_ok outs (claimed, length outs) k"
  shows "sum_list (map (unat \<circ> out_amount) outs) = k"
proof -
  have "{oi. oi < length outs \<and> claimed ! oi} = {..<length outs}"
    using assms by (intro card_subset_eq) (auto simp: claims_ok_def)
  then show ?thesis
    using assms by (simp add: claims_ok_def claimed_total_def sum_list_sum_nth atLeast0LessThan)
qed

lemma check_change_outputs_sound:
  "check_change_outputs S outs = Inr () \<longleftrightarrow>
     (\<forall>out \<in> set outs. out_amount out \<noteq> 0 \<and> is_valid_point S (destination_one_time out)
        \<and> is_valid_point S (ephemeral_public_key out))"
  by (induction outs) auto

subsection \<open>The header and the block\<close>

definition header_admissible :: "sodium \<Rightarrow> 's node \<Rightarrow> block \<Rightarrow> bool" where
  "header_admissible S n b \<longleftrightarrow>
     prev_block_hash (header b) = db_top_hash (node_db n)
   \<and> compute_merkle_root S b = Inr (merkle_root (header b))
   \<and> (deposits b \<noteq> [] \<longrightarrow>
        max 1 (unat (node_threshold n)) \<le> card {k \<in> set (node_authorized n). endorsed S (header b) k})
   \<and> (node_authorized n \<noteq> [] \<longrightarrow> (\<exists>k \<in> set (node_authorized n). endorsed S (header b) k))"

lemma required_quorum_eq: "required_quorum n = max 1 (unat (node_threshold n))"
  by (auto simp: required_quorum_def max_def word_le_nat_alt)

lemma check_header_sound:
  assumes "check_header S n h b = Inr ()"
  shows "hdr_height (header b) = h + 1 \<and> header_admissible S n b"
proof (cases "deposits b = []")
  case True
  then show ?thesis
    using assms by (auto simp: check_header_def header_admissible_def ebind_eq_Inr endorsed_def list_ex_iff
        split: if_splits)
next
  case False
  with assms have q: "max 1 (unat (node_threshold n)) \<le> card {k \<in> set (node_authorized n). endorsed S (header b) k}"
    by (auto simp: check_header_def ebind_eq_Inr verify_quorum_card required_quorum_eq split: if_splits)
  then have "{k \<in> set (node_authorized n). endorsed S (header b) k} \<noteq> {}"
    by (metis card.empty max.bounded_iff not_one_le_zero)
  with False assms q show ?thesis
    by (auto simp: check_header_def header_admissible_def ebind_eq_Inr split: if_splits)
qed

lemma validate_block_sound:
  assumes "validate_block L S n h b = Inr (tv, imgs, outs)"
  shows "hdr_height (header b) = h + 1 \<and> header_admissible S n b
    \<and> length (deposits b) = length (deposit_outputs b)
    \<and> list_all (deposit_admissible L S n) (zip (deposits b) (deposit_outputs b))
    \<and> distinct (map dep_tx_hash (deposits b))
    \<and> list_all (tx_admissible L S n) (txs b) \<and> (h + 1 \<noteq> 0 \<longrightarrow> list_all (hash_canonical S) (txs b))
    \<and> list_all (burn_admissible L S n) (withdrawals b)
    \<and> imgs = block_images b \<and> distinct_images S imgs
    \<and> outs = concat (map tx_outputs (txs b)) @ deposit_outputs b @ withdrawal_outputs b
    \<and> sum_list (map (unat \<circ> out_amount) (withdrawal_outputs b)) = sum_list (map (change_of n) (withdrawals b))
    \<and> audit_solvency (node_vault n) \<and> replay_block (node_vault n) b = Inr tv \<and> audit_solvency tv"
proof -
  let ?v = "node_vault n"
  from assms obtain tv1 spent1 outs1 where hd: "check_header S n h b = Inr ()"
    and audit: "audit_solvency ?v" and len: "length (deposits b) = length (deposit_outputs b)"
    and dep: "check_deposits L S n [] ?v (zip (deposits b) (deposit_outputs b)) = Inr tv1"
    and tx: "check_txs L S n (hdr_height (header b)) [] [] (txs b) = Inr (spent1, outs1)"
    and burns: "check_burns L S n b tv1 spent1 (replicate (length (withdrawal_outputs b)) False, 0) (withdrawals b)
      = Inr (tv, imgs, length (withdrawal_outputs b))"
    and end1: "audit_solvency tv" "outs = outs1 @ deposit_outputs b @ withdrawal_outputs b"
    by (auto simp: validate_block_def ebind_eq_Inr temporary_vault_eq split: if_splits)
  note h = check_header_sound [OF hd]
  note d = check_deposits_sound [OF dep]
  have maps: "map fst (zip (deposits b) (deposit_outputs b)) = deposits b"
    by (rule map_fst_zip [OF len])
  have none: "distinct_images S []"
    by (simp add: distinct_images_def)
  have t: "spent1 = map (sig_key_image \<circ> ring_sig) (txs b)" "outs1 = concat (map tx_outputs (txs b))"
    "distinct_images S spent1" "list_all (tx_admissible L S n) (txs b)"
    "hdr_height (header b) \<noteq> 0 \<longrightarrow> list_all (hash_canonical S) (txs b)"
    using check_txs_sound [OF tx none] unfolding append_Nil by blast+
  have start: "claims_ok (withdrawal_outputs b) (replicate (length (withdrawal_outputs b)) False, 0) 0"
  proof -
    have none: "{oi. oi < length (withdrawal_outputs b) \<and> replicate (length (withdrawal_outputs b)) False ! oi} = {}"
      by auto
    show ?thesis
      unfolding claims_ok_def claimed_total_def prod.case none by simp
  qed
  note w = check_burns_sound [OF burns start t(3)]
  then obtain claimed where "claims_ok (withdrawal_outputs b) (claimed, length (withdrawal_outputs b))
      (sum_list (map (change_of n) (withdrawals b)))"
    by auto
  note change = all_claimed [OF this]
  have dist: "distinct (map dep_tx_hash (deposits b))"
    using d by (simp add: maps flip: map_map)
  have rep: "replay_block ?v b = Inr tv"
    using d w by (simp add: replay_block_def maps)
  have imgs: "imgs = block_images b"
    using w t(1) by (simp add: block_images_def o_def)
  have burns_ok: "distinct_images S (block_images b)" "list_all (burn_admissible L S n) (withdrawals b)"
    using w unfolding imgs by blast+
  have deps_ok: "list_all (deposit_admissible L S n) (zip (deposits b) (deposit_outputs b))"
    using d by blast
  show ?thesis
    using h deps_ok t(2,4,5) burns_ok imgs change dist rep len audit end1 by simp
qed

end
