(* ===== verification/Node.thy ===== *)
theory Node
  imports Validation Tumbler
begin

text \<open>
  Model of the operations of \<^verbatim>\<open>Node\<close> in \<^verbatim>\<open>include/node.hpp\<close> and \<^verbatim>\<open>src/node.cpp\<close>. What a call
  draws at random, the clock and the environment of the process are arguments. An
  operation returns the new state together with its result or the exception, with
  whatever it had already changed when it threw. Printing is left out.
\<close>

section \<open>Recovery\<close>

definition block_history :: "'s lmdb \<Rightarrow> sodium \<Rightarrow> 's chain_db \<Rightarrow> shielded_transaction list" where
  "block_history L S db =
     concat (map (\<lambda>h. case get_block_by_height L S db (of_nat h) of None \<Rightarrow> [] | Some blk \<Rightarrow> txs blk)
       [1..<Suc (unat (db_top_height db))])"

definition recover_state_from_db :: "'s lmdb \<Rightarrow> sodium \<Rightarrow> 's node \<Rightarrow> 's node" where
  "recover_state_from_db L S n =
     (let db = node_db n in
      n\<lparr>node_vault := fst (load_vault_state L db (node_vault n)),
        node_pool := load_all_utxos L S db,
        node_ledger := foldl restore_key_image (clear_images (node_ledger n)) (load_all_key_images L db),
        node_history := block_history L S db\<rparr>)"

text \<open>\<^verbatim>\<open>try { db_.commit_block(...) } catch (...) { recover; throw; }\<close> and the callback.\<close>

definition commit_or_recover ::
  "'s lmdb \<Rightarrow> sodium \<Rightarrow> 's node \<Rightarrow> block \<Rightarrow> one_time_output list \<Rightarrow> bytes list \<Rightarrow> 's node \<times> (error + unit)" where
  "commit_or_recover L S n b new_utxos spent_images =
     (case commit_block L S (node_db n) b (node_vault n) new_utxos spent_images of
        (db', Inl e) \<Rightarrow> (recover_state_from_db L S (n\<lparr>node_db := db'\<rparr>), Inl e)
      | (db', Inr _) \<Rightarrow>
          (n\<lparr>node_db := db',
             node_announced := (if node_callback_set n then node_announced n @ [b] else node_announced n)\<rparr>,
           Inr ()))"

section \<open>Start\<close>

text \<open>
  The validator key: the environment variable if it holds 32 or 64 bytes in hexadecimal,
  otherwise a fresh pair. \<open>seed_keypair\<close> is \<^verbatim>\<open>crypto_sign_seed_keypair\<close>, giving public and
  secret key.
\<close>

definition validator_keys ::
  "(bytes \<Rightarrow> bytes \<times> bytes) \<Rightarrow> bytes \<times> bytes \<Rightarrow> string option \<Rightarrow> bytes \<times> bytes" where
  "validator_keys seed_keypair fresh_keypair env_val_priv =
     (case env_val_priv of None \<Rightarrow> fresh_keypair
      | Some text \<Rightarrow> (case from_hex text of Inl _ \<Rightarrow> fresh_keypair
         | Inr priv_bytes \<Rightarrow>
             if length priv_bytes = 32 then seed_keypair priv_bytes
             else if length priv_bytes = 64 then (drop 32 priv_bytes, priv_bytes)
             else fresh_keypair))"

text \<open>\<^verbatim>\<open>std::getline(iss, pk_hex, ',')\<close> until the stream ends.\<close>

fun split_commas :: "string \<Rightarrow> string \<Rightarrow> string list" where
  "split_commas line [] = (if line = [] then [] else [line])"
| "split_commas line (c # cs) = (if c = CHR '','' then line # split_commas [] cs else split_commas (line @ [c]) cs)"

definition authorized_keys :: "string option \<Rightarrow> bytes list" where
  "authorized_keys env_auth =
     (case env_auth of None \<Rightarrow> []
      | Some text \<Rightarrow> List.map_filter (\<lambda>pk_hex.
          if pk_hex = [] then None
          else case from_hex pk_hex of Inl _ \<Rightarrow> None
            | Inr b \<Rightarrow> if length b = 32 then Some b else None) (split_commas [] text))"

definition init_or_recover_database ::
  "'s lmdb \<Rightarrow> sodium \<Rightarrow> 's option \<Rightarrow> 's node \<Rightarrow> 's node \<times> (error + unit)" where
  "init_or_recover_database L S opened n =
     (case db_open L S (node_db n) opened of
        (db, Inl e) \<Rightarrow> (n\<lparr>node_db := db\<rparr>, Inl e)
      | (db, Inr _) \<Rightarrow>
          let n = n\<lparr>node_db := db\<rparr> in
          if db_top_height db = 0 \<and> get_block_by_height L S db 0 = None
          then case create_genesis S of
              Inl e \<Rightarrow> (n, Inl e)
            | Inr genesis \<Rightarrow>
                (case commit_block L S db genesis (node_vault n) [] [] of
                   (db', r) \<Rightarrow> (n\<lparr>node_db := db'\<rparr>, r))
          else (recover_state_from_db L S n, Inr ()))"

definition node_tumbler :: tumbler_engine where
  "node_tumbler = \<lparr>min_fragments = 5, max_fragments = 10, min_hops = 2, max_hops = 3, mean_delay_ms = 100\<rparr>"

definition new_node ::
  "'s lmdb \<Rightarrow> sodium \<Rightarrow> (bytes \<Rightarrow> bytes \<times> bytes) \<Rightarrow> bytes \<times> bytes \<Rightarrow> string option \<Rightarrow> string option
     \<Rightarrow> u32 \<Rightarrow> u32 \<Rightarrow> 's option \<Rightarrow> 's node \<times> (error + unit)" where
  "new_node L S seed_keypair fresh_keypair env_val_priv env_auth deposit_bps withdraw_bps opened =
     (let (pk, sk) = validator_keys seed_keypair fresh_keypair env_val_priv
      in init_or_recover_database L S opened
           \<lparr>node_db = new_chain_db, node_vault = new_vault deposit_bps withdraw_bps, node_ledger = {},
            node_pool = [], node_history = [], node_callback_set = False, node_announced = [],
            node_validator_pub = pk, node_validator_secret = sk, node_has_validator_key = True,
            node_authorized = authorized_keys env_auth, node_threshold = 1\<rparr>)"

section \<open>Configuration\<close>

definition set_validator_key :: "'s node \<Rightarrow> bytes \<Rightarrow> bytes \<Rightarrow> 's node" where
  "set_validator_key n secret_key pub_key =
     n\<lparr>node_validator_secret := secret_key, node_validator_pub := pub_key, node_has_validator_key := True\<rparr>"

definition add_authorized_validator :: "'s node \<Rightarrow> bytes \<Rightarrow> 's node" where
  "add_authorized_validator n pub_key =
     (if list_ex (\<lambda>k. k = pub_key) (node_authorized n) then n
      else n\<lparr>node_authorized := node_authorized n @ [pub_key]\<rparr>)"

definition set_quorum_threshold :: "'s node \<Rightarrow> u32 \<Rightarrow> 's node" where
  "set_quorum_threshold n q = n\<lparr>node_threshold := q\<rparr>"

definition is_authorized_validator :: "'s node \<Rightarrow> bytes \<Rightarrow> bool" where
  "is_authorized_validator n pk \<longleftrightarrow> list_ex (\<lambda>auth. auth = pk) (node_authorized n)"

section \<open>Mining a block\<close>

text \<open>The block on top of the chain that each local operation starts from.\<close>

definition next_block :: "'s node \<Rightarrow> u64 \<Rightarrow> block" where
  "next_block n timestamp =
     empty_block\<lparr>header := default_header
       \<lparr>hdr_height := db_top_height (node_db n) + 1,
        prev_block_hash := db_top_hash (node_db n),
        hdr_timestamp := timestamp\<rparr>\<rparr>"

text \<open>The root of its contents, and the signature of the local validator.\<close>

definition seal_block :: "sodium \<Rightarrow> 's node \<Rightarrow> block \<Rightarrow> error + block" where
  "seal_block S n b =
     ebind (compute_merkle_root S b) (\<lambda>root.
       let h = (header b)\<lparr>merkle_root := root\<rparr>
       in Inr (b\<lparr>header := (if node_has_validator_key n
                            then sign_header S h (node_validator_secret n) (node_validator_pub n)
                            else h)\<rparr>))"

section \<open>Buying\<close>

definition cosign :: "sodium \<Rightarrow> block_header \<Rightarrow> bytes \<Rightarrow> block_header" where
  "cosign S h c_sk = add_quorum_signature h (sk_to_pk S c_sk) (sign_detached S (signing_hash S h) c_sk)"

definition buy_shielded ::
  "'s lmdb \<Rightarrow> sodium \<Rightarrow> bytes \<Rightarrow> u64 \<Rightarrow> 's node \<Rightarrow> amount \<Rightarrow> stealth_address \<Rightarrow> string \<Rightarrow> u64 \<Rightarrow> bytes list
     \<Rightarrow> 's node \<times> (error + deposit_receipt)" where
  "buy_shielded L S random_hash now n usdt_gross recipient custom_tx_hash custom_timestamp cosigner_keys =
     (let prev = node_vault n in
      case deposit (node_vault n) usdt_gross custom_tx_hash random_hash of
        (v, Inl e) \<Rightarrow> (n\<lparr>node_vault := v\<rparr>, Inl e)
      | (v, Inr receipt) \<Rightarrow>
      let n = n\<lparr>node_vault := v\<rparr>;
          receipt = receipt\<lparr>dep_recipient_view_pub := addr_view_public_key recipient,
                            dep_recipient_spend_pub := addr_spend_public_key recipient\<rparr>;
          seed = generichash S 32 (bytes_of_string (dep_tx_hash receipt)) []
      in case create_one_time_output S recipient (dep_net_shielded_tokens_minted receipt) (Some seed) [] of
        Inl e \<Rightarrow> (n, Inl e)
      | Inr utxo \<Rightarrow>
      let pool = node_pool n;
          n = n\<lparr>node_pool := pool @ [utxo]\<rparr>;
          b = (next_block n (if custom_timestamp > 0 then custom_timestamp else now))
                \<lparr>deposits := [receipt], deposit_outputs := [utxo]\<rparr>
      in case seal_block S n b of
        Inl e \<Rightarrow> (n, Inl e)
      | Inr b \<Rightarrow>
      let b = b\<lparr>header := foldl (cosign S) (header b) cosigner_keys\<rparr>
      in if node_authorized n \<noteq> [] \<and> verify_quorum S (header b) (node_authorized n) < required_quorum n
         then case restore_state (node_vault n) (total_collateral prev) (circulating_supply prev)
                     (fee_pool_reserve prev) of
                (v, Inl e) \<Rightarrow> (n\<lparr>node_pool := pool, node_vault := v\<rparr>, Inl e)
              | (v, Inr _) \<Rightarrow>
                  (n\<lparr>node_pool := pool, node_vault := v\<rparr>, Inl (Node_error Buy_quorum_insufficient))
         else case commit_or_recover L S n b [utxo] [] of
                (n, Inl e) \<Rightarrow> (n, Inl e)
              | (n, Inr _) \<Rightarrow> (n, Inr receipt))"

section \<open>Decoys\<close>

definition decoy_candidates :: "one_time_output list \<Rightarrow> bytes \<Rightarrow> amount \<Rightarrow> bytes list" where
  "decoy_candidates pool real_pubkey target_amount =
     foldl (\<lambda>candidates out.
         if target_amount > 0 \<and> out_amount out \<noteq> target_amount then candidates
         else if destination_one_time out \<noteq> real_pubkey
                 \<and> \<not> list_ex (\<lambda>c. c = destination_one_time out) candidates
         then candidates @ [destination_one_time out] else candidates)
       [] pool"

text \<open>Fisher-Yates from the last index down; \<open>pick i\<close> is the draw of \<open>randombytes_uniform(i + 1)\<close>.\<close>

definition swap :: "nat \<Rightarrow> nat \<Rightarrow> 'a list \<Rightarrow> 'a list" where
  "swap i j xs = xs[i := xs ! j, j := xs ! i]"

definition shuffle :: "(nat \<Rightarrow> nat) \<Rightarrow> 'a list \<Rightarrow> 'a list" where
  "shuffle pick xs = foldl (\<lambda>xs i. swap i (pick i) xs) xs (rev [1..<length xs])"

definition select_decoys ::
  "(nat \<Rightarrow> nat) \<Rightarrow> one_time_output list \<Rightarrow> nat \<Rightarrow> bytes \<Rightarrow> amount \<Rightarrow> bytes list" where
  "select_decoys pick pool ring_size real_pubkey target_amount =
     (let candidates = shuffle pick (decoy_candidates pool real_pubkey target_amount);
          target_decoys = (if ring_size > 0 then ring_size - 1 else 0)
      in take (min target_decoys (length candidates)) candidates)"

definition get_random_decoys ::
  "(nat \<Rightarrow> nat) \<Rightarrow> 's node \<Rightarrow> nat \<Rightarrow> bytes \<Rightarrow> amount \<Rightarrow> bytes list" where
  "get_random_decoys pick n count exclude_pubkey target_amount =
     select_decoys pick (node_pool n) (count + 1) exclude_pubkey target_amount"

section \<open>Settling a transaction\<close>

text \<open>
  The end of \<^verbatim>\<open>transfer_shielded\<close> and of \<^verbatim>\<open>submit_pre_signed_transaction\<close>: register the image,
  extend pool and history, and put the transaction in a block.
\<close>

definition settle_transaction ::
  "'s lmdb \<Rightarrow> sodium \<Rightarrow> u64 \<Rightarrow> 's node \<Rightarrow> shielded_transaction \<Rightarrow> 's node \<times> (error + shielded_transaction)" where
  "settle_transaction L S now n tx =
     (let img = sig_key_image (ring_sig tx);
          n = n\<lparr>node_ledger := fst (register_key_image S (node_ledger n) img),
                node_pool := node_pool n @ tx_outputs tx,
                node_history := node_history n @ [tx]\<rparr>
      in case seal_block S n ((next_block n now)\<lparr>txs := [tx]\<rparr>) of
           Inl e \<Rightarrow> (n, Inl e)
         | Inr b \<Rightarrow> (case commit_or_recover L S n b (tx_outputs tx) [img] of
              (n, Inl e) \<Rightarrow> (n, Inl e) | (n, Inr _) \<Rightarrow> (n, Inr tx)))"

section \<open>Transfer\<close>

text \<open>What a transfer or a withdrawal draws at random.\<close>

record spend_draws =
  draw_swap :: "nat \<Rightarrow> nat"
  draw_real_index :: nat
  draw_recipient_scalar :: bytes
  draw_change_scalar :: bytes
  draw_alpha :: bytes
  draw_response :: "nat \<Rightarrow> bytes"
  draw_order :: bytes

definition output_in_pool :: "'s node \<Rightarrow> one_time_output \<Rightarrow> bool" where
  "output_in_pool n input \<longleftrightarrow>
     list_ex (\<lambda>u. destination_one_time u = destination_one_time input
                \<and> ephemeral_public_key u = ephemeral_public_key input
                \<and> out_amount u = out_amount input) (node_pool n)"

text \<open>The outputs of a transfer: the recipient's, and the change if there is any.\<close>

definition transfer_outputs ::
  "sodium \<Rightarrow> spend_draws \<Rightarrow> stealth_wallet \<Rightarrow> one_time_output \<Rightarrow> stealth_address \<Rightarrow> amount \<Rightarrow> amount
     \<Rightarrow> error + one_time_output list" where
  "transfer_outputs S D sender input recipient send_amount tx_fee =
     ebind (create_one_time_output S recipient send_amount None (draw_recipient_scalar D)) (\<lambda>recipient_out.
       let change = out_amount input - send_amount - tx_fee in
       if change > 0
       then ebind (create_one_time_output S (get_public_address sender) change None (draw_change_scalar D))
              (\<lambda>change_out. Inr [recipient_out, change_out])
       else Inr [recipient_out])"

definition transfer_timestamp :: string where
  "transfer_timestamp = ''2026-09-11 20:00:00 UTC''"

text \<open>Everything up to the verified signature, which changes nothing.\<close>

definition prepare_transfer ::
  "'s lmdb \<Rightarrow> sodium \<Rightarrow> spend_draws \<Rightarrow> 's node \<Rightarrow> stealth_wallet \<Rightarrow> one_time_output \<Rightarrow> stealth_address
     \<Rightarrow> amount \<Rightarrow> amount \<Rightarrow> error + shielded_transaction" where
  "prepare_transfer L S D n sender input recipient send_amount tx_fee =
     (if \<not> scan_output S sender input then Inl (Node_error Transfer_not_owner)
      else case safe_add_amount send_amount tx_fee of
        None \<Rightarrow> Inl (Node_error Transfer_amount_overflow)
      | Some total_needed \<Rightarrow>
      if out_amount input < total_needed then Inl (Node_error Transfer_insufficient_funds)
      else if \<not> output_in_pool n input then Inl (Node_error Transfer_output_unknown)
      else ebind (derive_one_time_private_key S sender input) (\<lambda>one_time_priv.
      ebind (compute_key_image S one_time_priv (destination_one_time input)) (\<lambda>img.
      if image_spent L S n img then Inl (Node_error Transfer_double_spend)
      else
      let decoys = select_decoys (draw_swap D) (node_pool n) 5 (destination_one_time input) (out_amount input);
          ring = insert_at (draw_real_index D) (destination_one_time input) decoys
      in ebind (transfer_outputs S D sender input recipient send_amount tx_fee) (\<lambda>new_outputs.
      let txh = compute_canonical_tx_hash S new_outputs tx_fee ring img
      in ebind (ring_sign S txh ring (draw_real_index D) one_time_priv (draw_alpha D) (draw_response D)) (\<lambda>sg.
      ebind (ring_verify S txh sg) (\<lambda>verified.
      if \<not> verified then Inl (Node_error Transfer_signature_invalid)
      else Inr \<lparr>tx_hash = txh, ring_sig = sg, tx_outputs = new_outputs, public_fee = tx_fee,
                tx_timestamp = transfer_timestamp\<rparr>))))))"

definition transfer_shielded ::
  "'s lmdb \<Rightarrow> sodium \<Rightarrow> spend_draws \<Rightarrow> u64 \<Rightarrow> 's node \<Rightarrow> stealth_wallet \<Rightarrow> one_time_output \<Rightarrow> stealth_address
     \<Rightarrow> amount \<Rightarrow> amount \<Rightarrow> 's node \<times> (error + shielded_transaction)" where
  "transfer_shielded L S D now n sender input recipient send_amount tx_fee =
     (case prepare_transfer L S D n sender input recipient send_amount tx_fee of
        Inl e \<Rightarrow> (n, Inl e) | Inr tx \<Rightarrow> settle_transaction L S now n tx)"

section \<open>Submitting a signed transaction\<close>

definition check_submitted :: "'s lmdb \<Rightarrow> sodium \<Rightarrow> 's node \<Rightarrow> shielded_transaction \<Rightarrow> error + unit" where
  "check_submitted L S n tx =
     (let img = sig_key_image (ring_sig tx); ring = sig_ring_pubkeys (ring_sig tx) in
      if \<not> is_valid_point S img then Inl (Node_error Submit_bad_image)
      else case mult_noclamp S eight_scalar img of
        None \<Rightarrow> Inl (Node_error Submit_image_torsion_failed)
      | Some ki_8 \<Rightarrow>
      if ki_8 = ed25519_identity then Inl (Node_error Submit_image_small_order)
      else if image_spent L S n img then Inl (Node_error Submit_double_spend)
      else if \<not> list_all (is_valid_point S) ring then Inl (Node_error Submit_bad_ring_key)
      else if ring_has_duplicates ring then Inl (Node_error Submit_ring_duplicate)
      else ebind (ring_denomination (Node_error Submit_ring_mixed) (Node_error Submit_ring_unknown)
                    (node_pool n) None ring) (\<lambda>denomination.
      ebind (sum_outputs (Node_error Submit_zero_output) (Node_error Submit_amount_overflow)
               (public_fee tx) (tx_outputs tx)) (\<lambda>total_spent.
      if denomination \<noteq> Some total_spent then Inl (Node_error Submit_unbalanced)
      else if tx_hash tx \<noteq> compute_canonical_tx_hash S (tx_outputs tx) (public_fee tx) ring img
      then Inl (Node_error Submit_bad_hash)
      else ebind (ring_verify S (tx_hash tx) (ring_sig tx)) (\<lambda>verified.
        if \<not> verified then Inl (Node_error Submit_bad_signature) else Inr ()))))"

definition submit_pre_signed_transaction ::
  "'s lmdb \<Rightarrow> sodium \<Rightarrow> u64 \<Rightarrow> 's node \<Rightarrow> shielded_transaction \<Rightarrow> 's node \<times> (error + shielded_transaction)" where
  "submit_pre_signed_transaction L S now n tx =
     (case check_submitted L S n tx of
        Inl e \<Rightarrow> (n, Inl e) | Inr _ \<Rightarrow> settle_transaction L S now n tx)"

section \<open>Withdrawal\<close>

text \<open>The checks before the vault is touched: the one-time key and the key image.\<close>

definition prepare_withdrawal ::
  "'s lmdb \<Rightarrow> sodium \<Rightarrow> 's node \<Rightarrow> stealth_wallet \<Rightarrow> one_time_output \<Rightarrow> amount \<Rightarrow> string
     \<Rightarrow> error + (bytes \<times> bytes)" where
  "prepare_withdrawal L S n burner input tokens destination =
     (if \<not> is_valid_evm_address destination then Inl (Node_error Withdrawal_bad_destination)
      else if \<not> scan_output S burner input then Inl (Node_error Withdrawal_not_owner)
      else if out_amount input < tokens then Inl (Node_error Withdrawal_output_short)
      else if \<not> output_in_pool n input then Inl (Node_error Withdrawal_output_unknown)
      else ebind (derive_one_time_private_key S burner input) (\<lambda>one_time_priv.
      ebind (compute_key_image S one_time_priv (destination_one_time input)) (\<lambda>img.
      if image_spent L S n img then Inl (Node_error Withdrawal_double_spend)
      else Inr (one_time_priv, img))))"

text \<open>The change output, if any, and the key bound by the burn proof.\<close>

definition withdrawal_change ::
  "sodium \<Rightarrow> spend_draws \<Rightarrow> stealth_wallet \<Rightarrow> amount \<Rightarrow> error + one_time_output list" where
  "withdrawal_change S D burner change =
     (if change > 0
      then ebind (create_one_time_output S (get_public_address burner) change None (draw_change_scalar D))
             (\<lambda>change_out. Inr [change_out])
      else Inr [])"

definition change_key :: "one_time_output list \<Rightarrow> bytes" where
  "change_key outs = (case outs of [] \<Rightarrow> zero_key | change_out # _ \<Rightarrow> destination_one_time change_out)"

definition burn_receipt ::
  "sodium \<Rightarrow> spend_draws \<Rightarrow> bytes \<Rightarrow> withdrawal_receipt \<Rightarrow> error + withdrawal_receipt" where
  "burn_receipt S D one_time_priv receipt =
     ebind (sign_burn_proof S
              (compute_burn_message_hash S (wdr_order_id receipt) (wdr_gross_tokens_burned receipt)
                 (wdr_destination_address receipt) (wdr_change_output_pubkey receipt))
              (wdr_burned_utxo_pubkey receipt) one_time_priv (draw_alpha D)) (\<lambda>(img, c0, s).
       Inr (receipt\<lparr>wdr_key_image := img, wdr_burn_signature_c0 := c0, wdr_burn_signature_s := s\<rparr>))"

definition withdraw_shielded ::
  "'s lmdb \<Rightarrow> sodium \<Rightarrow> spend_draws \<Rightarrow> draws \<Rightarrow> u64 \<Rightarrow> 's node \<Rightarrow> stealth_wallet \<Rightarrow> one_time_output \<Rightarrow> amount
     \<Rightarrow> string \<Rightarrow> 's node \<times> (error + tumbling_plan)" where
  "withdraw_shielded L S D T now n burner input tokens destination =
     (case prepare_withdrawal L S n burner input tokens destination of
        Inl e \<Rightarrow> (n, Inl e)
      | Inr (one_time_priv, img) \<Rightarrow>
     (case request_withdrawal (node_vault n) tokens (draw_order D) of
        (v, Inl e) \<Rightarrow> (n\<lparr>node_vault := v\<rparr>, Inl e)
      | (v, Inr receipt) \<Rightarrow>
      let n = n\<lparr>node_vault := v\<rparr>;
          receipt = receipt\<lparr>wdr_destination_address := destination, wdr_key_image := img,
                            wdr_burned_utxo_pubkey := destination_one_time input\<rparr>
      in (case withdrawal_change S D burner (out_amount input - tokens) of
        Inl e \<Rightarrow> (n, Inl e)
      | Inr new_outs \<Rightarrow>
      let n = n\<lparr>node_pool := node_pool n @ new_outs\<rparr>
      in (case burn_receipt S D one_time_priv (receipt\<lparr>wdr_change_output_pubkey := change_key new_outs\<rparr>) of
        Inl e \<Rightarrow> (n, Inl e)
      | Inr receipt \<Rightarrow>
      let n = n\<lparr>node_ledger := fst (register_key_image S (node_ledger n) img)\<rparr>
      in (case seal_block S n ((next_block n now)\<lparr>withdrawals := [receipt], withdrawal_outputs := new_outs\<rparr>) of
        Inl e \<Rightarrow> (n, Inl e)
      | Inr b \<Rightarrow>
      (case commit_or_recover L S n b new_outs [img] of
        (n, Inl e) \<Rightarrow> (n, Inl e)
      | (n, Inr _) \<Rightarrow>
          (n, Inr (plan_withdrawal_tumbling T (wdr_order_id receipt) (wdr_gross_tokens_burned receipt)
                     (wdr_fee_to_pool receipt) (wdr_net_usdt_to_tumble receipt) destination))))))))"

section \<open>Claiming fees\<close>

definition claim_treasury_fees ::
  "'s lmdb \<Rightarrow> bytes \<Rightarrow> 's node \<Rightarrow> amount \<Rightarrow> string \<Rightarrow> 's node \<times> (error + claim_receipt)" where
  "claim_treasury_fees L tx_bytes n amount_to_claim destination =
     (case claim_fees (node_vault n) amount_to_claim destination tx_bytes of
        (v, Inl e) \<Rightarrow> (n\<lparr>node_vault := v\<rparr>, Inl e)
      | (v, Inr receipt) \<Rightarrow>
          (n\<lparr>node_vault := v, node_db := fst (save_vault_state L (node_db n) v)\<rparr>, Inr receipt))"

section \<open>Blocks from the network\<close>

text \<open>
  \<open>Terminated\<close> is the end of the process: the destructor of \<^verbatim>\<open>ReorgGuard\<close> may not throw, so
  an exception of the commit inside it calls \<^verbatim>\<open>std::terminate\<close>.
\<close>

datatype remote_result = Accepted | Refused stop | Terminated

text \<open>What \<^verbatim>\<open>apply_remote_block\<close> does when the block was not applied.\<close>

definition reorg_guard ::
  "'s lmdb \<Rightarrow> sodium \<Rightarrow> block option \<Rightarrow> vault \<Rightarrow> 's node \<Rightarrow> stop \<Rightarrow> 's node \<times> remote_result" where
  "reorg_guard L S reorged saved_vault n why =
     (case reorged of
        None \<Rightarrow> (recover_state_from_db L S n, Refused why)
      | Some local_top \<Rightarrow>
          (case commit_block L S (node_db n) local_top saved_vault (block_outputs local_top)
                  (block_images local_top) of
             (db', Inl _) \<Rightarrow> (n\<lparr>node_db := db'\<rparr>, Terminated)
           | (db', Inr _) \<Rightarrow> (recover_state_from_db L S (n\<lparr>node_db := db'\<rparr>), Refused why)))"

text \<open>The fork choice between the block and the local block at the same height.\<close>

definition string_less :: "string \<Rightarrow> string \<Rightarrow> bool" where
  "string_less s t \<longleftrightarrow> lex_less (bytes_of_string s) (bytes_of_string t)"

definition remote_preferred :: "sodium \<Rightarrow> bytes list \<Rightarrow> block \<Rightarrow> block \<Rightarrow> bool" where
  "remote_preferred S authorized remote local_top =
     (let remote_quorum = verify_quorum S (header remote) authorized;
          local_quorum = verify_quorum S (header local_top) authorized
      in if remote_quorum > local_quorum then True
         else if remote_quorum = local_quorum
         then string_less (to_hex (block_hash S remote)) (to_hex (block_hash S local_top))
         else False)"

text \<open>The part after the fork choice: validate, apply in memory, persist.\<close>

definition apply_on_top ::
  "'s lmdb \<Rightarrow> sodium \<Rightarrow> block option \<Rightarrow> vault \<Rightarrow> 's node \<Rightarrow> block \<Rightarrow> 's node \<times> remote_result" where
  "apply_on_top L S reorged saved_vault n b =
     (case validate_block L S n (db_top_height (node_db n)) b of
        Inl why \<Rightarrow> reorg_guard L S reorged saved_vault n why
      | Inr (temp_vault, spent_images, new_utxos) \<Rightarrow>
     (case restore_state (node_vault n) (total_collateral temp_vault) (circulating_supply temp_vault)
             (fee_pool_reserve temp_vault) of
        (v, Inl e) \<Rightarrow> reorg_guard L S reorged saved_vault (n\<lparr>node_vault := v\<rparr>) (Thrown e)
      | (v, Inr _) \<Rightarrow>
      let n = n\<lparr>node_vault := v,
                node_ledger := foldl (\<lambda>led ki. fst (register_key_image S led ki)) (node_ledger n) spent_images,
                node_pool := node_pool n @ new_utxos,
                node_history := node_history n @ txs b\<rparr>
      in (case commit_block L S (node_db n) b (node_vault n) new_utxos spent_images of
            (db', Inl e) \<Rightarrow>
              reorg_guard L S reorged saved_vault (n\<lparr>node_db := db'\<rparr>) (Rejected (Persist_failed e))
          | (db', Inr _) \<Rightarrow> (n\<lparr>node_db := db'\<rparr>, Accepted))))"

definition apply_remote_block ::
  "'s lmdb \<Rightarrow> sodium \<Rightarrow> 's node \<Rightarrow> block \<Rightarrow> 's node \<times> remote_result" where
  "apply_remote_block L S n b =
     (let current_height = db_top_height (node_db n) in
      if hdr_height (header b) = current_height \<and> current_height > 0 then
        (case get_block_by_height L S (node_db n) current_height of
           None \<Rightarrow> (n, Refused (Rejected Reorg_top_missing))
         | Some local_top \<Rightarrow>
             if block_hash S b = block_hash S local_top then (n, Accepted)
             else if prev_block_hash (header b) \<noteq> prev_block_hash (header local_top)
             then (n, Refused (Rejected Reorg_other_ancestor))
             else if \<not> remote_preferred S (node_authorized n) b local_top
             then (n, Refused (Rejected Reorg_not_preferred))
             else (case rollback_top_block L S (node_db n) of
                (db', False) \<Rightarrow> (n\<lparr>node_db := db'\<rparr>, Refused (Rejected Reorg_rollback_failed))
              | (db', True) \<Rightarrow>
                  apply_on_top L S (Some local_top) (node_vault n)
                    (recover_state_from_db L S (n\<lparr>node_db := db'\<rparr>)) b))
      else apply_on_top L S None (node_vault n) n b)"

section \<open>Queries\<close>

definition audit_system :: "'s node \<Rightarrow> bool" where
  "audit_system n = audit_solvency (node_vault n)"

definition get_blockchain_height :: "'s node \<Rightarrow> u64" where
  "get_blockchain_height n = db_top_height (node_db n)"

definition get_top_block_hash :: "'s node \<Rightarrow> bytes" where
  "get_top_block_hash n = db_top_hash (node_db n)"

definition get_block :: "'s lmdb \<Rightarrow> sodium \<Rightarrow> 's node \<Rightarrow> u64 \<Rightarrow> block option" where
  "get_block L S n h = get_block_by_height L S (node_db n) h"

definition node_deposit_processed :: "'s lmdb \<Rightarrow> 's node \<Rightarrow> string \<Rightarrow> bool" where
  "node_deposit_processed L n txh = is_deposit_tx_processed L (node_db n) txh"

end
