(* ===== verification/P2P.thy ===== *)
theory P2P
  imports Services Node "HOL-Library.AList"
begin

text \<open>
  Model of \<^verbatim>\<open>include/p2p.hpp\<close> and \<^verbatim>\<open>src/p2p.cpp\<close>: the table of peers, the handshake with its
  peer exchange, the gossip of blocks and the two directions of synchronization. The state
  of an operation is the node, the manager and the outside world; the peers answer through
  the platform. Other threads of the process do not interfere: an operation is modelled as
  if it ran alone. Loops over what a peer keeps sending have fuel, \<open>None\<close> is "has not
  returned yet".
\<close>

section \<open>State\<close>

record peer_info =
  peer_node_id :: string
  peer_address :: string
  peer_height :: u64
  peer_top_hash :: bytes
  peer_last_seen :: u64
  peer_latency_ms :: u32
  peer_connected :: bool

definition new_peer :: peer_info where
  "new_peer = \<lparr>peer_node_id = [], peer_address = [], peer_height = 0, peer_top_hash = zero_key,
     peer_last_seen = 0, peer_latency_ms = 0, peer_connected = False\<rparr>"

text \<open>The hash table of peers is a list of its entries; the platform gives the order of a visit.\<close>

record p2p_manager =
  local_listen_url :: string
  local_node_id :: string
  peers :: "(string \<times> peer_info) list"
  is_running :: bool
  is_syncing :: bool

record ('s, 'w) system =
  sys_node :: "'s node"
  sys_p2p :: p2p_manager
  sys_world :: 'w

text \<open>How an operation ends: with its result, or with the end of the process.\<close>

datatype verdict = Returned bool | Process_ended

section \<open>Addresses\<close>

text \<open>\<^verbatim>\<open>c <= 32 || c == 127\<close> on a signed \<^verbatim>\<open>char\<close>: also the bytes from 128 on.\<close>

definition bad_url_char :: "char \<Rightarrow> bool" where
  "bad_url_char c = (let n = (of_char c :: nat) in n \<le> 32 \<or> n \<ge> 127)"

definition starts_with :: "string \<Rightarrow> string \<Rightarrow> bool" where
  "starts_with prefix s \<longleftrightarrow> take (length prefix) s = prefix"

definition normalize_url :: "string \<Rightarrow> string" where
  "normalize_url url =
     (if url = [] then []
      else if \<not> starts_with ''http://'' url \<and> \<not> starts_with ''https://'' url then []
      else let clean = (if last url = CHR ''/'' then butlast url else url)
           in if list_ex bad_url_char clean then [] else clean)"

definition new_p2p_manager :: "string \<Rightarrow> string \<Rightarrow> bytes \<Rightarrow> p2p_manager" where
  "new_p2p_manager listen_url node_id rand_id =
     \<lparr>local_listen_url = normalize_url listen_url,
      local_node_id = (if node_id = [] then ''node-'' @ to_hex rand_id else node_id),
      peers = [], is_running = False, is_syncing = False\<rparr>"

definition start_p2p :: "p2p_manager \<Rightarrow> p2p_manager" where
  "start_p2p M = M\<lparr>is_running := True\<rparr>"

definition stop_p2p :: "p2p_manager \<Rightarrow> p2p_manager" where
  "stop_p2p M = M\<lparr>is_running := False\<rparr>"

section \<open>The table of peers\<close>

definition find_peer :: "p2p_manager \<Rightarrow> string \<Rightarrow> peer_info option" where
  "find_peer M url = map_of (peers M) url"

definition set_peer :: "string \<Rightarrow> peer_info \<Rightarrow> p2p_manager \<Rightarrow> p2p_manager" where
  "set_peer url p M = M\<lparr>peers := AList.update url p (peers M)\<rparr>"

definition update_peer :: "(peer_info \<Rightarrow> peer_info) \<Rightarrow> string \<Rightarrow> p2p_manager \<Rightarrow> p2p_manager" where
  "update_peer f url M = (case find_peer M url of None \<Rightarrow> M | Some p \<Rightarrow> set_peer url (f p) M)"

text \<open>\<^verbatim>\<open>auto& p = peers_[clean_url]\<close>, which creates a missing entry.\<close>

definition peer_entry :: "p2p_manager \<Rightarrow> string \<Rightarrow> peer_info" where
  "peer_entry M url = (case find_peer M url of None \<Rightarrow> new_peer | Some p \<Rightarrow> p)"

definition remove_peer :: "p2p_manager \<Rightarrow> string \<Rightarrow> p2p_manager" where
  "remove_peer M peer_url = M\<lparr>peers := AList.delete (normalize_url peer_url) (peers M)\<rparr>"

definition get_peer_urls :: "('w, 't) platform \<Rightarrow> p2p_manager \<Rightarrow> string list" where
  "get_peer_urls P M = pf_order P (map fst (peers M))"

definition get_active_peers :: "('w, 't) platform \<Rightarrow> p2p_manager \<Rightarrow> peer_info list" where
  "get_active_peers P M = map (peer_entry M) (pf_order P (map fst (peers M)))"

definition get_peer_count :: "p2p_manager \<Rightarrow> nat" where
  "get_peer_count M = length (peers M)"

definition register_incoming_peer ::
  "u64 \<Rightarrow> p2p_manager \<Rightarrow> string \<Rightarrow> string \<Rightarrow> u64 \<Rightarrow> bytes \<Rightarrow> p2p_manager" where
  "register_incoming_peer now M peer_url node_id height top_hash =
     (let clean_url = normalize_url peer_url in
      if clean_url = [] \<or> clean_url = local_listen_url M then M
      else set_peer clean_url
             ((peer_entry M clean_url)\<lparr>peer_address := clean_url, peer_node_id := node_id,
                peer_height := height, peer_top_hash := top_hash, peer_last_seen := now,
                peer_connected := True\<rparr>) M)"

section \<open>Gossip of a block\<close>

text \<open>The document both the gossip and the push send for a block.\<close>

definition block_payload ::
  "('j, 't) json_lib \<Rightarrow> sodium \<Rightarrow> p2p_manager \<Rightarrow> block \<Rightarrow> bytes \<Rightarrow> 't" where
  "block_payload J S M b raw_bytes =
     js_dump J (js_object J
       [(''sender_node_id'', js_string J (local_node_id M)),
        (''sender_listen_url'', js_string J (local_listen_url M)),
        (''height'', js_u64 J (hdr_height (header b))),
        (''block_hash'', js_string J (to_hex (block_hash S b))),
        (''block_hex'', js_string J (to_hex raw_bytes))])"

definition gossip_targets :: "('w, 't) platform \<Rightarrow> p2p_manager \<Rightarrow> string \<Rightarrow> string list" where
  "gossip_targets P M skip_peer_url =
     filter (\<lambda>url. url \<noteq> skip_peer_url \<and> peer_connected (peer_entry M url)) (pf_order P (map fst (peers M)))"

definition gossip_to ::
  "sodium \<Rightarrow> ('w, 't) platform \<Rightarrow> block \<Rightarrow> 't \<Rightarrow> p2p_manager \<times> 'w \<Rightarrow> string \<Rightarrow> p2p_manager \<times> 'w" where
  "gossip_to S P b payload mw peer_url =
     (case mw of (M, w) \<Rightarrow>
      (case pf_post P w peer_url ''/api/v1/p2p/block'' payload of
         (w, Some (status, _)) \<Rightarrow>
           (if status = 200
            then update_peer (\<lambda>p. p\<lparr>peer_height := max (peer_height p) (hdr_height (header b)),
                   peer_top_hash := block_hash S b, peer_last_seen := pf_now P w\<rparr>) peer_url M
            else M, w)
       | (w, None) \<Rightarrow> (M, w)))"

text \<open>\<^verbatim>\<open>serialize\<close> may throw before anything is sent.\<close>

definition broadcast_block ::
  "('j, 't) json_lib \<Rightarrow> sodium \<Rightarrow> ('w, 't) platform \<Rightarrow> p2p_manager \<Rightarrow> 'w \<Rightarrow> block \<Rightarrow> string
     \<Rightarrow> (p2p_manager \<times> 'w) \<times> (error + unit)" where
  "broadcast_block J S P M w b skip_peer_url =
     (let target_peers = gossip_targets P M skip_peer_url in
      if target_peers = [] then ((M, w), Inr ())
      else case serialize_block b of
        Inl e \<Rightarrow> ((M, w), Inl e)
      | Inr raw_bytes \<Rightarrow>
          (foldl (gossip_to S P b (block_payload J S M b raw_bytes)) (M, w) target_peers, Inr ()))"

section \<open>Download from a peer\<close>

definition sync_query :: "u64 \<Rightarrow> string" where
  "sync_query from_height =
     ''/api/v1/p2p/sync?from_height='' @ dec_string (unat from_height) @ ''&limit=50''"

definition block_of_item :: "('j, 't) json_lib \<Rightarrow> sodium \<Rightarrow> 'j \<Rightarrow> error + block" where
  "block_of_item J S item =
     ebind (json_at J item ''block_hex'') (\<lambda>x. ebind (json_hex J x) (deserialize_block S))"

text \<open>The loop over the blocks of a batch: the first one that is not applied ends the download.\<close>

fun apply_items ::
  "'s lmdb \<Rightarrow> sodium \<Rightarrow> ('j, 't) json_lib \<Rightarrow> 's node \<Rightarrow> 'j list \<Rightarrow> 's node \<times> verdict" where
  "apply_items L S J n [] = (n, Returned True)"
| "apply_items L S J n (item # items) =
     (case block_of_item J S item of
        Inl _ \<Rightarrow> (n, Returned False)
      | Inr blk \<Rightarrow>
          (case apply_remote_block L S n blk of
             (n', Accepted) \<Rightarrow> apply_items L S J n' items
           | (n', Refused _) \<Rightarrow> (n', Returned False)
           | (n', Terminated) \<Rightarrow> (n', Process_ended)))"

text \<open>The blocks of a reply, \<open>None\<close> when the reply is not one of the expected form.\<close>

definition batch_of :: "('j, 't) json_lib \<Rightarrow> (nat \<times> 't) option \<Rightarrow> 'j list option" where
  "batch_of J res =
     (case res of None \<Rightarrow> None
      | Some (status, body) \<Rightarrow>
          if status \<noteq> 200 then None
          else (case js_parse J body of None \<Rightarrow> None
             | Some data \<Rightarrow>
                 if \<not> json_contains J data ''blocks'' then None
                 else (case js_find J data ''blocks'' of None \<Rightarrow> None
                    | Some arr \<Rightarrow> if js_is_array J arr then Some (js_items J arr) else None)))"

fun sync_loop ::
  "nat \<Rightarrow> 's lmdb \<Rightarrow> sodium \<Rightarrow> ('j, 't) json_lib \<Rightarrow> ('w, 't) platform \<Rightarrow> string \<Rightarrow> 's node \<Rightarrow> 'w
     \<Rightarrow> ('s node \<times> 'w \<times> verdict) option" where
  "sync_loop 0 L S J P clean_url n w = None"
| "sync_loop (Suc fuel) L S J P clean_url n w =
     (case pf_get P w clean_url (sync_query (get_blockchain_height n + 1)) of (w, res) \<Rightarrow>
        (case batch_of J res of
           None \<Rightarrow> Some (n, w, Returned False)
         | Some items \<Rightarrow>
             if items = [] then Some (n, w, Returned True)
             else (case apply_items L S J n items of
                (n, Returned True) \<Rightarrow>
                  if length items < 50 then Some (n, w, Returned True)
                  else sync_loop fuel L S J P clean_url n w
              | (n, v) \<Rightarrow> Some (n, w, v))))"

text \<open>\<^verbatim>\<open>SyncGuard\<close> resets the flag on every return.\<close>

definition sync_from_peer ::
  "nat \<Rightarrow> 's lmdb \<Rightarrow> sodium \<Rightarrow> ('j, 't) json_lib \<Rightarrow> ('w, 't) platform \<Rightarrow> ('s, 'w) system \<Rightarrow> string
     \<Rightarrow> (('s, 'w) system \<times> verdict) option" where
  "sync_from_peer fuel L S J P s peer_url =
     (let clean_url = normalize_url peer_url in
      if clean_url = [] then Some (s, Returned False)
      else if is_syncing (sys_p2p s) then Some (s, Returned False)
      else case sync_loop fuel L S J P clean_url (sys_node s) (sys_world s) of
        None \<Rightarrow> None
      | Some (n, w, v) \<Rightarrow> Some (s\<lparr>sys_node := n, sys_world := w\<rparr>, v))"

section \<open>Upload to a peer\<close>

text \<open>
  The loop over the heights. It reads the node and does not change it. Heights are below
  \<open>2 ^ 64 - 1\<close>, where the loop variable of the source would wrap around.
\<close>

fun push_heights ::
  "'s lmdb \<Rightarrow> sodium \<Rightarrow> ('j, 't) json_lib \<Rightarrow> ('w, 't) platform \<Rightarrow> 's node \<Rightarrow> p2p_manager \<Rightarrow> string \<Rightarrow> 'w
     \<Rightarrow> u64 list \<Rightarrow> 'w \<times> bool" where
  "push_heights L S J P n M clean_url w [] = (w, True)"
| "push_heights L S J P n M clean_url w (h # hs) =
     (case get_block L S n h of
        None \<Rightarrow> (w, False)
      | Some blk \<Rightarrow>
          (case serialize_block blk of
             Inl _ \<Rightarrow> (w, False)
           | Inr raw_bytes \<Rightarrow>
               (case pf_post P w clean_url ''/api/v1/p2p/block'' (block_payload J S M blk raw_bytes) of
                  (w, None) \<Rightarrow> (w, False)
                | (w, Some (status, _)) \<Rightarrow>
                    if status \<noteq> 200 then (w, False) else push_heights L S J P n M clean_url w hs)))"

definition heights_between :: "u64 \<Rightarrow> u64 \<Rightarrow> u64 list" where
  "heights_between from_height my_height = map of_nat [unat from_height..<Suc (unat my_height)]"

definition push_blocks_to_peer ::
  "'s lmdb \<Rightarrow> sodium \<Rightarrow> ('j, 't) json_lib \<Rightarrow> ('w, 't) platform \<Rightarrow> ('s, 'w) system \<Rightarrow> string \<Rightarrow> u64
     \<Rightarrow> ('s, 'w) system \<times> bool" where
  "push_blocks_to_peer L S J P s peer_url from_height =
     (let clean_url = normalize_url peer_url in
      if clean_url = [] then (s, False)
      else if is_syncing (sys_p2p s) then (s, False)
      else let my_height = get_blockchain_height (sys_node s) in
        if from_height > my_height then (s, True)
        else case push_heights L S J P (sys_node s) (sys_p2p s) clean_url (sys_world s)
               (heights_between from_height my_height) of
          (w, ok) \<Rightarrow> (s\<lparr>sys_world := w\<rparr>, ok))"

section \<open>Handshake\<close>

definition handshake_request ::
  "('j, 't) json_lib \<Rightarrow> ('s, 'w) system \<Rightarrow> 't" where
  "handshake_request J s =
     js_dump J (js_object J
       [(''node_id'', js_string J (local_node_id (sys_p2p s))),
        (''listen_url'', js_string J (local_listen_url (sys_p2p s))),
        (''height'', js_u64 J (get_blockchain_height (sys_node s))),
        (''top_hash'', js_string J (to_hex (get_top_block_hash (sys_node s)))),
        (''version'', js_int J 1)])"

definition mark_disconnected :: "string \<Rightarrow> ('s, 'w) system \<Rightarrow> ('s, 'w) system" where
  "mark_disconnected clean_url s =
     s\<lparr>sys_p2p := update_peer (\<lambda>p. p\<lparr>peer_connected := False\<rparr>) clean_url (sys_p2p s)\<rparr>"

text \<open>
  The fields of the reply, then the entry of the peer: identity and height are written
  before the hash is decoded, so that a bad hash leaves them changed.
\<close>

definition record_peer ::
  "('j, 't) json_lib \<Rightarrow> ('w, 't) platform \<Rightarrow> 'w \<Rightarrow> ('s, 'w) system \<Rightarrow> string \<Rightarrow> 'j \<Rightarrow> ('s, 'w) system \<times> (error + u64)" where
  "record_peer J P before s clean_url data =
     (case ebind (json_value J (js_get_string J) data ''node_id'' []) (\<lambda>remote_id.
           ebind (json_value J (js_get_u64 J) data ''height'' 0) (\<lambda>remote_height.
           ebind (json_value J (js_get_string J) data ''top_hash'' []) (\<lambda>top_hash_hex.
           Inr (remote_id, remote_height, top_hash_hex)))) of
        Inl e \<Rightarrow> (s, Inl e)
      | Inr (remote_id, remote_height, top_hash_hex) \<Rightarrow>
          let p = (peer_entry (sys_p2p s) clean_url)
                    \<lparr>peer_address := clean_url, peer_node_id := remote_id, peer_height := remote_height\<rparr>;
              store = (\<lambda>p. s\<lparr>sys_p2p := set_peer clean_url p (sys_p2p s)\<rparr>);
              finish = (\<lambda>p. p\<lparr>peer_last_seen := pf_now P (sys_world s),
                             peer_latency_ms := pf_elapsed_ms P before (sys_world s), peer_connected := True\<rparr>)
          in if top_hash_hex = [] then (store (finish p), Inr remote_height)
             else (case from_hex top_hash_hex of
                Inl e \<Rightarrow> (store p, Inl e)
              | Inr bs \<Rightarrow>
                  (store (finish (if length bs = 32 then p\<lparr>peer_top_hash := bs\<rparr> else p)), Inr remote_height)))"

text \<open>
  \<open>add_peer_with\<close> and \<open>exchange_peers\<close> take the handshake they call as an argument:
  handshake and registration call each other.
\<close>

type_synonym ('s, 'w) contact = "('s, 'w) system \<Rightarrow> string \<Rightarrow> (('s, 'w) system \<times> verdict) option"

definition add_peer_with :: "('s, 'w) contact \<Rightarrow> ('s, 'w) contact" where
  "add_peer_with handshake s peer_url =
     (let clean_url = normalize_url peer_url in
      if clean_url = [] \<or> clean_url = local_listen_url (sys_p2p s) then Some (s, Returned False)
      else if find_peer (sys_p2p s) clean_url \<noteq> None then Some (s, Returned False)
      else handshake (s\<lparr>sys_p2p := set_peer clean_url (new_peer\<lparr>peer_address := clean_url\<rparr>) (sys_p2p s)\<rparr>)
             clean_url)"

text \<open>The loop over \<^verbatim>\<open>known_peers\<close>; \<open>Returned False\<close> is the exception of an item that is no string.\<close>

fun exchange_peers ::
  "('s, 'w) contact \<Rightarrow> ('j, 't) json_lib \<Rightarrow> string \<Rightarrow> ('s, 'w) system \<Rightarrow> 'j list
     \<Rightarrow> (('s, 'w) system \<times> verdict) option" where
  "exchange_peers handshake J clean_url s [] = Some (s, Returned True)"
| "exchange_peers handshake J clean_url s (item # items) =
     (case js_get_string J item of
        None \<Rightarrow> Some (s, Returned False)
      | Some candidate \<Rightarrow>
          if candidate \<noteq> local_listen_url (sys_p2p s) \<and> candidate \<noteq> clean_url
          then (case add_peer_with handshake s candidate of
                  None \<Rightarrow> None
                | Some (s, Process_ended) \<Rightarrow> Some (s, Process_ended)
                | Some (s, Returned _) \<Rightarrow> exchange_peers handshake J clean_url s items)
          else exchange_peers handshake J clean_url s items)"

definition known_peers :: "('j, 't) json_lib \<Rightarrow> 'j \<Rightarrow> 'j list" where
  "known_peers J data =
     (if json_contains J data ''known_peers''
      then (case js_find J data ''known_peers'' of None \<Rightarrow> []
         | Some arr \<Rightarrow> if js_is_array J arr then js_items J arr else [])
      else [])"

text \<open>The end of a handshake: download from a longer chain, upload to a shorter one.\<close>

definition catch_up ::
  "nat \<Rightarrow> 's lmdb \<Rightarrow> sodium \<Rightarrow> ('j, 't) json_lib \<Rightarrow> ('w, 't) platform \<Rightarrow> ('s, 'w) system \<Rightarrow> string \<Rightarrow> u64
     \<Rightarrow> (('s, 'w) system \<times> verdict) option" where
  "catch_up fuel L S J P s clean_url remote_height =
     (if remote_height > get_blockchain_height (sys_node s)
      then (case sync_from_peer fuel L S J P s clean_url of
              None \<Rightarrow> None
            | Some (s, Process_ended) \<Rightarrow> Some (s, Process_ended)
            | Some (s, Returned _) \<Rightarrow> Some (s, Returned True))
      else if remote_height < get_blockchain_height (sys_node s)
      then Some (fst (push_blocks_to_peer L S J P s clean_url (remote_height + 1)), Returned True)
      else Some (s, Returned True))"

definition handshake_step ::
  "('s, 'w) contact \<Rightarrow> nat \<Rightarrow> 's lmdb \<Rightarrow> sodium \<Rightarrow> ('j, 't) json_lib \<Rightarrow> ('w, 't) platform \<Rightarrow> ('s, 'w) contact" where
  "handshake_step handshake fuel L S J P s peer_url =
     (let clean_url = normalize_url peer_url in
      if clean_url = [] \<or> clean_url = local_listen_url (sys_p2p s) then Some (s, Returned False)
      else case pf_post P (sys_world s) clean_url ''/api/v1/p2p/handshake'' (handshake_request J s) of (w, res) \<Rightarrow>
        let before = sys_world s; s = s\<lparr>sys_world := w\<rparr>;
            failed = (\<lambda>s. Some (mark_disconnected clean_url s, Returned False))
        in case res of
             None \<Rightarrow> failed s
           | Some (status, body) \<Rightarrow>
               if status \<noteq> 200 then failed s
               else case js_parse J body of
                 None \<Rightarrow> failed s
               | Some data \<Rightarrow>
                   (case record_peer J P before s clean_url data of
                      (s, Inl _) \<Rightarrow> failed s
                    | (s, Inr remote_height) \<Rightarrow>
                        (case exchange_peers handshake J clean_url s (known_peers J data) of
                           None \<Rightarrow> None
                         | Some (s, Process_ended) \<Rightarrow> Some (s, Process_ended)
                         | Some (s, Returned False) \<Rightarrow> failed s
                         | Some (s, Returned True) \<Rightarrow> catch_up fuel L S J P s clean_url remote_height)))"

fun handshake_with_peer ::
  "nat \<Rightarrow> 's lmdb \<Rightarrow> sodium \<Rightarrow> ('j, 't) json_lib \<Rightarrow> ('w, 't) platform \<Rightarrow> ('s, 'w) contact" where
  "handshake_with_peer 0 L S J P s peer_url = None"
| "handshake_with_peer (Suc fuel) L S J P s peer_url =
     handshake_step (handshake_with_peer fuel L S J P) fuel L S J P s peer_url"

definition add_peer ::
  "nat \<Rightarrow> 's lmdb \<Rightarrow> sodium \<Rightarrow> ('j, 't) json_lib \<Rightarrow> ('w, 't) platform \<Rightarrow> ('s, 'w) contact" where
  "add_peer fuel L S J P = add_peer_with (handshake_with_peer fuel L S J P)"

text \<open>One round of \<^verbatim>\<open>background_sync_loop\<close>, over the peers known when it starts.\<close>

fun heartbeat ::
  "('s, 'w) contact \<Rightarrow> ('s, 'w) system \<Rightarrow> string list \<Rightarrow> (('s, 'w) system \<times> verdict) option" where
  "heartbeat handshake s [] = Some (s, Returned True)"
| "heartbeat handshake s (peer_url # urls) =
     (if \<not> is_running (sys_p2p s) then Some (s, Returned True)
      else case handshake s peer_url of
        None \<Rightarrow> None
      | Some (s, Process_ended) \<Rightarrow> Some (s, Process_ended)
      | Some (s, Returned _) \<Rightarrow> heartbeat handshake s urls)"

definition background_round ::
  "nat \<Rightarrow> 's lmdb \<Rightarrow> sodium \<Rightarrow> ('j, 't) json_lib \<Rightarrow> ('w, 't) platform \<Rightarrow> ('s, 'w) system
     \<Rightarrow> (('s, 'w) system \<times> verdict) option" where
  "background_round fuel L S J P s =
     heartbeat (handshake_with_peer fuel L S J P) s (get_peer_urls P (sys_p2p s))"


section \<open>Registered peers\<close>

text \<open>
  A registered address is not empty, printable, of one of the two schemes, not the
  address of the node itself, and the key of just one entry, which repeats it and has a
  top hash of 32 bytes.
\<close>

definition peer_url_ok :: "string \<Rightarrow> bool" where
  "peer_url_ok url \<longleftrightarrow> url \<noteq> [] \<and> \<not> list_ex bad_url_char url
     \<and> (starts_with ''http:/'' url \<or> starts_with ''https:/'' url)"

definition peer_ok :: "string \<Rightarrow> string \<Rightarrow> peer_info \<Rightarrow> bool" where
  "peer_ok listen_url url p \<longleftrightarrow>
     peer_url_ok url \<and> url \<noteq> listen_url \<and> peer_address p = url \<and> length (peer_top_hash p) = 32"

definition peers_ok :: "p2p_manager \<Rightarrow> bool" where
  "peers_ok M \<longleftrightarrow> distinct (map fst (peers M))
     \<and> (\<forall>url p. find_peer M url = Some p \<longrightarrow> peer_ok (local_listen_url M) url p)"

lemma starts_with_append [simp]: "starts_with p (p @ s)"
  by (simp add: starts_with_def)

lemma starts_withE:
  assumes "starts_with p s"
  obtains r where "s = p @ r"
  using assms by (metis append_take_drop_id starts_with_def)

lemma starts_with_trans: "starts_with (p @ q) s \<Longrightarrow> starts_with p s"
  by (auto elim: starts_withE)

lemma normalize_url_ok:
  assumes "normalize_url u \<noteq> []"
  shows "peer_url_ok (normalize_url u)"
proof -
  have cut: "starts_with p (butlast u)" if u: "starts_with (p @ [c]) u" for p c
  proof -
    obtain r where "u = (p @ [c]) @ r"
      using u by (rule starts_withE)
    then show ?thesis
      by (cases r rule: rev_cases) (auto simp: butlast_append starts_with_def)
  qed
  have "starts_with ''http:/'' u \<and> starts_with ''http:/'' (butlast u)" if "starts_with ''http://'' u"
    using that cut [of "''http:/''" "CHR ''/''"] starts_with_trans [of "''http:/''" "''/''" u] by simp
  moreover have "starts_with ''https:/'' u \<and> starts_with ''https:/'' (butlast u)" if "starts_with ''https://'' u"
    using that cut [of "''https:/''" "CHR ''/''"] starts_with_trans [of "''https:/''" "''/''" u] by simp
  ultimately show ?thesis
    using assms by (auto simp: peer_url_ok_def normalize_url_def Let_def split: if_splits)
qed

lemma find_peer_set [simp]: "find_peer (set_peer url p M) = (find_peer M)(url \<mapsto> p)"
  by (auto simp: find_peer_def set_peer_def update_conv)

lemma set_peer_fields [simp]:
  "local_listen_url (set_peer url p M) = local_listen_url M"
  "local_node_id (set_peer url p M) = local_node_id M"
  "is_running (set_peer url p M) = is_running M" "is_syncing (set_peer url p M) = is_syncing M"
  by (simp_all add: set_peer_def)

lemma distinct_set_peer: "distinct (map fst (peers M)) \<Longrightarrow> distinct (map fst (peers (set_peer url p M)))"
  by (simp add: set_peer_def distinct_update)

lemma peers_ok_set_peer:
  "peers_ok M \<Longrightarrow> peer_ok (local_listen_url M) url p \<Longrightarrow> peers_ok (set_peer url p M)"
  by (auto simp: peers_ok_def intro: distinct_set_peer)

lemma peer_entry_hash: "peers_ok M \<Longrightarrow> length (peer_top_hash (peer_entry M url)) = 32"
  by (auto simp: peer_entry_def new_peer_def zero_key_def peers_ok_def peer_ok_def split: option.split)

lemma peers_ok_new: "peers_ok (new_p2p_manager listen_url node_id rand_id)"
  by (simp add: new_p2p_manager_def peers_ok_def find_peer_def)

lemma peers_ok_remove: "peers_ok M \<Longrightarrow> peers_ok (remove_peer M url)"
  by (auto simp: peers_ok_def remove_peer_def find_peer_def distinct_delete delete_conv split: if_splits)

lemma peers_ok_register:
  assumes "peers_ok M" and "length top_hash = 32"
  shows "peers_ok (register_incoming_peer now M url node_id height top_hash)"
  using assms normalize_url_ok [of url]
  by (auto simp: register_incoming_peer_def Let_def peer_ok_def intro: peers_ok_set_peer)

lemma peers_ok_update_peer:
  assumes "peers_ok M"
    and "\<And>p. peer_address (f p) = peer_address p" and "\<And>p. length (peer_top_hash p) = 32 \<Longrightarrow> length (peer_top_hash (f p)) = 32"
  shows "peers_ok (update_peer f url M)"
proof (cases "find_peer M url")
  case (Some p)
  with assms(1) have "peer_ok (local_listen_url M) url p"
    by (simp add: peers_ok_def)
  then have "peer_ok (local_listen_url M) url (f p)"
    using assms(2,3) by (simp add: peer_ok_def)
  with assms(1) Some show ?thesis
    by (simp add: update_peer_def peers_ok_set_peer)
qed (use assms(1) in \<open>simp add: update_peer_def\<close>)

lemma update_peer_fields [simp]:
  "local_listen_url (update_peer f url M) = local_listen_url M"
  "local_node_id (update_peer f url M) = local_node_id M"
  "is_running (update_peer f url M) = is_running M" "is_syncing (update_peer f url M) = is_syncing M"
  by (simp_all add: update_peer_def split: option.splits)

lemma dom_update_peer [simp]: "dom (find_peer (update_peer f url M)) = dom (find_peer M)"
  by (auto simp: update_peer_def split: option.splits)

section \<open>What a contact changes\<close>

text \<open>
  How the operations that talk to peers change the manager: identity and flags stay, no
  entry is lost, the table stays well formed. \<open>rank\<close> measures what the outside world can
  still send; in a quiet world no exchange raises it.
\<close>

definition known_urls :: "('s, 'w) system \<Rightarrow> string set" where
  "known_urls s = dom (find_peer (sys_p2p s))"

definition evolves :: "('w \<Rightarrow> nat) \<Rightarrow> ('s, 'w) system \<Rightarrow> ('s, 'w) system \<Rightarrow> bool" where
  "evolves rank s s' \<longleftrightarrow>
     local_listen_url (sys_p2p s') = local_listen_url (sys_p2p s)
   \<and> local_node_id (sys_p2p s') = local_node_id (sys_p2p s)
   \<and> is_running (sys_p2p s') = is_running (sys_p2p s) \<and> is_syncing (sys_p2p s') = is_syncing (sys_p2p s)
   \<and> known_urls s \<subseteq> known_urls s' \<and> (peers_ok (sys_p2p s) \<longrightarrow> peers_ok (sys_p2p s'))
   \<and> rank (sys_world s') \<le> rank (sys_world s)"

definition quiet :: "('w \<Rightarrow> nat) \<Rightarrow> ('w, 't) platform \<Rightarrow> bool" where
  "quiet rank P \<longleftrightarrow> (\<forall>w u p b. rank (fst (pf_post P w u p b)) \<le> rank w \<and> rank (fst (pf_get P w u p)) \<le> rank w)"

lemma evolves_refl [simp]: "evolves rank s s"
  by (simp add: evolves_def)

lemma evolves_trans: "evolves rank s1 s2 \<Longrightarrow> evolves rank s2 s3 \<Longrightarrow> evolves rank s1 s3"
  by (auto simp: evolves_def)

lemma evolves_set_peer:
  assumes "peers_ok (sys_p2p s) \<Longrightarrow> peer_ok (local_listen_url (sys_p2p s)) url p"
  shows "evolves rank s (s\<lparr>sys_p2p := set_peer url p (sys_p2p s)\<rparr>)"
  using assms by (auto simp: evolves_def known_urls_def peers_ok_set_peer)

lemma evolves_mark_disconnected: "evolves rank s (mark_disconnected url s)"
  by (simp add: evolves_def mark_disconnected_def known_urls_def peers_ok_update_peer)

lemma evolves_world: "rank w \<le> rank (sys_world s) \<Longrightarrow> evolves rank s (s\<lparr>sys_node := n, sys_world := w\<rparr>)"
    "rank w \<le> rank (sys_world s) \<Longrightarrow> evolves rank s (s\<lparr>sys_world := w\<rparr>)"
  by (simp_all add: evolves_def known_urls_def)

lemma evolves_register:
  "normalize_url u \<noteq> [] \<Longrightarrow> normalize_url u \<noteq> local_listen_url (sys_p2p s) \<Longrightarrow>
   evolves rank s (s\<lparr>sys_p2p := set_peer (normalize_url u) (new_peer\<lparr>peer_address := normalize_url u\<rparr>) (sys_p2p s)\<rparr>)"
  by (rule evolves_set_peer) (simp add: peer_ok_def normalize_url_ok new_peer_def zero_key_def)

text \<open>
  The contract between handshake and registration, which call each other: if the
  handshake respects a reflexive and transitive relation that registering a peer also
  respects, so do registration, peer exchange and heartbeat.
\<close>

locale peer_contact =
  fixes handshake :: "('s, 'w) contact"
    and rel :: "('s, 'w) system \<Rightarrow> ('s, 'w) system \<Rightarrow> bool"
  assumes rel_refl: "rel s s"
    and rel_trans: "rel s1 s2 \<Longrightarrow> rel s2 s3 \<Longrightarrow> rel s1 s3"
    and rel_register: "normalize_url u \<noteq> [] \<Longrightarrow> normalize_url u \<noteq> local_listen_url (sys_p2p s) \<Longrightarrow>
      rel s (s\<lparr>sys_p2p := set_peer (normalize_url u) (new_peer\<lparr>peer_address := normalize_url u\<rparr>) (sys_p2p s)\<rparr>)"
    and rel_handshake: "handshake s u = Some (s', v) \<Longrightarrow> rel s s'"
begin

lemma add_peer_rel: "add_peer_with handshake s u = Some (s', v) \<Longrightarrow> rel s s'"
  using rel_handshake rel_register [of u s]
  by (auto simp: add_peer_with_def Let_def rel_refl intro: rel_trans split: if_splits)

lemma exchange_rel: "exchange_peers handshake J c s items = Some (s', v) \<Longrightarrow> rel s s'"
proof (induction items arbitrary: s)
  case (Cons item items)
  then show ?case
    by (auto simp: rel_refl intro: add_peer_rel rel_trans split: option.splits if_splits prod.splits verdict.splits)
qed (simp add: rel_refl)

lemma heartbeat_rel: "heartbeat handshake s urls = Some (s', v) \<Longrightarrow> rel s s'"
proof (induction urls arbitrary: s)
  case (Cons u urls)
  then show ?case
    by (auto simp: rel_refl intro: rel_handshake rel_trans split: option.splits if_splits prod.splits verdict.splits)
qed (simp add: rel_refl)

end

lemma push_heights_rank:
  assumes "quiet rank P"
  shows "rank (fst (push_heights L S J P n M c w hs)) \<le> rank w"
proof (induction hs arbitrary: w)
  case (Cons h hs)
  have post: "rank w' \<le> rank w" if "pf_post P w u p b = (w', r)" for u p b w' r
    using assms that unfolding quiet_def by (metis fst_conv)
  show ?case
    using Cons.IH
    by (auto simp: split: option.split sum.split prod.split dest!: post intro: order_trans)
qed simp

lemma sync_loop_rank:
  assumes "quiet rank P"
  shows "sync_loop fuel L S J P c n w = Some (n', w', v) \<Longrightarrow> rank w' \<le> rank w"
proof (induction fuel arbitrary: n w)
  case (Suc fuel)
  have get: "rank w1 \<le> rank w" if "pf_get P w u p = (w1, r)" for u p w1 r
    using assms that unfolding quiet_def by (metis fst_conv)
  from Suc show ?case
    by (auto split: prod.splits option.splits if_splits verdict.splits bool.splits dest: get intro: order_trans)
qed simp

lemma record_peer_evolves:
  assumes "record_peer J P before s c data = (s', r)" and "peer_url_ok c" and "c \<noteq> local_listen_url (sys_p2p s)"
  shows "evolves rank s s'"
  using assms peer_entry_hash [of "sys_p2p s" c]
  by (auto simp: record_peer_def Let_def peer_ok_def split: sum.splits prod.splits if_splits intro!: evolves_set_peer)

lemma catch_up_evolves:
  assumes "quiet rank P" and "catch_up fuel L S J P s c h = Some (s', v)"
  shows "evolves rank s s'"
proof -
  have "rank w' \<le> rank w" if "push_heights L S J P n M c w hs = (w', ok)" for n M c w hs w' ok
    using push_heights_rank [OF assms(1), of L S J n M c w hs] that by simp
  with assms sync_loop_rank [OF assms(1)] show ?thesis
    by (auto simp: catch_up_def sync_from_peer_def push_blocks_to_peer_def Let_def split: if_splits option.splits
        prod.splits verdict.splits intro!: evolves_world)
qed

lemma handshake_step_evolves:
  assumes "peer_contact handshake (evolves rank)" and "quiet rank P"
    and "handshake_step handshake fuel L S J P s u = Some (s', v)"
  shows "evolves rank s s'"
proof (cases "normalize_url u = [] \<or> normalize_url u = local_listen_url (sys_p2p s)")
  case True
  with assms(3) show ?thesis
    by (simp add: handshake_step_def)
next
  case False
  then have c: "peer_url_ok (normalize_url u)" "normalize_url u \<noteq> local_listen_url (sys_p2p s)"
    using normalize_url_ok by auto
  obtain w res where p: "pf_post P (sys_world s) (normalize_url u) ''/api/v1/p2p/handshake'' (handshake_request J s) = (w, res)"
    by fastforce
  let ?s = "s\<lparr>sys_world := w\<rparr>"
  have w: "evolves rank s ?s"
    using assms(2) p unfolding quiet_def by (metis evolves_world(2) fst_conv)
  have dis: "evolves rank s (mark_disconnected c s1)" if "evolves rank ?s s1" for c s1
    using w that evolves_mark_disconnected evolves_trans by blast
  note step = assms(3) [unfolded handshake_step_def Let_def p prod.case]
  show ?thesis
  proof (cases "\<exists>body data. res = Some (200, body) \<and> js_parse J body = Some data")
    case False
    with \<open>\<not> (normalize_url u = [] \<or> _)\<close> step dis [OF evolves_refl] show ?thesis
      by (auto split: option.splits if_splits prod.splits)
  next
    case True
    then obtain body data where r: "res = Some (200, body)" "js_parse J body = Some data"
      by blast
    obtain s1 h where rp: "record_peer J P (sys_world s) ?s (normalize_url u) data = (s1, h)"
      by fastforce
    have s1: "evolves rank ?s s1"
      by (rule record_peer_evolves [OF rp c(1)]) (use c(2) in simp)
    have ex: "evolves rank ?s s2" if "exchange_peers handshake J (normalize_url u) s1 (known_peers J data) = Some (s2, v2)" for s2 v2
      using peer_contact.exchange_rel [OF assms(1) that] s1 evolves_trans by blast
    have cu: "evolves rank s s2" if "exchange_peers handshake J (normalize_url u) s1 (known_peers J data) = Some (s3, v3)"
      and "catch_up fuel L S J P s3 (normalize_url u) h' = Some (s2, v2)" for s2 v2 s3 v3 h'
      using ex [OF that(1)] catch_up_evolves [OF assms(2) that(2)] w evolves_trans by blast
    show ?thesis
      using \<open>\<not> (normalize_url u = [] \<or> _)\<close> step dis [OF s1] dis [OF ex] cu ex evolves_trans [OF w]
      by (auto simp: r rp split: option.splits sum.splits prod.splits verdict.splits bool.splits)
  qed
qed

lemma handshake_evolves:
  assumes "quiet rank P"
  shows "handshake_with_peer fuel L S J P s u = Some (s', v) \<Longrightarrow> evolves rank s s'"
proof (induction fuel arbitrary: s u s' v)
  case (Suc fuel)
  have "peer_contact (handshake_with_peer fuel L S J P) (evolves rank)"
    by unfold_locales (auto intro: evolves_trans evolves_register Suc.IH)
  from handshake_step_evolves [OF this assms] Suc.prems show ?case
    by simp
qed simp

lemma quiet_zero [simp]: "quiet (\<lambda>w. 0) P"
  by (simp add: quiet_def)

interpretation contact: peer_contact "handshake_with_peer fuel L S J P" "evolves (\<lambda>w. 0)" for fuel L S J P
  by unfold_locales (auto intro: evolves_trans evolves_register handshake_evolves [OF quiet_zero])

end
