(* ===== verification/Progress.thy ===== *)
theory Progress
  imports P2P
begin

text \<open>
  When the operations of \<^verbatim>\<open>src/p2p.cpp\<close> return: their results do not depend on the fuel once
  there is one, enough fuel exists when the peers advertise finitely many addresses and
  send finitely many full batches, and a peer that repeats the top block keeps the
  download from ever returning.
\<close>

section \<open>More fuel\<close>

lemma sync_loop_fuel: "sync_loop fuel L S J P c n w = Some r \<Longrightarrow> sync_loop (Suc fuel) L S J P c n w = Some r"
proof (induction fuel arbitrary: n w)
  case (Suc fuel)
  obtain w1 res where g: "pf_get P w c (sync_query (get_blockchain_height n + 1)) = (w1, res)"
    by fastforce
  have "sync_loop (Suc fuel) L S J P c n1 w1 = Some r" if "sync_loop fuel L S J P c n1 w1 = Some r" for n1
    by (rule Suc.IH [OF that])
  with Suc.prems show ?case
    by (auto simp: sync_loop.simps(2) [of "Suc fuel"] sync_loop.simps(2) [of fuel L S J P c n w] g
        simp del: sync_loop.simps split: option.splits if_splits prod.splits verdict.splits bool.splits)
qed simp

lemma catch_up_fuel: "catch_up fuel L S J P s c h = Some r \<Longrightarrow> catch_up (Suc fuel) L S J P s c h = Some r"
  by (auto simp: catch_up_def sync_from_peer_def Let_def simp del: sync_loop.simps dest: sync_loop_fuel
      split: option.splits if_splits prod.splits verdict.splits)

text \<open>\<open>h'\<close> returns whatever \<open>h\<close> returns.\<close>

definition extends :: "('s, 'w) contact \<Rightarrow> ('s, 'w) contact \<Rightarrow> bool" where
  "extends h' h \<longleftrightarrow> (\<forall>s u r. h s u = Some r \<longrightarrow> h' s u = Some r)"

lemma extendsD: "extends h' h \<Longrightarrow> h s u = Some r \<Longrightarrow> h' s u = Some r"
  unfolding extends_def by blast

lemma add_peer_extends:
  assumes "extends h' h" and "add_peer_with h s u = Some r"
  shows "add_peer_with h' s u = Some r"
  using assms(2) extendsD [OF assms(1)] unfolding add_peer_with_def Let_def by (metis (lifting))

lemma exchange_extends:
  assumes "extends h' h"
  shows "exchange_peers h J c s items = Some r \<Longrightarrow> exchange_peers h' J c s items = Some r"
proof (induction items arbitrary: s)
  case (Cons item items)
  then show ?case
    using add_peer_extends [OF assms]
    by (fastforce split: option.splits if_splits prod.splits verdict.splits)
qed simp

lemma handshake_step_extends:
  assumes "extends h' h" and "handshake_step h fuel L S J P s u = Some r"
  shows "handshake_step h' (Suc fuel) L S J P s u = Some r"
proof -
  obtain w res where p: "pf_post P (sys_world s) (normalize_url u) ''/api/v1/p2p/handshake'' (handshake_request J s) = (w, res)"
    by fastforce
  let ?s = "s\<lparr>sys_world := w\<rparr>" and ?c = "normalize_url u"
  note step = assms(2) [unfolded handshake_step_def Let_def p prod.case]
  show ?thesis
  proof (cases "?c \<noteq> [] \<and> ?c \<noteq> local_listen_url (sys_p2p s) \<and> (\<exists>body data s1 h. res = Some (200, body)
      \<and> js_parse J body = Some data \<and> record_peer J P (sys_world s) ?s ?c data = (s1, Inr h))")
    case False
    with step show ?thesis
      unfolding handshake_step_def Let_def p prod.case
      by (auto split: option.splits if_splits prod.splits sum.splits)
  next
    case True
    then obtain body data s1 h where c: "?c \<noteq> []" "?c \<noteq> local_listen_url (sys_p2p s)"
      and r: "res = Some (200, body)" "js_parse J body = Some data"
      and rp: "record_peer J P (sys_world s) ?s ?c data = (s1, Inr h)"
      by blast
    show ?thesis
      using step c unfolding handshake_step_def Let_def p prod.case
      by (auto simp: r rp exchange_extends [OF assms(1)] catch_up_fuel
          split: option.splits prod.splits verdict.splits bool.splits dest: exchange_extends [OF assms(1)])
  qed
qed

lemma handshake_extends:
  "extends (handshake_with_peer (Suc fuel) L S J P) (handshake_with_peer fuel L S J P)"
proof (induction fuel)
  case (Suc fuel)
  show ?case
    unfolding extends_def
  proof (intro allI impI)
    fix s u r
    assume a: "handshake_with_peer (Suc fuel) L S J P s u = Some r"
    have "handshake_step (handshake_with_peer (Suc fuel) L S J P) (Suc fuel) L S J P s u = Some r"
      by (rule handshake_step_extends [OF Suc]) (use a in \<open>simp only: handshake_with_peer.simps(2)\<close>)
    then show "handshake_with_peer (Suc (Suc fuel)) L S J P s u = Some r"
      by (subst handshake_with_peer.simps(2))
  qed
qed (simp add: extends_def)

lemma handshake_fuel:
  "fuel \<le> fuel' \<Longrightarrow> handshake_with_peer fuel L S J P s u = Some r \<Longrightarrow> handshake_with_peer fuel' L S J P s u = Some r"
  by (induction fuel' rule: dec_induct) (auto dest: extendsD [OF handshake_extends] simp del: handshake_with_peer.simps)


section \<open>Termination\<close>

text \<open>Each full batch uses up some of what the world can still send.\<close>

definition full_batches_rank :: "('w \<Rightarrow> nat) \<Rightarrow> ('j, 't) json_lib \<Rightarrow> ('w, 't) platform \<Rightarrow> bool" where
  "full_batches_rank rank J P \<longleftrightarrow>
     (\<forall>w c q w' res items. pf_get P w c q = (w', res) \<longrightarrow> batch_of J res = Some items \<longrightarrow> length items \<ge> 50
        \<longrightarrow> rank w' < rank w)"

lemma sync_loop_returns:
  assumes "full_batches_rank rank J P"
  shows "rank w < fuel \<Longrightarrow> \<exists>r. sync_loop fuel L S J P c n w = Some r"
proof (induction fuel arbitrary: n w)
  case (Suc fuel)
  obtain w1 res where g: "pf_get P w c (sync_query (get_blockchain_height n + 1)) = (w1, res)"
    by fastforce
  have "rank w1 < fuel" if "batch_of J res = Some items" and "\<not> length items < 50" for items
    using assms g that Suc.prems unfolding full_batches_rank_def by (meson not_less less_trans_Suc Suc_less_SucD less_trans less_Suc_eq)
  with Suc.IH show ?case
    by (auto simp: g split: option.split prod.split verdict.split bool.split)
qed simp

lemma catch_up_returns:
  assumes "full_batches_rank rank J P" and "rank (sys_world s) < fuel"
  shows "\<exists>r. catch_up fuel L S J P s c h = Some r"
proof -
  obtain r where "sync_loop fuel L S J P (normalize_url c) (sys_node s) (sys_world s) = Some r"
    using sync_loop_returns [OF assms] by blast
  then show ?thesis
    by (auto simp: catch_up_def sync_from_peer_def Let_def split: prod.split verdict.split)
qed

text \<open>What a peer advertises in the reply to a handshake, and what is left to be learned.\<close>

definition advertised_within ::
  "string set \<Rightarrow> ('j, 't) json_lib \<Rightarrow> ('w, 't) platform \<Rightarrow> bool" where
  "advertised_within U J P \<longleftrightarrow>
     (\<forall>w c p b w' status body data item candidate. pf_post P w c p b = (w', Some (status, body))
        \<longrightarrow> js_parse J body = Some data \<longrightarrow> item \<in> set (known_peers J data)
        \<longrightarrow> js_get_string J item = Some candidate \<longrightarrow> normalize_url candidate \<in> U)"

definition contacts_left :: "string set \<Rightarrow> ('w \<Rightarrow> nat) \<Rightarrow> ('s, 'w) system \<Rightarrow> nat" where
  "contacts_left U rank s = card (U - known_urls s) + rank (sys_world s)"

lemma contacts_left_mono:
  assumes "finite U" and "evolves rank s s'"
  shows "contacts_left U rank s' \<le> contacts_left U rank s"
proof -
  have "card (U - known_urls s') \<le> card (U - known_urls s)"
    using assms by (intro card_mono) (auto simp: evolves_def)
  with assms(2) show ?thesis
    by (simp add: contacts_left_def evolves_def)
qed

lemma contacts_left_register:
  assumes "finite U" and "url \<in> U" and "find_peer (sys_p2p s) url = None"
  shows "contacts_left U rank (s\<lparr>sys_p2p := set_peer url p (sys_p2p s)\<rparr>) < contacts_left U rank s"
proof -
  have "known_urls (s\<lparr>sys_p2p := set_peer url p (sys_p2p s)\<rparr>) = insert url (known_urls s)"
    by (auto simp: known_urls_def)
  moreover have "url \<in> U - known_urls s"
    using assms by (auto simp: known_urls_def)
  ultimately have "card (U - known_urls (s\<lparr>sys_p2p := set_peer url p (sys_p2p s)\<rparr>)) < card (U - known_urls s)"
    using assms(1) by (intro psubset_card_mono) auto
  then show ?thesis
    by (simp add: contacts_left_def)
qed

lemma exchange_returns:
  assumes "finite U" and "peer_contact handshake (evolves rank)"
    and contact: "\<And>s u. contacts_left U rank s < left \<Longrightarrow> \<exists>r. handshake s u = Some r"
  shows "contacts_left U rank s \<le> left
    \<Longrightarrow> (\<And>item candidate. item \<in> set items \<Longrightarrow> js_get_string J item = Some candidate \<Longrightarrow> normalize_url candidate \<in> U)
    \<Longrightarrow> \<exists>r. exchange_peers handshake J c s items = Some r"
proof (induction items arbitrary: s)
  case (Cons item items)
  have rest: "\<exists>r. exchange_peers handshake J c s1 items = Some r" if "contacts_left U rank s1 \<le> left" for s1
    by (rule Cons.IH [OF that]) (use Cons.prems(2) in auto)
  show ?case
  proof (cases "js_get_string J item")
    case (Some candidate)
    let ?url = "normalize_url candidate"
    have "?url \<in> U"
      using Cons.prems(2) [of item candidate] Some by simp
    then have "\<exists>r. add_peer_with handshake s candidate = Some r"
      using contacts_left_register [OF assms(1), of ?url s] Cons.prems(1) contact
      by (fastforce simp: add_peer_with_def Let_def intro: less_le_trans)
    then obtain s1 v where a: "add_peer_with handshake s candidate = Some (s1, v)"
      by fastforce
    then have "contacts_left U rank s1 \<le> left"
      using peer_contact.add_peer_rel [OF assms(2) a] contacts_left_mono [OF assms(1)] Cons.prems(1) le_trans by blast
    then show ?thesis
      using rest [of s1] rest [of s] Cons.prems(1) by (cases v) (simp_all add: Some a)
  qed simp
qed simp

lemma handshake_step_returns:
  assumes "finite U" and "advertised_within U J P" and "quiet rank P" and "full_batches_rank rank J P"
    and "peer_contact handshake (evolves rank)"
    and "\<And>s u. contacts_left U rank s < left \<Longrightarrow> \<exists>r. handshake s u = Some r"
    and "contacts_left U rank s \<le> left" and "left < fuel"
  shows "\<exists>r. handshake_step handshake fuel L S J P s u = Some r"
proof -
  obtain w res where p: "pf_post P (sys_world s) (normalize_url u) ''/api/v1/p2p/handshake'' (handshake_request J s) = (w, res)"
    by fastforce
  let ?s = "s\<lparr>sys_world := w\<rparr>"
  have w: "evolves rank s ?s"
    using assms(3) p unfolding quiet_def by (metis evolves_world(2) fst_conv)
  have "\<exists>r. (case exchange_peers handshake J (normalize_url u) s1 (known_peers J data) of
        None \<Rightarrow> None
      | Some (s, Process_ended) \<Rightarrow> Some (s, Process_ended)
      | Some (s, Returned False) \<Rightarrow> Some (mark_disconnected (normalize_url u) s, Returned False)
      | Some (s, Returned True) \<Rightarrow> catch_up fuel L S J P s (normalize_url u) h) = Some r"
    if "normalize_url u \<noteq> []" "normalize_url u \<noteq> local_listen_url (sys_p2p s)"
      and res: "res = Some (st, body)" "js_parse J body = Some data"
      and rp: "record_peer J P (sys_world s) ?s (normalize_url u) data = (s1, Inr h)" for st body data s1 h
  proof -
    have e1: "evolves rank s s1"
      using evolves_trans [OF w record_peer_evolves [OF rp]] that(1,2) normalize_url_ok by simp
    have adv: "normalize_url candidate \<in> U"
      if "item \<in> set (known_peers J data)" and "js_get_string J item = Some candidate" for item candidate
      using assms(2) p res that unfolding advertised_within_def by blast
    have "contacts_left U rank s1 \<le> left"
      using contacts_left_mono [OF assms(1) e1] assms(7) by simp
    then obtain s2 v where x: "exchange_peers handshake J (normalize_url u) s1 (known_peers J data) = Some (s2, v)"
      using exchange_returns [where J = J, OF assms(1,5,6) _ adv] by fastforce
    have "contacts_left U rank s2 \<le> left"
      using contacts_left_mono [OF assms(1) peer_contact.exchange_rel [OF assms(5) x]] \<open>contacts_left U rank s1 \<le> left\<close> by simp
    then have "rank (sys_world s2) < fuel"
      using assms(8) by (simp add: contacts_left_def)
    from catch_up_returns [OF assms(4) this] x show ?thesis
      by (auto split: verdict.split bool.split)
  qed
  then show ?thesis
    by (auto simp: handshake_step_def Let_def p split: option.split prod.split sum.split)
qed

lemma handshake_returns:
  assumes "finite U" and "advertised_within U J P" and "quiet rank P" and "full_batches_rank rank J P"
  shows "contacts_left U rank s + 1 < fuel \<Longrightarrow> \<exists>r. handshake_with_peer fuel L S J P s u = Some r"
proof (induction fuel arbitrary: s u)
  case (Suc fuel)
  have c: "peer_contact (handshake_with_peer fuel L S J P) (evolves rank)"
    by unfold_locales (auto intro: evolves_trans evolves_register handshake_evolves [OF assms(3)])
  have IH: "\<exists>r. handshake_with_peer fuel L S J P s' u' = Some r"
    if "contacts_left U rank s' < contacts_left U rank s" for s' u'
    using that Suc by simp
  have "\<exists>r. handshake_step (handshake_with_peer fuel L S J P) fuel L S J P s u = Some r"
    by (rule handshake_step_returns [OF assms c IH order_refl]) (use Suc.prems in simp_all)
  then show ?case
    by simp
qed simp

section \<open>A peer that repeats the top block\<close>

text \<open>
  A block equal to the local top is accepted without a change, so a peer that always
  answers with 50 copies of it is asked again and again.
\<close>

lemma apply_known_top:
  assumes "get_block_by_height L S (node_db n) (db_top_height (node_db n)) = Some t"
    and "hdr_height (header t) = db_top_height (node_db n)" and "db_top_height (node_db n) > 0"
  shows "apply_remote_block L S n t = (n, Accepted)"
  using assms by (simp add: apply_remote_block_def Let_def)

lemma apply_items_known:
  assumes "apply_remote_block L S n t = (n, Accepted)"
    and "\<And>item. item \<in> set items \<Longrightarrow> block_of_item J S item = Inr t"
  shows "apply_items L S J n items = (n, Returned True)"
  using assms(2) by (induction items) (simp_all add: assms(1))

lemma sync_loop_stuck:
  assumes "apply_remote_block L S n t = (n, Accepted)"
    and "\<And>w q. batch_of J (snd (pf_get P w c q)) = Some items" and "length items \<ge> 50"
    and "\<And>item. item \<in> set items \<Longrightarrow> block_of_item J S item = Inr t"
  shows "sync_loop fuel L S J P c n w = None"
proof (induction fuel arbitrary: w)
  case (Suc fuel)
  obtain w1 res where g: "pf_get P w c (sync_query (get_blockchain_height n + 1)) = (w1, res)"
    by fastforce
  with assms(2) have "batch_of J res = Some items"
    by (metis snd_conv)
  moreover have "items \<noteq> []"
    using assms(3) by auto
  ultimately show ?case
    using Suc assms(3) by (simp add: g apply_items_known [OF assms(1,4)])
qed simp

end
