(* ===== verification/Rpc.thy ===== *)
theory Rpc
  imports P2P
begin

text \<open>
  Model of the request handlers that \<^verbatim>\<open>RpcServer::setup_routes\<close> in \<^verbatim>\<open>src/rpc_server.cpp\<close>
  installs: each takes the state and a request and returns the state and the reply. A reply
  is a status and a JSON document; an exception inside a handler becomes a reply of status
  400 whose text is a parameter. Serving files, CORS headers and the life cycle of the
  server are left out.
\<close>

section \<open>Configuration\<close>

text \<open>The environment variables the handlers read, the texts of exceptions, and the presence of a P2P manager.\<close>

record rpc_config =
  env_admin_token :: "string option"
  env_disable_push :: "string option"
  error_text :: "error \<Rightarrow> string"
  p2p_attached :: bool

text \<open>A step of a handler: \<open>Inl\<close> is the reply of an early return.\<close>

definition guarded :: "('j, 't) json_lib \<Rightarrow> rpc_config \<Rightarrow> error + 'a \<Rightarrow> 't reply + 'a" where
  "guarded J C m = (case m of Inl e \<Rightarrow> Inl (failed_with J (error_text C) e) | Inr x \<Rightarrow> Inr x)"

definition refuse :: "('j, 't) json_lib \<Rightarrow> nat \<Rightarrow> string \<Rightarrow> 't reply" where
  "refuse J status text = answer J status [(''error'', js_string J text)]"

definition parse_body :: "('j, 't) json_lib \<Rightarrow> 't request \<Rightarrow> error + 'j" where
  "parse_body J req = json_some (js_parse J (req_body req))"

section \<open>Node status\<close>

definition handle_health :: "('j, 't) json_lib \<Rightarrow> 't reply" where
  "handle_health J = answer J 200
     [(''status'', js_string J ''ok''), (''version'', js_string J ''1.0.0''),
      (''protocol'', js_string J ''CryptoPegUSDT'')]"

definition handle_status :: "('j, 't) json_lib \<Rightarrow> string \<Rightarrow> 's node \<Rightarrow> 't reply" where
  "handle_status J db_path n =
     (let v = node_vault n in answer J 200
       [(''blockchain_height'', js_u64 J (get_blockchain_height n)),
        (''database_path'', js_string J db_path),
        (''vault'', js_object J
          [(''total_collateral_usdt'', js_string J (format_usdt (total_collateral v))),
           (''total_collateral_units'', js_u64 J (total_collateral v)),
           (''circulating_shielded_supply'', js_string J (format_usdt (circulating_supply v))),
           (''circulating_shielded_units'', js_u64 J (circulating_supply v)),
           (''fee_pool_reserve_usdt'', js_string J (format_usdt (fee_pool_reserve v))),
           (''fee_pool_reserve_units'', js_u64 J (fee_pool_reserve v)),
           (''deposit_fee_bps'', js_u64 J (ucast (deposit_fee_bps v))),
           (''withdraw_fee_bps'', js_u64 J (ucast (withdraw_fee_bps v))),
           (''is_solvent_1_to_1'', js_bool J (audit_system n))]),
        (''utxo_pool_count'', js_u64 J (of_nat (length (node_pool n))))])"

section \<open>Block explorer\<close>

text \<open>\<^verbatim>\<open>try { v = std::stoull(param); } catch (...) {}\<close>.\<close>

definition param_or :: "'t request \<Rightarrow> string \<Rightarrow> u64 \<Rightarrow> u64" where
  "param_or req name d =
     (case req_params req name of None \<Rightarrow> d
      | Some text \<Rightarrow> (case stoull text of Inl _ \<Rightarrow> d | Inr v \<Rightarrow> v))"

text \<open>The heights of the loop: \<open>h - offset\<close> counts its iterations.\<close>

fun explored_heights :: "nat \<Rightarrow> u64 \<Rightarrow> u64 \<Rightarrow> u64 list" where
  "explored_heights 0 h my_height = []"
| "explored_heights (Suc count) h my_height =
     (if h \<le> my_height then h # explored_heights count (h + 1) my_height else [])"

definition block_summary :: "('j, 't) json_lib \<Rightarrow> sodium \<Rightarrow> block \<Rightarrow> 'j" where
  "block_summary J S b = js_object J
     [(''height'', js_u64 J (hdr_height (header b))),
      (''hash'', js_string J (to_hex (block_hash S b))),
      (''prev_hash'', js_string J (to_hex (prev_block_hash (header b)))),
      (''merkle_root'', js_string J (to_hex (merkle_root (header b)))),
      (''timestamp'', js_u64 J (hdr_timestamp (header b))),
      (''tx_count'', js_u64 J (of_nat (length (txs b)))),
      (''deposit_count'', js_u64 J (of_nat (length (deposits b)))),
      (''withdrawal_count'', js_u64 J (of_nat (length (withdrawals b))))]"

definition handle_blocks ::
  "'s lmdb \<Rightarrow> sodium \<Rightarrow> ('j, 't) json_lib \<Rightarrow> 's node \<Rightarrow> 't request \<Rightarrow> 't reply" where
  "handle_blocks L S J n req =
     (let limit = min (param_or req ''limit'' 10) 100;
          offset = param_or req ''offset'' 0;
          my_height = get_blockchain_height n;
          found = List.map_filter (get_block L S n) (explored_heights (unat limit) offset my_height)
      in answer J 200
           [(''total_height'', js_u64 J my_height),
            (''blocks'', js_array J (map (block_summary J S) found))])"

definition tx_entry :: "('j, 't) json_lib \<Rightarrow> shielded_transaction \<Rightarrow> 'j" where
  "tx_entry J tx = js_object J
     [(''tx_hash'', js_string J (to_hex (tx_hash tx))),
      (''key_image'', js_string J (to_hex (sig_key_image (ring_sig tx)))),
      (''ring_size'', js_u64 J (of_nat (length (sig_ring_pubkeys (ring_sig tx))))),
      (''outputs_count'', js_u64 J (of_nat (length (tx_outputs tx)))),
      (''fee'', js_u64 J (public_fee tx))]"

definition deposit_entry :: "('j, 't) json_lib \<Rightarrow> deposit_receipt \<Rightarrow> 'j" where
  "deposit_entry J dep = js_object J
     [(''gross_deposited'', js_string J (format_usdt (dep_gross_usdt_deposited dep))),
      (''fee_to_pool'', js_string J (format_usdt (dep_fee_to_pool dep))),
      (''net_minted'', js_string J (format_usdt (dep_net_shielded_tokens_minted dep))),
      (''tx_hash'', js_string J (dep_tx_hash dep))]"

definition withdrawal_entry :: "('j, 't) json_lib \<Rightarrow> withdrawal_receipt \<Rightarrow> 'j" where
  "withdrawal_entry J w = js_object J
     [(''gross_burned'', js_string J (format_usdt (wdr_gross_tokens_burned w))),
      (''fee_to_pool'', js_string J (format_usdt (wdr_fee_to_pool w))),
      (''fee_raw'', js_u64 J (wdr_fee_to_pool w)),
      (''net_tumbled'', js_string J (format_usdt (wdr_net_usdt_to_tumble w))),
      (''net_amount_raw'', js_u64 J (wdr_net_usdt_to_tumble w)),
      (''order_id'', js_string J (wdr_order_id w)),
      (''destination'', js_string J (wdr_destination_address w))]"

definition handle_block_detail ::
  "'s lmdb \<Rightarrow> sodium \<Rightarrow> ('j, 't) json_lib \<Rightarrow> 's node \<Rightarrow> 't request \<Rightarrow> 't reply" where
  "handle_block_detail L S J n req =
     (case stoull (req_match req) of
        Inl _ \<Rightarrow> refuse J 400 ''Altura de bloque invalida''
      | Inr height \<Rightarrow>
     (case get_block L S n height of
        None \<Rightarrow> refuse J 404 ''Bloque no encontrado''
      | Some b \<Rightarrow> answer J 200
          [(''height'', js_u64 J (hdr_height (header b))),
           (''hash'', js_string J (to_hex (block_hash S b))),
           (''prev_hash'', js_string J (to_hex (prev_block_hash (header b)))),
           (''merkle_root'', js_string J (to_hex (merkle_root (header b)))),
           (''timestamp'', js_u64 J (hdr_timestamp (header b))),
           (''transactions'', js_array J (map (tx_entry J) (txs b))),
           (''deposits'', js_array J (map (deposit_entry J) (deposits b))),
           (''withdrawals'', js_array J (map (withdrawal_entry J) (withdrawals b)))]))"

section \<open>Wallets on the server\<close>

definition handle_generate :: "sodium \<Rightarrow> ('j, 't) json_lib \<Rightarrow> bytes \<Rightarrow> bytes \<Rightarrow> 't reply" where
  "handle_generate S J spend_scalar view_scalar =
     (let w = generate_random_wallet S spend_scalar view_scalar in answer J 200
       [(''stealth_address'', js_string J (encode_address (get_public_address w))),
        (''spend_public_key'', js_string J (to_hex (spend_public_key w))),
        (''view_public_key'', js_string J (to_hex (view_public_key w))),
        (''spend_private_key'', js_string J (to_hex (spend_private_key w))),
        (''view_private_key'', js_string J (to_hex (view_private_key w)))])"

text \<open>The wallet of a scan: the spending key only if the request has one of 32 bytes.\<close>

definition scan_spend_key :: "('j, 't) json_lib \<Rightarrow> 'j \<Rightarrow> error + bytes option" where
  "scan_spend_key J body =
     (if \<not> json_contains J body ''spend_private_key'' then Inr None
      else ebind (json_field J (js_get_string J) body ''spend_private_key'') (\<lambda>text.
        if text = [] then Inr None
        else ebind (from_hex text) (\<lambda>bs. Inr (if length bs = 32 then Some bs else None))))"

definition scan_wallet :: "('j, 't) json_lib \<Rightarrow> 'j \<Rightarrow> error + (stealth_wallet \<times> bool)" where
  "scan_wallet J body =
     ebind (json_field J (js_get_string J) body ''view_private_key'') (\<lambda>view_priv_hex.
     ebind (json_field J (js_get_string J) body ''spend_public_key'') (\<lambda>spend_pub_hex.
     ebind (from_hex view_priv_hex) (\<lambda>v_bytes.
     ebind (from_hex spend_pub_hex) (\<lambda>s_bytes.
     if length v_bytes \<noteq> 32 \<or> length s_bytes \<noteq> 32 then Inl (Service_error Scan_bad_key_length)
     else ebind (scan_spend_key J body) (\<lambda>spend_priv.
       Inr (\<lparr>spend_private_key = (case spend_priv of None \<Rightarrow> zero_key | Some k \<Rightarrow> k),
             spend_public_key = s_bytes, view_private_key = v_bytes, view_public_key = zero_key\<rparr>,
            spend_priv \<noteq> None))))))"

definition scan_spent ::
  "'s lmdb \<Rightarrow> sodium \<Rightarrow> 's node \<Rightarrow> stealth_wallet \<Rightarrow> bool \<Rightarrow> one_time_output \<Rightarrow> error + bool" where
  "scan_spent L S n w has_spend_priv u =
     (if \<not> has_spend_priv then Inr False
      else ebind (derive_one_time_private_key S w u) (\<lambda>one_time_priv.
           ebind (compute_key_image S one_time_priv (destination_one_time u)) (\<lambda>img.
           Inr (image_spent L S n img))))"

text \<open>The pool divided into the outputs of the wallet that are unspent and spent.\<close>

fun scan_pool ::
  "'s lmdb \<Rightarrow> sodium \<Rightarrow> 's node \<Rightarrow> stealth_wallet \<Rightarrow> bool \<Rightarrow> one_time_output list
     \<Rightarrow> error + (one_time_output list \<times> one_time_output list)" where
  "scan_pool L S n w has_spend_priv [] = Inr ([], [])"
| "scan_pool L S n w has_spend_priv (u # us) =
     (if \<not> scan_output S w u then scan_pool L S n w has_spend_priv us
      else ebind (scan_spent L S n w has_spend_priv u) (\<lambda>gone.
           ebind (scan_pool L S n w has_spend_priv us) (\<lambda>(unspent, spent).
           Inr (if gone then (unspent, u # spent) else (u # unspent, spent)))))"

definition scan_item :: "('j, 't) json_lib \<Rightarrow> bool \<Rightarrow> one_time_output \<Rightarrow> 'j" where
  "scan_item J gone u = js_object J
     [(''destination_one_time'', js_string J (to_hex (destination_one_time u))),
      (''ephemeral_public_key'', js_string J (to_hex (ephemeral_public_key u))),
      (''amount_usdt'', js_string J (format_usdt (out_amount u))),
      (''amount_units'', js_u64 J (out_amount u)),
      (''is_spent'', js_bool J gone)]"

definition scan_result ::
  "('j, 't) json_lib \<Rightarrow> bool \<Rightarrow> one_time_output list \<Rightarrow> one_time_output list \<Rightarrow> 't reply" where
  "scan_result J has_spend_priv unspent spent =
     (let total_balance = foldl (\<lambda>s u. s + out_amount u) 0 unspent in answer J 200
       [(''total_balance_usdt'', js_string J (format_usdt total_balance)),
        (''total_balance_units'', js_u64 J total_balance),
        (''outputs_count'', js_u64 J (of_nat (length unspent))),
        (''outputs'', js_array J (map (scan_item J False) unspent)),
        (''spent_outputs_count'', js_u64 J (of_nat (length spent))),
        (''spent_outputs'', js_array J (map (scan_item J True) spent)),
        (''is_watch_only'', js_bool J (\<not> has_spend_priv))])"

definition handle_scan ::
  "'s lmdb \<Rightarrow> sodium \<Rightarrow> ('j, 't) json_lib \<Rightarrow> rpc_config \<Rightarrow> 's node \<Rightarrow> 't request \<Rightarrow> 't reply" where
  "handle_scan L S J C n req =
     (case ebind (parse_body J req) (\<lambda>body.
           ebind (scan_wallet J body) (\<lambda>(w, has_spend_priv).
           ebind (scan_pool L S n w has_spend_priv (node_pool n)) (\<lambda>(unspent, spent).
           Inr (scan_result J has_spend_priv unspent spent)))) of
        Inl e \<Rightarrow> failed_with J (error_text C) e
      | Inr r \<Rightarrow> r)"

section \<open>Deposit\<close>

definition to_lower :: "char \<Rightarrow> char" where
  "to_lower c = (let k = (of_char c :: nat) in if 65 \<le> k \<and> k \<le> 90 then char_of (k + 32) else c)"

definition canonical_event_id :: "u64 \<Rightarrow> string \<Rightarrow> string \<Rightarrow> u32 \<Rightarrow> string" where
  "canonical_event_id chain_id contract_addr custom_tx log_index =
     dec_string (unat chain_id) @ '':'' @ map to_lower contract_addr @ '':'' @ custom_tx @ '':''
       @ dec_string (unat log_index)"

record deposit_claim =
  claim_tx :: string
  claim_timestamp :: u64
  claim_gross :: amount
  claim_recipient :: stealth_address
  claim_chain_id :: u64
  claim_contract :: string
  claim_log_index :: u32
  claim_l2_block :: u64

definition claim_event_id :: "deposit_claim \<Rightarrow> string" where
  "claim_event_id c = canonical_event_id (claim_chain_id c) (claim_contract c) (claim_tx c) (claim_log_index c)"

definition parse_gross :: "('j, 't) json_lib \<Rightarrow> 'j \<Rightarrow> error + amount" where
  "parse_gross J body =
     (if json_contains J body ''gross_usdt_raw''
      then ebind (json_at J body ''gross_usdt_raw'') (\<lambda>x.
           if js_is_string J x then ebind (json_some (js_get_string J x)) stoull
           else json_some (js_get_u64 J x))
      else if json_contains J body ''gross_usdt''
      then ebind (json_field J (js_get_double J) body ''gross_usdt'') parse_usdt
      else Inl (Service_error Deposit_amount_missing))"

definition parse_recipient :: "('j, 't) json_lib \<Rightarrow> 'j \<Rightarrow> error + stealth_address" where
  "parse_recipient J body =
     (if json_contains J body ''recipient_stealth_address''
      then ebind (json_field J (js_get_string J) body ''recipient_stealth_address'') decode_address
      else if json_contains J body ''stealth_pub_view'' \<and> json_contains J body ''stealth_pub_spend''
      then ebind (json_field J (js_get_string J) body ''stealth_pub_view'') (\<lambda>v_hex. ebind (from_hex v_hex) (\<lambda>v_bytes.
           ebind (json_field J (js_get_string J) body ''stealth_pub_spend'') (\<lambda>s_hex. ebind (from_hex s_hex) (\<lambda>s_bytes.
           if length v_bytes \<noteq> 32 \<or> length s_bytes \<noteq> 32 then Inl (Service_error Deposit_bad_key_length)
           else Inr \<lparr>addr_spend_public_key = s_bytes, addr_view_public_key = v_bytes\<rparr>))))
      else Inl (Service_error Deposit_recipient_missing))"

text \<open>Sections 1 to 4 of the handler, up to the contract address.\<close>

definition parse_deposit ::
  "('j, 't) json_lib \<Rightarrow> rpc_config \<Rightarrow> 'j \<Rightarrow> 't reply + deposit_claim" where
  "parse_deposit J C body =
     ebind (guarded J C (json_value J (js_get_string J) body ''tx_hash'' [])) (\<lambda>custom_tx.
     ebind (guarded J C (json_value J (js_get_u64 J) body ''timestamp'' 0)) (\<lambda>custom_ts.
     if starts_with ''0xCLI_'' custom_tx then Inl (refuse J 400 ''Acunacion simulada 0xCLI_ rechazada'')
     else if custom_tx = [] then Inl (refuse J 400 ''El campo tx_hash es obligatorio'')
     else ebind (guarded J C (parse_gross J body)) (\<lambda>gross.
     ebind (guarded J C (parse_recipient J body)) (\<lambda>recipient.
     ebind (guarded J C (json_value J (js_get_u64 J) body ''chain_id'' 421614)) (\<lambda>chain_id.
     ebind (guarded J C (json_value J (js_get_string J) body ''contract_address'' [])) (\<lambda>contract_addr.
     ebind (guarded J C (json_value J (js_get_u32 J) body ''log_index'' 0)) (\<lambda>log_index.
     ebind (guarded J C (json_value J (js_get_u64 J) body ''l2_block_number'' 0)) (\<lambda>l2_block.
     if contract_addr = [] then Inl (refuse J 400 ''El campo contract_address es obligatorio'')
     else Inr \<lparr>claim_tx = custom_tx, claim_timestamp = custom_ts, claim_gross = gross,
               claim_recipient = recipient, claim_chain_id = chain_id, claim_contract = contract_addr,
               claim_log_index = log_index, claim_l2_block = l2_block\<rparr>))))))))"

definition claim_hash :: "sodium \<Rightarrow> deposit_claim \<Rightarrow> bytes" where
  "claim_hash S c =
     compute_deposit_attestation_hash S (claim_chain_id c) (claim_contract c) (claim_tx c) (claim_log_index c)
       (claim_gross c) (addr_view_public_key (claim_recipient c)) (addr_spend_public_key (claim_recipient c))
       (claim_l2_block c)"

text \<open>A signature as the handler accepts it: sizes, authorization, verification.\<close>

definition attests :: "sodium \<Rightarrow> 's node \<Rightarrow> bytes \<Rightarrow> bytes \<Rightarrow> bytes \<Rightarrow> bool" where
  "attests S n att_hash pk sg \<longleftrightarrow> length pk = 32 \<and> length sg = 64 \<and> is_authorized_validator n pk
     \<and> verify_detached S sg att_hash pk"

fun gather_attestations ::
  "sodium \<Rightarrow> ('j, 't) json_lib \<Rightarrow> 's node \<Rightarrow> bytes \<Rightarrow> (bytes \<times> bytes) list \<Rightarrow> 'j list
     \<Rightarrow> error + (bytes \<times> bytes) list" where
  "gather_attestations S J n att_hash acc [] = Inr acc"
| "gather_attestations S J n att_hash acc (item # items) =
     (if json_contains J item ''pubkey'' \<and> json_contains J item ''signature''
      then ebind (ebind (json_at J item ''pubkey'') (json_hex J)) (\<lambda>pk.
           ebind (ebind (json_at J item ''signature'') (json_hex J)) (\<lambda>sg.
           gather_attestations S J n att_hash
             (if attests S n att_hash pk sg \<and> \<not> list_ex (\<lambda>s. fst s = pk) acc then acc @ [(pk, sg)] else acc)
             items))
      else gather_attestations S J n att_hash acc items)"

definition single_attestation ::
  "sodium \<Rightarrow> ('j, 't) json_lib \<Rightarrow> 's node \<Rightarrow> bytes \<Rightarrow> 'j \<Rightarrow> error + (bytes \<times> bytes) list" where
  "single_attestation S J n att_hash body =
     (if json_contains J body ''validator_pubkey'' \<and> json_contains J body ''validator_signature''
      then ebind (ebind (json_at J body ''validator_pubkey'') (json_hex J)) (\<lambda>pk.
           ebind (ebind (json_at J body ''validator_signature'') (json_hex J)) (\<lambda>sg.
           Inr (if attests S n att_hash pk sg then [(pk, sg)] else [])))
      else Inr [])"

definition attested_signatures ::
  "sodium \<Rightarrow> ('j, 't) json_lib \<Rightarrow> 's node \<Rightarrow> bytes \<Rightarrow> 'j \<Rightarrow> error + (bytes \<times> bytes) list" where
  "attested_signatures S J n att_hash body =
     (case (if json_contains J body ''validator_signatures'' then js_find J body ''validator_signatures'' else None) of
        Some arr \<Rightarrow>
          if js_is_array J arr then gather_attestations S J n att_hash [] (js_items J arr)
          else single_attestation S J n att_hash body
      | None \<Rightarrow> single_attestation S J n att_hash body)"

text \<open>Everything before the purchase: what is bought, for which event.\<close>

definition authorize_deposit ::
  "'s lmdb \<Rightarrow> sodium \<Rightarrow> ('j, 't) json_lib \<Rightarrow> rpc_config \<Rightarrow> 's node \<Rightarrow> 't request \<Rightarrow> 't reply + deposit_claim" where
  "authorize_deposit L S J C n req =
     ebind (guarded J C (parse_body J req)) (\<lambda>body.
     ebind (parse_deposit J C body) (\<lambda>c.
     ebind (guarded J C (json_value J (js_get_string J) body ''event_id'' [])) (\<lambda>supplied_event_id.
     if supplied_event_id \<noteq> [] \<and> supplied_event_id \<noteq> claim_event_id c
     then Inl (refuse J 400 ''event_id no coincide con la identidad canonica'')
     else if node_deposit_processed L n (claim_event_id c)
     then Inl (refuse J 409 ''Evento de deposito ya procesado previamente'')
     else ebind (guarded J C (attested_signatures S J n (claim_hash S c) body)) (\<lambda>attested.
     if length attested < required_quorum n
     then Inl (answer J 401
            [(''error'', js_string J ''No autorizado: certificado de deposito no alcanza el quorum''),
             (''required'', js_u64 J (of_nat (required_quorum n))),
             (''verified'', js_u64 J (of_nat (length attested)))])
     else Inr c))))"

definition handle_deposit ::
  "'s lmdb \<Rightarrow> sodium \<Rightarrow> ('j, 't) json_lib \<Rightarrow> rpc_config \<Rightarrow> bytes \<Rightarrow> u64 \<Rightarrow> 's node \<Rightarrow> 't request
     \<Rightarrow> 's node \<times> 't reply" where
  "handle_deposit L S J C random_hash now n req =
     (case authorize_deposit L S J C n req of
        Inl r \<Rightarrow> (n, r)
      | Inr c \<Rightarrow>
     (case buy_shielded L S random_hash now n (claim_gross c) (claim_recipient c) (claim_event_id c)
             (claim_timestamp c) [] of
        (n, Inl e) \<Rightarrow> (n, failed_with J (error_text C) e)
      | (n, Inr receipt) \<Rightarrow> (n, answer J 200
          [(''success'', js_bool J True),
           (''block_height'', js_u64 J (get_blockchain_height n)),
           (''gross_usdt'', js_string J (format_usdt (dep_gross_usdt_deposited receipt))),
           (''fee_to_pool'', js_string J (format_usdt (dep_fee_to_pool receipt))),
           (''net_shielded_minted'', js_string J (format_usdt (dep_net_shielded_tokens_minted receipt))),
           (''tx_hash'', js_string J (dep_tx_hash receipt))])))"

section \<open>Spending with keys on the server\<close>

text \<open>
  The search for the input of a transfer or a withdrawal. The 32 bytes of the requested key
  are compared without a check of their number.
\<close>

definition find_input :: "service_error \<Rightarrow> one_time_output list \<Rightarrow> bytes \<Rightarrow> error + one_time_output" where
  "find_input missing pool target_pub =
     (if pool \<noteq> [] \<and> length target_pub < 32 then Inl (Service_error Read_past_end)
      else case find (\<lambda>u. destination_one_time u = take 32 target_pub) pool of
        None \<Rightarrow> Inl (Service_error missing)
      | Some u \<Rightarrow> Inr u)"

definition wallet_of_private_keys :: "sodium \<Rightarrow> bytes \<Rightarrow> bytes \<Rightarrow> stealth_wallet" where
  "wallet_of_private_keys S sp vp =
     \<lparr>spend_private_key = sp, spend_public_key = base_point S sp,
      view_private_key = vp, view_public_key = base_point S vp\<rparr>"

definition parse_transfer ::
  "sodium \<Rightarrow> ('j, 't) json_lib \<Rightarrow> one_time_output list \<Rightarrow> 'j
     \<Rightarrow> error + (stealth_wallet \<times> one_time_output \<times> stealth_address \<times> amount \<times> amount)" where
  "parse_transfer S J pool body =
     ebind (json_field J (js_get_string J) body ''sender_spend_private_key'') (\<lambda>spend_priv_hex.
     ebind (json_field J (js_get_string J) body ''sender_view_private_key'') (\<lambda>view_priv_hex.
     ebind (json_field J (js_get_string J) body ''input_utxo_pubkey'') (\<lambda>input_pub_hex.
     ebind (json_field J (js_get_string J) body ''recipient_stealth_address'') (\<lambda>recipient_str.
     ebind (json_field J (js_get_double J) body ''amount_usdt'') (\<lambda>send_val.
     ebind (json_value J (js_get_double J) body ''tx_fee_usdt'' (Finite False 0 0)) (\<lambda>fee_val.
     ebind (parse_usdt send_val) (\<lambda>send_amount.
     ebind (parse_usdt fee_val) (\<lambda>tx_fee.
     ebind (decode_address recipient_str) (\<lambda>recipient.
     ebind (from_hex spend_priv_hex) (\<lambda>sp.
     ebind (from_hex view_priv_hex) (\<lambda>vp.
     if length sp \<noteq> 32 \<or> length vp \<noteq> 32 then Inl (Service_error Transfer_bad_key_length)
     else ebind (from_hex input_pub_hex) (\<lambda>target_pub.
     ebind (find_input Transfer_input_not_found pool target_pub) (\<lambda>selected.
     Inr (wallet_of_private_keys S sp vp, selected, recipient, send_amount, tx_fee))))))))))))))"

definition handle_transfer ::
  "'s lmdb \<Rightarrow> sodium \<Rightarrow> ('j, 't) json_lib \<Rightarrow> rpc_config \<Rightarrow> spend_draws \<Rightarrow> u64 \<Rightarrow> 's node \<Rightarrow> 't request
     \<Rightarrow> 's node \<times> 't reply" where
  "handle_transfer L S J C D now n req =
     (case ebind (parse_body J req) (parse_transfer S J (node_pool n)) of
        Inl e \<Rightarrow> (n, failed_with J (error_text C) e)
      | Inr (sender, selected, recipient, send_amount, tx_fee) \<Rightarrow>
     (case transfer_shielded L S D now n sender selected recipient send_amount tx_fee of
        (n, Inl e) \<Rightarrow> (n, failed_with J (error_text C) e)
      | (n, Inr tx) \<Rightarrow> (n, answer J 200
          [(''success'', js_bool J True),
           (''block_height'', js_u64 J (get_blockchain_height n)),
           (''tx_hash'', js_string J (to_hex (tx_hash tx))),
           (''key_image'', js_string J (to_hex (sig_key_image (ring_sig tx)))),
           (''ring_size'', js_u64 J (of_nat (length (sig_ring_pubkeys (ring_sig tx))))),
           (''sent_amount'', js_string J (format_usdt send_amount)),
           (''fee'', js_string J (format_usdt tx_fee))])))"

definition parse_withdrawal ::
  "sodium \<Rightarrow> ('j, 't) json_lib \<Rightarrow> rpc_config \<Rightarrow> one_time_output list \<Rightarrow> 'j
     \<Rightarrow> 't reply + (stealth_wallet \<times> one_time_output \<times> amount \<times> string)" where
  "parse_withdrawal S J C pool body =
     ebind (guarded J C (json_field J (js_get_string J) body ''burner_spend_private_key'')) (\<lambda>spend_priv_hex.
     ebind (guarded J C (json_field J (js_get_string J) body ''burner_view_private_key'')) (\<lambda>view_priv_hex.
     ebind (guarded J C (json_field J (js_get_string J) body ''input_utxo_pubkey'')) (\<lambda>input_pub_hex.
     ebind (guarded J C (json_field J (js_get_double J) body ''tokens_to_withdraw'')) (\<lambda>withdraw_val.
     ebind (guarded J C (json_field J (js_get_string J) body ''destination_public_usdt'')) (\<lambda>destination.
     if \<not> is_valid_evm_address destination then Inl (refuse J 400 ''Direccion de destino invalida'')
     else guarded J C (
       ebind (parse_usdt withdraw_val) (\<lambda>withdraw_amount.
       ebind (from_hex spend_priv_hex) (\<lambda>sp.
       ebind (from_hex view_priv_hex) (\<lambda>vp.
       if length sp \<noteq> 32 \<or> length vp \<noteq> 32 then Inl (Service_error Withdrawal_bad_key_length)
       else ebind (from_hex input_pub_hex) (\<lambda>target_pub.
       ebind (find_input Withdrawal_input_not_found pool target_pub) (\<lambda>selected.
       Inr (wallet_of_private_keys S sp vp, selected, withdraw_amount, destination))))))))))))"

definition route_entry :: "('j, 't) json_lib \<Rightarrow> tumbler_route \<Rightarrow> 'j" where
  "route_entry J r = js_object J
     [(''fragment_index'', js_u64 J (of_nat (fragment_index r))),
      (''net_amount_usdt'', js_string J (format_usdt (fragment_amount r))),
      (''hops_count'', js_u64 J (of_nat (length (route_hops r))))]"

definition handle_withdraw ::
  "'s lmdb \<Rightarrow> sodium \<Rightarrow> ('j, 't) json_lib \<Rightarrow> rpc_config \<Rightarrow> spend_draws \<Rightarrow> draws \<Rightarrow> u64 \<Rightarrow> 's node
     \<Rightarrow> 't request \<Rightarrow> 's node \<times> 't reply" where
  "handle_withdraw L S J C D T now n req =
     (case ebind (guarded J C (parse_body J req)) (parse_withdrawal S J C (node_pool n)) of
        Inl r \<Rightarrow> (n, r)
      | Inr (burner, selected, withdraw_amount, destination) \<Rightarrow>
     (case withdraw_shielded L S D T now n burner selected withdraw_amount destination of
        (n, Inl e) \<Rightarrow> (n, failed_with J (error_text C) e)
      | (n, Inr plan) \<Rightarrow> (n, answer J 200
          [(''success'', js_bool J True),
           (''block_height'', js_u64 J (get_blockchain_height n)),
           (''order_id'', js_string J (plan_order_id plan)),
           (''gross_tokens_burned'', js_string J (format_usdt (plan_total_gross_tokens plan))),
           (''fee_to_pool'', js_string J (format_usdt (plan_fee_deducted plan))),
           (''net_usdt_tumbled'', js_string J (format_usdt (plan_total_net_usdt plan))),
           (''destination'', js_string J (plan_destination plan)),
           (''total_micro_fragments'', js_u64 J (of_nat (plan_total_fragments plan))),
           (''routes'', js_array J (map (route_entry J) (plan_routes plan)))])))"

section \<open>Transactions signed by the client\<close>

definition key_array :: "bytes \<Rightarrow> bytes" where
  "key_array bs = (if length bs = 32 then bs else zero_key)"

definition parse_decoys :: "'t request \<Rightarrow> error + (nat \<times> bytes \<times> amount)" where
  "parse_decoys req =
     ebind (case req_params req ''count'' of None \<Rightarrow> Inr 4
            | Some text \<Rightarrow> ebind (stoull text) (\<lambda>c. Inr (min c 64))) (\<lambda>count.
     ebind (case req_params req ''exclude'' of None \<Rightarrow> Inr zero_key
            | Some text \<Rightarrow> ebind (from_hex text) (\<lambda>bs. Inr (key_array bs))) (\<lambda>exclude_pub.
     ebind (case req_params req ''amount'' of None \<Rightarrow> Inr 0 | Some text \<Rightarrow> stoull text) (\<lambda>target_amount.
     Inr (unat count, exclude_pub, target_amount))))"

definition handle_decoys ::
  "('j, 't) json_lib \<Rightarrow> rpc_config \<Rightarrow> (nat \<Rightarrow> nat) \<Rightarrow> 's node \<Rightarrow> 't request \<Rightarrow> 't reply" where
  "handle_decoys J C pick n req =
     (case parse_decoys req of
        Inl e \<Rightarrow> failed_with J (error_text C) e
      | Inr (count, exclude_pub, target_amount) \<Rightarrow>
          let decoys = get_random_decoys pick n count exclude_pub target_amount
          in answer J 200
               [(''count'', js_u64 J (of_nat (length decoys))),
                (''decoys'', js_array J (map (\<lambda>d. js_string J (to_hex d)) decoys))])"

definition parse_pushed_output :: "('j, 't) json_lib \<Rightarrow> 'j \<Rightarrow> error + one_time_output" where
  "parse_pushed_output J out_j =
     ebind (ebind (json_at J out_j ''ephemeral_pubkey'') (json_hex J)) (\<lambda>eph.
     ebind (ebind (json_at J out_j ''destination_one_time'') (json_hex J)) (\<lambda>dst.
     if length eph \<noteq> 32 \<or> length dst \<noteq> 32 then Inl (Service_error Push_bad_output_key_length)
     else ebind (json_field J (js_get_double J) out_j ''amount_usdt'') (\<lambda>val.
     ebind (parse_usdt val) (\<lambda>amt.
     Inr \<lparr>ephemeral_public_key = eph, destination_one_time = dst, out_amount = amt\<rparr>))))"

definition parse_pushed_key :: "('j, 't) json_lib \<Rightarrow> service_error \<Rightarrow> 'j \<Rightarrow> error + bytes" where
  "parse_pushed_key J e x = ebind (json_hex J x) (checked_key e)"

definition parse_pushed_signature :: "('j, 't) json_lib \<Rightarrow> 'j \<Rightarrow> error + ring_signature" where
  "parse_pushed_signature J sig_j =
     ebind (ebind (json_at J sig_j ''key_image'') (json_hex J)) (\<lambda>ki.
     ebind (ebind (json_at J sig_j ''c0'') (json_hex J)) (\<lambda>c0.
     if length ki \<noteq> 32 \<or> length c0 \<noteq> 32 then Inl (Service_error Push_bad_signature_length)
     else ebind (json_at J sig_j ''ring_pubkeys'') (\<lambda>ring_arr.
     ebind (each (parse_pushed_key J Push_bad_ring_key_length) (js_items J ring_arr)) (\<lambda>ring.
     ebind (json_at J sig_j ''responses'') (\<lambda>resp_arr.
     ebind (each (parse_pushed_key J Push_bad_response_length) (js_items J resp_arr)) (\<lambda>responses.
     Inr \<lparr>sig_key_image = ki, sig_c0 = c0, sig_responses = responses, sig_ring_pubkeys = ring\<rparr>))))))"

definition default_push_timestamp :: string where
  "default_push_timestamp = ''2026-09-13 00:00:00 UTC''"

definition parse_push :: "('j, 't) json_lib \<Rightarrow> 'j \<Rightarrow> error + shielded_transaction" where
  "parse_push J body =
     ebind (ebind (ebind (json_at J body ''tx_hash'') (json_hex J)) (checked_key Push_bad_hash_length)) (\<lambda>txh.
     ebind (json_value J (js_get_double J) body ''fee_usdt'' (Finite False 0 0)) (\<lambda>fee_val.
     ebind (parse_usdt fee_val) (\<lambda>fee.
     ebind (json_value J (js_get_string J) body ''timestamp'' default_push_timestamp) (\<lambda>timestamp.
     ebind (json_at J body ''outputs'') (\<lambda>outputs_arr.
     ebind (each (parse_pushed_output J) (js_items J outputs_arr)) (\<lambda>outs.
     ebind (json_at J body ''ring_sig'') (\<lambda>sig_j.
     ebind (parse_pushed_signature J sig_j) (\<lambda>sg.
     Inr \<lparr>tx_hash = txh, ring_sig = sg, tx_outputs = outs, public_fee = fee, tx_timestamp = timestamp\<rparr>))))))))"

definition handle_push ::
  "'s lmdb \<Rightarrow> sodium \<Rightarrow> ('j, 't) json_lib \<Rightarrow> rpc_config \<Rightarrow> u64 \<Rightarrow> 's node \<Rightarrow> 't request \<Rightarrow> 's node \<times> 't reply" where
  "handle_push L S J C now n req =
     (if env_disable_push C = Some ''true'' \<or> env_disable_push C = Some ''1''
      then (n, refuse J 403 ''Endpoint /api/v1/tx/push deshabilitado administrativamente.'')
      else case ebind (parse_body J req) (parse_push J) of
        Inl e \<Rightarrow> (n, failed_with J (error_text C) e)
      | Inr tx \<Rightarrow>
     (case submit_pre_signed_transaction L S now n tx of
        (n, Inl e) \<Rightarrow> (n, failed_with J (error_text C) e)
      | (n, Inr accepted_tx) \<Rightarrow> (n, answer J 200
          [(''success'', js_bool J True),
           (''block_height'', js_u64 J (get_blockchain_height n)),
           (''tx_hash'', js_string J (to_hex (tx_hash accepted_tx))),
           (''key_image'', js_string J (to_hex (sig_key_image (ring_sig accepted_tx)))),
           (''ring_size'', js_u64 J (of_nat (length (sig_ring_pubkeys (ring_sig accepted_tx))))),
           (''fee'', js_string J (format_usdt (public_fee accepted_tx)))])))"

section \<open>Treasury\<close>

definition presented_token :: "'t request \<Rightarrow> string" where
  "presented_token req =
     (if req_header req ''X-Admin-Token'' \<noteq> [] then req_header req ''X-Admin-Token''
      else let auth = req_header req ''Authorization''
           in if starts_with ''Bearer '' auth then drop 7 auth else auth)"

definition expected_admin :: "rpc_config \<Rightarrow> string" where
  "expected_admin C = (case env_admin_token C of None \<Rightarrow> [] | Some t \<Rightarrow> t)"

definition parse_claim :: "('j, 't) json_lib \<Rightarrow> rpc_config \<Rightarrow> 'j \<Rightarrow> 't reply + (amount \<times> string)" where
  "parse_claim J C body =
     ebind (guarded J C (json_field J (js_get_double J) body ''amount_usdt'')) (\<lambda>amount_val.
     ebind (guarded J C (json_field J (js_get_string J) body ''treasury_address'')) (\<lambda>treasury_addr.
     if \<not> is_valid_evm_address treasury_addr then Inl (refuse J 400 ''Direccion de tesoreria invalida'')
     else ebind (guarded J C (parse_usdt amount_val)) (\<lambda>claim_amount. Inr (claim_amount, treasury_addr))))"

definition handle_claim_fees ::
  "'s lmdb \<Rightarrow> ('j, 't) json_lib \<Rightarrow> rpc_config \<Rightarrow> bytes \<Rightarrow> 's node \<Rightarrow> 't request \<Rightarrow> 's node \<times> 't reply" where
  "handle_claim_fees L J C tx_bytes n req =
     (if expected_admin C = [] \<or> presented_token req \<noteq> expected_admin C
      then (n, refuse J 401 ''No autorizado: se requiere un token administrativo valido'')
      else case ebind (guarded J C (parse_body J req)) (parse_claim J C) of
        Inl r \<Rightarrow> (n, r)
      | Inr (claim_amount, treasury_addr) \<Rightarrow>
     (case claim_treasury_fees L tx_bytes n claim_amount treasury_addr of
        (n, Inl e) \<Rightarrow> (n, failed_with J (error_text C) e)
      | (n, Inr receipt) \<Rightarrow> (n, answer J 200
          [(''success'', js_bool J True),
           (''amount_claimed_usdt'', js_string J (format_usdt (clm_amount_claimed receipt))),
           (''remaining_fee_pool_usdt'', js_string J (format_usdt (clm_remaining_fee_pool receipt))),
           (''destination_address'', js_string J (clm_destination_address receipt)),
           (''tx_hash'', js_string J (clm_tx_hash receipt)),
           (''is_solvent_1_to_1'', js_bool J (audit_system n))])))"

section \<open>Peer to peer\<close>

definition peer_entry_json :: "('j, 't) json_lib \<Rightarrow> peer_info \<Rightarrow> 'j" where
  "peer_entry_json J p = js_object J
     [(''node_id'', js_string J (peer_node_id p)), (''address'', js_string J (peer_address p)),
      (''height'', js_u64 J (peer_height p)), (''top_hash'', js_string J (to_hex (peer_top_hash p))),
      (''last_seen'', js_u64 J (peer_last_seen p)), (''latency_ms'', js_u64 J (ucast (peer_latency_ms p))),
      (''is_connected'', js_bool J (peer_connected p))]"

definition handle_p2p_status ::
  "('j, 't) json_lib \<Rightarrow> rpc_config \<Rightarrow> ('w, 't) platform \<Rightarrow> ('s, 'w) system \<Rightarrow> 't reply" where
  "handle_p2p_status J C P s =
     (let M = sys_p2p s; on = p2p_attached C in answer J 200
       [(''p2p_enabled'', js_bool J on),
        (''node_id'', js_string J (if on then local_node_id M else [])),
        (''listen_url'', js_string J (if on then local_listen_url M else [])),
        (''peer_count'', js_u64 J (if on then of_nat (get_peer_count M) else 0)),
        (''peers'', js_array J (if on then map (peer_entry_json J) (get_active_peers P M) else []))])"

definition peer_urls_json ::
  "('j, 't) json_lib \<Rightarrow> rpc_config \<Rightarrow> ('w, 't) platform \<Rightarrow> p2p_manager \<Rightarrow> 'j" where
  "peer_urls_json J C P M =
     js_array J (if p2p_attached C then map (js_string J) (get_peer_urls P M) else [])"

definition handle_p2p_peers ::
  "('j, 't) json_lib \<Rightarrow> rpc_config \<Rightarrow> ('w, 't) platform \<Rightarrow> ('s, 'w) system \<Rightarrow> 't reply" where
  "handle_p2p_peers J C P s = answer J 200 [(''peers'', peer_urls_json J C P (sys_p2p s))]"

text \<open>Handlers that may download from peers: no reply when the process ends.\<close>

definition handle_add_peer ::
  "nat \<Rightarrow> 's lmdb \<Rightarrow> sodium \<Rightarrow> ('j, 't) json_lib \<Rightarrow> rpc_config \<Rightarrow> ('w, 't) platform \<Rightarrow> ('s, 'w) system
     \<Rightarrow> 't request \<Rightarrow> (('s, 'w) system \<times> 't reply option) option" where
  "handle_add_peer fuel L S J C P s req =
     (case ebind (parse_body J req) (\<lambda>body. json_field J (js_get_string J) body ''peer_url'') of
        Inl e \<Rightarrow> Some (s, Some (failed_with J (error_text C) e))
      | Inr peer_url \<Rightarrow>
          (case (if p2p_attached C then add_peer fuel L S J P s peer_url else Some (s, Returned False)) of
             None \<Rightarrow> None
           | Some (s, Process_ended) \<Rightarrow> Some (s, None)
           | Some (s, Returned ok) \<Rightarrow>
               Some (s, Some (answer J 200
                 [(''success'', js_bool J ok), (''peer_url'', js_string J peer_url)]))))"

definition handle_handshake ::
  "('j, 't) json_lib \<Rightarrow> rpc_config \<Rightarrow> ('w, 't) platform \<Rightarrow> ('s, 'w) system \<Rightarrow> 't request
     \<Rightarrow> ('s, 'w) system \<times> 't reply" where
  "handle_handshake J C P s req =
     (case ebind (parse_body J req) (\<lambda>body.
           ebind (json_value J (js_get_string J) body ''node_id'' []) (\<lambda>remote_id.
           ebind (json_value J (js_get_string J) body ''listen_url'' []) (\<lambda>remote_listen_url.
           ebind (json_value J (js_get_u64 J) body ''height'' 0) (\<lambda>remote_height.
           ebind (json_value J (js_get_string J) body ''top_hash'' []) (\<lambda>top_hash_hex.
           ebind (if top_hash_hex = [] then Inr zero_key else ebind (from_hex top_hash_hex) (\<lambda>b. Inr (key_array b)))
             (\<lambda>top_hash. Inr (remote_id, remote_listen_url, remote_height, top_hash))))))) of
        Inl e \<Rightarrow> (s, failed_with J (error_text C) e)
      | Inr (remote_id, remote_listen_url, remote_height, top_hash) \<Rightarrow>
          let M = (if p2p_attached C \<and> remote_listen_url \<noteq> []
                   then register_incoming_peer (pf_now P (sys_world s)) (sys_p2p s) remote_listen_url remote_id
                          remote_height top_hash
                   else sys_p2p s)
          in (s\<lparr>sys_p2p := M\<rparr>, answer J 200
               [(''node_id'', js_string J (if p2p_attached C then local_node_id M else ''node-local'')),
                (''height'', js_u64 J (get_blockchain_height (sys_node s))),
                (''top_hash'', js_string J (to_hex (get_top_block_hash (sys_node s)))),
                (''known_peers'', peer_urls_json J C P M)]))"

text \<open>
  A block from the gossip: older than the tip is ignored; a refused one far ahead makes the
  node download from the sender; an accepted one is passed on. \<open>stop_text\<close> is the message
  of \<^verbatim>\<open>apply_remote_block\<close>, an exception of which is answered like any other.
\<close>

definition parse_gossip :: "sodium \<Rightarrow> ('j, 't) json_lib \<Rightarrow> 't request \<Rightarrow> error + (block \<times> string)" where
  "parse_gossip S J req =
     ebind (parse_body J req) (\<lambda>body.
     ebind (json_field J (js_get_string J) body ''block_hex'') (\<lambda>hex_str.
     ebind (json_value J (js_get_string J) body ''sender_listen_url'' []) (\<lambda>sender_url.
     ebind (from_hex hex_str) (\<lambda>bs.
     ebind (deserialize_block S bs) (\<lambda>blk. Inr (blk, sender_url))))))"

definition refused_gossip ::
  "nat \<Rightarrow> 's lmdb \<Rightarrow> sodium \<Rightarrow> ('j, 't) json_lib \<Rightarrow> rpc_config \<Rightarrow> (rejection \<Rightarrow> string) \<Rightarrow> ('w, 't) platform
     \<Rightarrow> ('s, 'w) system \<Rightarrow> block \<Rightarrow> string \<Rightarrow> rejection \<Rightarrow> (('s, 'w) system \<times> 't reply option) option" where
  "refused_gossip fuel L S J C rejection_text P s blk sender_url why =
     (if hdr_height (header blk) > get_blockchain_height (sys_node s) + 1 \<and> p2p_attached C \<and> sender_url \<noteq> []
      then (case sync_from_peer fuel L S J P s sender_url of
              None \<Rightarrow> None
            | Some (s, Process_ended) \<Rightarrow> Some (s, None)
            | Some (s, Returned _) \<Rightarrow> Some (s, Some (refuse J 400 (rejection_text why))))
      else Some (s, Some (refuse J 400 (rejection_text why))))"

definition accepted_gossip ::
  "sodium \<Rightarrow> ('j, 't) json_lib \<Rightarrow> rpc_config \<Rightarrow> ('w, 't) platform \<Rightarrow> ('s, 'w) system \<Rightarrow> block \<Rightarrow> string
     \<Rightarrow> ('s, 'w) system \<times> 't reply" where
  "accepted_gossip S J C P s blk sender_url =
     (case (if p2p_attached C then broadcast_block J S P (sys_p2p s) (sys_world s) blk sender_url
            else ((sys_p2p s, sys_world s), Inr ())) of
        ((M, w), Inl e) \<Rightarrow> (s\<lparr>sys_p2p := M, sys_world := w\<rparr>, failed_with J (error_text C) e)
      | ((M, w), Inr _) \<Rightarrow> (s\<lparr>sys_p2p := M, sys_world := w\<rparr>, answer J 200
          [(''status'', js_string J ''accepted''), (''height'', js_u64 J (hdr_height (header blk)))]))"

definition handle_block ::
  "nat \<Rightarrow> 's lmdb \<Rightarrow> sodium \<Rightarrow> ('j, 't) json_lib \<Rightarrow> rpc_config \<Rightarrow> (rejection \<Rightarrow> string) \<Rightarrow> ('w, 't) platform
     \<Rightarrow> ('s, 'w) system \<Rightarrow> 't request \<Rightarrow> (('s, 'w) system \<times> 't reply option) option" where
  "handle_block fuel L S J C rejection_text P s req =
     (case parse_gossip S J req of
        Inl e \<Rightarrow> Some (s, Some (failed_with J (error_text C) e))
      | Inr (blk, sender_url) \<Rightarrow>
          if hdr_height (header blk) < get_blockchain_height (sys_node s)
          then Some (s, Some (answer J 200
                 [(''status'', js_string J ''ignored''), (''reason'', js_string J ''older_than_tip'')]))
          else (case apply_remote_block L S (sys_node s) blk of
              (n, Terminated) \<Rightarrow> Some (s\<lparr>sys_node := n\<rparr>, None)
            | (n, Refused (Thrown e)) \<Rightarrow> Some (s\<lparr>sys_node := n\<rparr>, Some (failed_with J (error_text C) e))
            | (n, Refused (Rejected why)) \<Rightarrow>
                refused_gossip fuel L S J C rejection_text P (s\<lparr>sys_node := n\<rparr>) blk sender_url why
            | (n, Accepted) \<Rightarrow>
                (case accepted_gossip S J C P (s\<lparr>sys_node := n\<rparr>) blk sender_url of
                   (s, r) \<Rightarrow> Some (s, Some r))))"

text \<open>
  The batch for a peer that downloads: the stored blocks from the requested height on, at
  most \<open>limit\<close> of them; serializing may throw.
\<close>

fun served_blocks ::
  "'s lmdb \<Rightarrow> sodium \<Rightarrow> 's node \<Rightarrow> nat \<Rightarrow> u64 list \<Rightarrow> error + (block \<times> bytes) list" where
  "served_blocks L S n limit [] = Inr []"
| "served_blocks L S n limit (h # hs) =
     (if limit = 0 then Inr []
      else case get_block L S n h of
        None \<Rightarrow> served_blocks L S n limit hs
      | Some b \<Rightarrow> ebind (serialize_block b) (\<lambda>raw.
                 ebind (served_blocks L S n (limit - 1) hs) (\<lambda>rest. Inr ((b, raw) # rest))))"

definition served_item :: "('j, 't) json_lib \<Rightarrow> sodium \<Rightarrow> block \<times> bytes \<Rightarrow> 'j" where
  "served_item J S x = js_object J
     [(''height'', js_u64 J (hdr_height (header (fst x)))),
      (''hash'', js_string J (to_hex (block_hash S (fst x)))),
      (''block_hex'', js_string J (to_hex (snd x)))]"

definition parse_sync :: "'t request \<Rightarrow> error + (u64 \<times> nat)" where
  "parse_sync req =
     ebind (case req_params req ''from_height'' of None \<Rightarrow> Inr 1 | Some text \<Rightarrow> stoull text) (\<lambda>from_h.
     ebind (case req_params req ''limit'' of None \<Rightarrow> Inr 50 | Some text \<Rightarrow> stoull text) (\<lambda>limit.
     Inr (from_h, unat (min limit 100))))"

definition handle_sync ::
  "'s lmdb \<Rightarrow> sodium \<Rightarrow> ('j, 't) json_lib \<Rightarrow> rpc_config \<Rightarrow> 's node \<Rightarrow> 't request \<Rightarrow> 't reply" where
  "handle_sync L S J C n req =
     (case ebind (parse_sync req) (\<lambda>(from_h, limit).
           ebind (served_blocks L S n limit (heights_between from_h (get_blockchain_height n))) (\<lambda>served.
           Inr (from_h, served))) of
        Inl e \<Rightarrow> failed_with J (error_text C) e
      | Inr (from_h, served) \<Rightarrow> answer J 200
          [(''from_height'', js_u64 J from_h),
           (''top_height'', js_u64 J (get_blockchain_height n)),
           (''count'', js_u64 J (of_nat (length served))),
           (''blocks'', js_array J (map (served_item J S) served))])"

end
