(* ===== verification/Daemon.thy ===== *)
theory Daemon
  imports Rpc
begin

text \<open>
  Model of \<^verbatim>\<open>src/main.cpp\<close>: the configuration from the environment and the arguments, the
  start of the node and of its peer network, the gossip of the blocks the node mines, and
  the demonstration. Signals, printing and the server loop are left out.
\<close>

section \<open>Configuration\<close>

record daemon_config =
  cfg_db_dir :: string
  cfg_port :: int
  cfg_seed_peers :: "string list"
  cfg_node_id :: string
  cfg_p2p_url :: string
  cfg_demo :: bool
  cfg_deposit_bps :: u32
  cfg_withdraw_bps :: u32
  cfg_host :: string

definition env_or :: "(string \<Rightarrow> string option) \<Rightarrow> string \<Rightarrow> string \<Rightarrow> string" where
  "env_or getenv name d = (case getenv name of None \<Rightarrow> d | Some v \<Rightarrow> v)"

definition env_port :: "(string \<Rightarrow> string option) \<Rightarrow> error + int" where
  "env_port getenv = (case getenv ''NODE_PORT'' of None \<Rightarrow> Inr 8080 | Some text \<Rightarrow> stoi text)"

definition env_seed_peers :: "(string \<Rightarrow> string option) \<Rightarrow> string list" where
  "env_seed_peers getenv =
     (case getenv ''P2P_SEED_PEERS'' of None \<Rightarrow> []
      | Some text \<Rightarrow> filter (\<lambda>p. p \<noteq> []) (split_commas [] text))"

text \<open>A fee that is not a number leaves the default, a larger one is cut to 32 bits.\<close>

definition env_fee :: "(string \<Rightarrow> string option) \<Rightarrow> string \<Rightarrow> u32" where
  "env_fee getenv name =
     (case getenv name of None \<Rightarrow> 50
      | Some text \<Rightarrow> (case stoull text of Inl _ \<Rightarrow> 50 | Inr v \<Rightarrow> ucast v))"

text \<open>The loop over the arguments; an option without its value is ignored.\<close>

fun read_args :: "daemon_config \<Rightarrow> string list \<Rightarrow> daemon_config" where
  "read_args c [] = c"
| "read_args c [arg] = (if arg = ''--demo'' then c\<lparr>cfg_demo := True\<rparr> else c)"
| "read_args c (arg # v # args) =
     (if arg = ''--demo'' then read_args (c\<lparr>cfg_demo := True\<rparr>) (v # args)
      else if arg = ''--peer'' then read_args (c\<lparr>cfg_seed_peers := cfg_seed_peers c @ [v]\<rparr>) args
      else if arg = ''--node-id'' then read_args (c\<lparr>cfg_node_id := v\<rparr>) args
      else if arg = ''--p2p-url'' then read_args (c\<lparr>cfg_p2p_url := v\<rparr>) args
      else read_args c (v # args))"

definition read_config :: "(string \<Rightarrow> string option) \<Rightarrow> string list \<Rightarrow> error + daemon_config" where
  "read_config getenv args =
     ebind (env_port getenv) (\<lambda>port.
       let c = read_args
             \<lparr>cfg_db_dir = env_or getenv ''CRYPTO_DATA_DIR'' ''./data/lmdb'', cfg_port = port,
              cfg_seed_peers = env_seed_peers getenv, cfg_node_id = env_or getenv ''NODE_ID'' [],
              cfg_p2p_url = env_or getenv ''P2P_LISTEN_URL'' (''http://127.0.0.1:'' @ int_string port),
              cfg_demo = False, cfg_deposit_bps = env_fee getenv ''DEPOSIT_FEE_BPS'',
              cfg_withdraw_bps = env_fee getenv ''WITHDRAW_FEE_BPS'',
              cfg_host = env_or getenv ''NODE_HOST'' ''0.0.0.0''\<rparr> args
       in Inr (if getenv ''RUN_DEMO'' \<noteq> None then c\<lparr>cfg_demo := True\<rparr> else c))"

section \<open>Start\<close>

text \<open>The callback on a mined block.\<close>

definition set_on_block_mined :: "'s node \<Rightarrow> 's node" where
  "set_on_block_mined n = n\<lparr>node_callback_set := True\<rparr>"

fun connect_seeds :: "('s, 'w) contact \<Rightarrow> ('s, 'w) system \<Rightarrow> string list \<Rightarrow> (('s, 'w) system \<times> verdict) option" where
  "connect_seeds contact s [] = Some (s, Returned True)"
| "connect_seeds contact s (peer # seeds) =
     (case contact s peer of
        None \<Rightarrow> None
      | Some (s, Process_ended) \<Rightarrow> Some (s, Process_ended)
      | Some (s, Returned _) \<Rightarrow> connect_seeds contact s seeds)"

definition start_daemon ::
  "nat \<Rightarrow> 's lmdb \<Rightarrow> sodium \<Rightarrow> ('j, 't) json_lib \<Rightarrow> ('w, 't) platform \<Rightarrow> (bytes \<Rightarrow> bytes \<times> bytes) \<Rightarrow> bytes \<times> bytes
     \<Rightarrow> bytes \<Rightarrow> (string \<Rightarrow> string option) \<Rightarrow> 's option \<Rightarrow> 'w \<Rightarrow> daemon_config
     \<Rightarrow> error + (('s, 'w) system \<times> verdict) option" where
  "start_daemon fuel L S J P seed_keypair fresh_keypair rand_id getenv opened world c =
     (case new_node L S seed_keypair fresh_keypair (getenv ''VALIDATOR_PRIVATE_KEY'')
             (getenv ''AUTHORIZED_VALIDATOR_KEYS'') (cfg_deposit_bps c) (cfg_withdraw_bps c) opened of
        (n, Inl e) \<Rightarrow> Inl e
      | (n, Inr _) \<Rightarrow>
          let M = start_p2p (new_p2p_manager (cfg_p2p_url c) (cfg_node_id c) rand_id)
          in Inr (connect_seeds (add_peer fuel L S J P)
                    \<lparr>sys_node = set_on_block_mined n, sys_p2p = M, sys_world = world\<rparr> (cfg_seed_peers c)))"

section \<open>Gossip of mined blocks\<close>

text \<open>The blocks an operation of the node announced are broadcast to every connected peer.\<close>

definition gossip_mined ::
  "('j, 't) json_lib \<Rightarrow> sodium \<Rightarrow> ('w, 't) platform \<Rightarrow> block list \<Rightarrow> p2p_manager \<times> 'w \<Rightarrow> p2p_manager \<times> 'w" where
  "gossip_mined J S P mined mw = foldl (\<lambda>mw b. fst (broadcast_block J S P (fst mw) (snd mw) b [])) mw mined"

definition mining ::
  "('j, 't) json_lib \<Rightarrow> sodium \<Rightarrow> ('w, 't) platform \<Rightarrow> ('s node \<Rightarrow> 's node \<times> 'r) \<Rightarrow> ('s, 'w) system
     \<Rightarrow> ('s, 'w) system \<times> 'r" where
  "mining J S P operation s =
     (case operation (sys_node s) of (n, r) \<Rightarrow>
        (case gossip_mined J S P (drop (length (node_announced (sys_node s))) (node_announced n))
                (sys_p2p s, sys_world s) of
           (M, w) \<Rightarrow> (s\<lparr>sys_node := n, sys_p2p := M, sys_world := w\<rparr>, r)))"

section \<open>Demonstration\<close>

text \<open>
  An output that is not found leaves a variable of the source uninitialised; the model
  reads zeros there.
\<close>

definition empty_output :: one_time_output where
  "empty_output = \<lparr>ephemeral_public_key = zero_key, destination_one_time = zero_key, out_amount = 0\<rparr>"

definition owned_output :: "sodium \<Rightarrow> 's node \<Rightarrow> stealth_wallet \<Rightarrow> one_time_output" where
  "owned_output S n w = (case find (scan_output S w) (node_pool n) of None \<Rightarrow> empty_output | Some u \<Rightarrow> u)"

definition demo_destination :: string where
  "demo_destination = ''0xBobExternalColdStorageWallet777''"

definition run_demo ::
  "'s lmdb \<Rightarrow> sodium \<Rightarrow> stealth_wallet \<Rightarrow> stealth_wallet \<Rightarrow> bytes \<Rightarrow> spend_draws \<Rightarrow> spend_draws \<Rightarrow> draws \<Rightarrow> u64
     \<Rightarrow> 's node \<Rightarrow> 's node \<times> (error + bool)" where
  "run_demo L S alice bob random_hash D1 D2 T now n =
     (case buy_shielded L S random_hash now n (1000 * USDT_UNIT) (get_public_address alice) [] 0 [] of
        (n, Inl e) \<Rightarrow> (n, Inl e)
      | (n, Inr _) \<Rightarrow>
     (case transfer_shielded L S D1 now n alice (owned_output S n alice) (get_public_address bob)
             (350 * USDT_UNIT) 0 of
        (n, Inl e) \<Rightarrow> (n, Inl e)
      | (n, Inr _) \<Rightarrow>
     (let bob_utxo = owned_output S n bob in
      case withdraw_shielded L S D2 T now n bob bob_utxo (out_amount bob_utxo) demo_destination of
        (n, Inl e) \<Rightarrow> (n, Inl e)
      | (n, Inr _) \<Rightarrow> (n, Inr (audit_system n)))))"

text \<open>The destination is no EVM address, so the demonstration always ends in an exception.\<close>

lemma demo_destination_invalid: "\<not> is_valid_evm_address demo_destination"
  by code_simp

lemma run_demo_fails: "\<exists>n' e. run_demo L S alice bob random_hash D1 D2 T now n = (n', Inl e)"
  using demo_destination_invalid
  by (auto simp: run_demo_def withdraw_shielded_def prepare_withdrawal_def Let_def split: prod.split sum.split)

end
