(* ===== verification/Mnemonic.thy ===== *)
theory Mnemonic
  imports Stealth WordList
begin

text \<open>
  Model of \<^verbatim>\<open>include/mnemonic.hpp\<close> and \<^verbatim>\<open>src/mnemonic.cpp\<close>: 256 bits of entropy and an
  eight-bit checksum as 24 dictionary words, and back. The random entropy is an argument.
  The arrays of 33 bytes are lists; \<open>stream_bit\<close> numbers their bits from the most
  significant bit of the first byte, as the source does.
\<close>

section \<open>Phrases\<close>

text \<open>\<^verbatim>\<open>std::isspace\<close> in the C locale, by which \<^verbatim>\<open>iss >> w\<close> splits.\<close>

definition isspace :: "char \<Rightarrow> bool" where
  "isspace c = (let n = (of_char c :: nat) in n = 32 \<or> 9 \<le> n \<and> n \<le> 13)"

fun split_from :: "string \<Rightarrow> string \<Rightarrow> string list" where
  "split_from w [] = (if w = [] then [] else [w])"
| "split_from w (c # cs) =
     (if isspace c then (if w = [] then split_from [] cs else w # split_from [] cs)
      else split_from (w @ [c]) cs)"

definition split_words :: "string \<Rightarrow> string list" where
  "split_words phrase = split_from [] phrase"

definition word_index_map :: "string \<Rightarrow> nat option" where
  "word_index_map = foldl (\<lambda>m i. m(BIP39_WORDS ! i \<mapsto> i)) Map.empty [0..<length BIP39_WORDS]"

section \<open>Operations\<close>

definition word_index :: "bytes \<Rightarrow> nat \<Rightarrow> 16 word" where
  "word_index bits_stream i =
     (let bit_offset = i * 11;
          byte_idx = bit_offset div 8;
          bit_rem = bit_offset mod 8;
          val = (push_bit 16 (ucast (bits_stream ! byte_idx)) :: u32)
                OR push_bit 8 (ucast (bits_stream ! (byte_idx + 1)));
          val = (if byte_idx + 2 < 33 then val OR ucast (bits_stream ! (byte_idx + 2)) else val)
      in ucast (drop_bit (24 - 11 - bit_rem) val AND 0x07FF))"

definition generate_24_words :: "sodium \<Rightarrow> bytes \<Rightarrow> string" where
  "generate_24_words S entropy =
     (let hash = sha256 S entropy;
          checksum = hash ! 0;
          bits_stream = entropy @ [checksum]
      in foldl (\<lambda>oss i. (if i > 0 then oss @ '' '' else oss)
                 @ BIP39_WORDS ! unat (word_index bits_stream i)) [] [0..<24])"

definition or_bit :: "bytes \<Rightarrow> nat \<Rightarrow> bytes" where
  "or_bit bits_stream target_bit =
     bits_stream[target_bit div 8 := bits_stream ! (target_bit div 8)
       OR push_bit (7 - target_bit mod 8) 1]"

definition pack_indices :: "16 word list \<Rightarrow> bytes" where
  "pack_indices indices =
     foldl (\<lambda>bs i.
       let idx = indices ! i; bit_offset = i * 11
       in foldl (\<lambda>bs b. if drop_bit (10 - b) idx AND 1 \<noteq> 0 then or_bit bs (bit_offset + b) else bs)
            bs [0..<11])
     (replicate 33 0) [0..<24]"

text \<open>The loop over the words with its early return.\<close>

fun lookup_indices :: "string list \<Rightarrow> 16 word list option" where
  "lookup_indices [] = Some []"
| "lookup_indices (w # ws) =
     (case word_index_map w of None \<Rightarrow> None
      | Some i \<Rightarrow> (case lookup_indices ws of None \<Rightarrow> None | Some is \<Rightarrow> Some (of_nat i # is)))"

definition validate_mnemonic :: "sodium \<Rightarrow> string \<Rightarrow> bool" where
  "validate_mnemonic S phrase =
     (let words = split_words phrase in
      if length words \<noteq> 24 then False
      else case lookup_indices words of
        None \<Rightarrow> False
      | Some indices \<Rightarrow>
          let bits_stream = pack_indices indices;
              hash = sha256 S (take 32 bits_stream)
          in hash ! 0 = bits_stream ! 32)"

definition mnemonic_to_entropy :: "sodium \<Rightarrow> string \<Rightarrow> error + bytes" where
  "mnemonic_to_entropy S phrase =
     (if \<not> validate_mnemonic S phrase then Inl Mnemonic_invalid
      else let words = split_words phrase;
               bits_stream = pack_indices (map (\<lambda>w. of_nat (the (word_index_map w))) words)
           in Inr (take 32 bits_stream))"

definition mnemonic_to_wallet :: "sodium \<Rightarrow> string \<Rightarrow> error + stealth_wallet" where
  "mnemonic_to_wallet S phrase =
     ebind (mnemonic_to_entropy S phrase) (\<lambda>entropy.
       let spend_seed = generichash S 64 entropy (bytes_of_string ''CryptoPeg_SpendSeed'');
           spend_private = scalar_reduce S spend_seed;
           view_seed = generichash S 64 entropy (bytes_of_string ''CryptoPeg_ViewSeed'');
           view_private = scalar_reduce S view_seed
       in Inr \<lparr>spend_private_key = spend_private, spend_public_key = base_point S spend_private,
               view_private_key = view_private, view_public_key = base_point S view_private\<rparr>)"

section \<open>The dictionary\<close>

lemma index_map_foldl:
  assumes "distinct ws" and "n \<le> length ws"
  shows "foldl (\<lambda>m i. m(ws ! i \<mapsto> i)) Map.empty [0..<n] w = Some i \<longleftrightarrow> i < n \<and> ws ! i = w"
  using assms(2)
proof (induction n)
  case (Suc n)
  then show ?case
    using assms(1) by (auto simp: nth_eq_iff_index_eq less_Suc_eq)
qed simp

lemma word_index_map_Some:
  "word_index_map w = Some i \<longleftrightarrow> i < 2048 \<and> BIP39_WORDS ! i = w"
  unfolding word_index_map_def using index_map_foldl [OF distinct_words, of 2048]
  by (simp add: length_words)

lemma word_index_map_nth [simp]: "i < 2048 \<Longrightarrow> word_index_map (BIP39_WORDS ! i) = Some i"
  by (simp add: word_index_map_Some)

lemma lookup_indices_eq:
  "lookup_indices ws = (if \<forall>w \<in> set ws. word_index_map w \<noteq> None
     then Some (map (\<lambda>w. of_nat (the (word_index_map w))) ws) else None)"
  by (induction ws) (auto split: option.split)

section \<open>Splitting joined words\<close>

fun join :: "string list \<Rightarrow> string" where
  "join [] = []"
| "join [w] = w"
| "join (w # v # ws) = w @ '' '' @ join (v # ws)"

definition clean_word :: "string \<Rightarrow> bool" where
  "clean_word w \<longleftrightarrow> w \<noteq> [] \<and> (\<forall>c \<in> set w. \<not> isspace c)"

lemma split_from_word: "\<forall>c \<in> set w. \<not> isspace c \<Longrightarrow> split_from v (w @ s) = split_from (v @ w) s"
  by (induction w arbitrary: v) simp_all

lemma split_join: "\<forall>w \<in> set ws. clean_word w \<Longrightarrow> split_words (join ws) = ws"
proof (induction ws rule: join.induct)
  case (2 w)
  then show ?case
    using split_from_word [of w "[]" "[]"] by (simp add: split_words_def clean_word_def)
next
  case (3 w v ws)
  then show ?case
    using split_from_word [of w "[]" "'' '' @ join (v # ws)"]
    by (simp add: split_words_def clean_word_def isspace_def)
qed (simp add: split_words_def)

lemma join_snoc: "ws \<noteq> [] \<Longrightarrow> join (ws @ [w]) = join ws @ '' '' @ w"
  by (induction ws rule: join.induct) simp_all

lemma words_clean: "i < 2048 \<Longrightarrow> clean_word (BIP39_WORDS ! i)"
proof -
  assume "i < 2048"
  then have "BIP39_WORDS ! i \<in> set BIP39_WORDS"
    by (simp add: length_words)
  then show "clean_word (BIP39_WORDS ! i)"
    using words_letters by (fastforce simp: clean_word_def isspace_def Let_def)
qed

lemma generate_join:
  "foldl (\<lambda>oss i. (if i > 0 then oss @ '' '' else oss) @ f i) [] [0..<n] = join (map f [0..<n])"
proof (induction n)
  case (Suc n)
  then show ?case
    using join_snoc [of "map f [0..<n]" "f n"] by (cases n) simp_all
qed simp

section \<open>Bits\<close>

definition stream_bit :: "bytes \<Rightarrow> nat \<Rightarrow> bool" where
  "stream_bit bs k \<longleftrightarrow> bit (bs ! (k div 8)) (7 - k mod 8)"

lemma stream_bit_eqI:
  assumes "length bs = length cs" and "\<And>k. k < 8 * length bs \<Longrightarrow> stream_bit bs k = stream_bit cs k"
  shows "bs = cs"
proof (rule nth_equalityI [OF assms(1)])
  fix j
  assume j: "j < length bs"
  show "bs ! j = cs ! j"
  proof (rule bit_word_eqI)
    fix n :: nat
    assume n: "n < LENGTH(8)"
    obtain m where m: "m < 8" "n = 7 - m"
      using n by (intro that [of "7 - n"]) simp_all
    then have "8 * j + m < 8 * length bs" and "(8 * j + m) div 8 = j" and "(8 * j + m) mod 8 = m"
      using j by simp_all
    with assms(2) [of "8 * j + m"] m show "bit (bs ! j) n \<longleftrightarrow> bit (cs ! j) n"
      by (simp add: stream_bit_def)
  qed
qed

text \<open>Bit \<open>10 - b\<close> of the index of word \<open>i\<close> is bit \<open>11 i + b\<close> of the stream.\<close>

lemma window_bit:
  fixes x y z :: byte
  assumes "t < 24"
  shows "bit (push_bit 16 (ucast x) OR push_bit 8 (ucast y) OR ucast z :: u32) (23 - t) \<longleftrightarrow>
    (if t < 8 then bit x (7 - t) else if t < 16 then bit y (15 - t) else bit z (23 - t))"
proof -
  have "\<not> bit w n" if "8 \<le> n" for w :: byte and n
    using that bit_imp_le_length [of w n] by auto
  then show ?thesis
    using assms by (auto simp: bit_or_iff bit_push_bit_iff bit_ucast_iff)
qed

lemma window_bit2:
  fixes x y :: byte
  assumes "t < 16"
  shows "bit (push_bit 16 (ucast x) OR push_bit 8 (ucast y) :: u32) (23 - t) \<longleftrightarrow>
    (if t < 8 then bit x (7 - t) else bit y (15 - t))"
  using window_bit [of t x y 0] assms by simp

lemma bit_low_11:
  "bit (ucast (drop_bit n v AND 0x07FF :: u32) :: 16 word) k \<longleftrightarrow> k < 11 \<and> bit v (n + k)"
proof -
  have m: "(0x07FF :: u32) = mask 11"
    by (simp add: mask_eq_exp_minus_1)
  show ?thesis
    unfolding m by (auto simp: bit_ucast_iff bit_and_iff bit_drop_bit_eq bit_mask_iff)
qed

lemma stream_bit_window:
  assumes "t < 24"
  shows "stream_bit bs (8 * q + t) \<longleftrightarrow>
    (if t < 8 then bit (bs ! q) (7 - t) else if t < 16 then bit (bs ! (q + 1)) (15 - t)
     else bit (bs ! (q + 2)) (23 - t))"
proof -
  have pos: "stream_bit bs (8 * p + u) \<longleftrightarrow> bit (bs ! p) (7 - u)" if "u < 8" for p u
    using that by (simp add: stream_bit_def)
  consider "t < 8" | "8 \<le> t" "t < 16" | "16 \<le> t"
    by linarith
  then show ?thesis
  proof cases
    case 1
    then show ?thesis
      by (simp add: pos)
  next
    case 2
    then show ?thesis
      using pos [of "t - 8" "q + 1"] by simp
  next
    case 3
    then show ?thesis
      using pos [of "t - 16" "q + 2"] assms by simp
  qed
qed

lemma bit_word_index:
  assumes "i < 24" and "b < 11"
  shows "bit (word_index bs i) (10 - b) \<longleftrightarrow> stream_bit bs (i * 11 + b)"
proof -
  let ?q = "i * 11 div 8" and ?r = "i * 11 mod 8"
  define t where "t = ?r + b"
  have t: "t < 18" and shift: "24 - 11 - ?r + (10 - b) = 23 - t" and pos: "i * 11 + b = 8 * ?q + t"
    and low: "10 - b < 11"
    using assms(2) by (auto simp: t_def)
  show ?thesis
  proof (cases "?q + 2 < 33")
    case True
    then show ?thesis
      using assms(2) t window_bit [of t "bs ! ?q" "bs ! (?q + 1)" "bs ! (?q + 2)"]
      unfolding word_index_def Let_def bit_low_11 shift if_P [OF True] pos or.assoc
      by (simp add: stream_bit_window low)
  next
    case False
    then have "i = 23"
      using assms(1) by auto
    then have t': "t < 16"
      using assms(2) by (simp add: t_def)
    then show ?thesis
      using assms(2) t window_bit2 [of t "bs ! ?q" "bs ! (?q + 1)"]
      unfolding word_index_def Let_def bit_low_11 shift if_not_P [OF False] pos
      by (simp add: stream_bit_window low)
  qed
qed

lemma word_index_less: "unat (word_index bs i) < 2048"
proof -
  have "word_index bs i = take_bit 11 (word_index bs i)"
    by (rule bit_word_eqI) (simp add: word_index_def Let_def bit_low_11 bit_take_bit_iff)
  then have "unat (word_index bs i) = take_bit 11 (unat (word_index bs i))"
    by (metis unsigned_take_bit_eq)
  also have "\<dots> < 2 ^ 11"
    by (rule take_bit_nat_less_exp)
  finally show ?thesis
    by simp
qed

text \<open>Packing sets exactly the bits of the indices.\<close>

lemma bit_single: "n < 8 \<Longrightarrow> bit (push_bit n 1 :: byte) m \<longleftrightarrow> m = n"
  by (auto simp: bit_push_bit_iff bit_1_iff simp del: push_bit_of_1)

lemma stream_bit_or_bit:
  assumes "t < 8 * length bs" and "k < 8 * length bs"
  shows "stream_bit (or_bit bs t) k \<longleftrightarrow> stream_bit bs k \<or> k = t"
proof (cases "k div 8 = t div 8")
  case True
  have "k = t \<longleftrightarrow> 7 - k mod 8 = 7 - t mod 8"
  proof
    assume "7 - k mod 8 = 7 - t mod 8"
    moreover have "k mod 8 < 8" and "t mod 8 < 8"
      by simp_all
    ultimately have "k mod 8 = t mod 8"
      by arith
    with True show "k = t"
      by (metis div_mult_mod_eq)
  qed simp
  moreover have "t div 8 < length bs"
    using assms(1) by auto
  ultimately show ?thesis
    using True by (auto simp: stream_bit_def or_bit_def bit_or_iff bit_single simp del: push_bit_of_1)
next
  case False
  then show ?thesis
    by (auto simp: stream_bit_def or_bit_def)
qed

lemma length_or_bit [simp]: "length (or_bit bs t) = length bs"
  by (simp add: or_bit_def)

lemma fold_or_bits:
  assumes "\<forall>t \<in> set ts. t < 8 * length bs"
  shows "length (foldl (\<lambda>bs t. if P t then or_bit bs t else bs) bs ts) = length bs \<and>
    (\<forall>k < 8 * length bs. stream_bit (foldl (\<lambda>bs t. if P t then or_bit bs t else bs) bs ts) k
       \<longleftrightarrow> stream_bit bs k \<or> k \<in> set ts \<and> P k)"
  using assms by (induction ts arbitrary: bs) (auto simp: stream_bit_or_bit)

lemma foldl_concat: "foldl f s (concat (map ys xs)) = foldl (\<lambda>s i. foldl f s (ys i)) s xs"
  by (induction xs arbitrary: s) simp_all

definition bit_targets :: "nat list" where
  "bit_targets = concat (map (\<lambda>i. map (\<lambda>b. i * 11 + b) [0..<11]) [0..<24])"

lemma set_bit_targets: "set bit_targets = {k. k < 264}"
proof -
  have "k \<in> set bit_targets" if "k < 264" for k
    unfolding bit_targets_def using that
    by (auto intro!: bexI [of _ "k div 11"] image_eqI [of _ _ "k mod 11"])
  then show ?thesis
    by (auto simp: bit_targets_def)
qed

lemma pack_indices_fold:
  "pack_indices idxs = foldl (\<lambda>bs t. if bit (idxs ! (t div 11)) (10 - t mod 11) then or_bit bs t else bs)
     (replicate 33 0) bit_targets"
proof -
  have test: "drop_bit n (w :: 16 word) AND 1 \<noteq> 0 \<longleftrightarrow> bit w n" for n w
    by (simp add: and_one_eq odd_iff_mod_2_eq_one bit_iff_odd_drop_bit flip: odd_iff_mod_2_eq_one)
  have inner: "foldl (\<lambda>bs b. if drop_bit (10 - b) (idxs ! i) AND 1 \<noteq> 0 then or_bit bs (i * 11 + b) else bs)
      bs [0..<11]
    = foldl (\<lambda>bs t. if bit (idxs ! (t div 11)) (10 - t mod 11) then or_bit bs t else bs) bs
      (map (\<lambda>b. i * 11 + b) [0..<11])" for bs i
    unfolding foldl_map test by (rule foldl_cong) simp_all
  show ?thesis
    unfolding pack_indices_def Let_def inner bit_targets_def foldl_concat ..
qed

lemma pack_indices_bits:
  "length (pack_indices idxs) = 33"
  "k < 264 \<Longrightarrow> stream_bit (pack_indices idxs) k \<longleftrightarrow> bit (idxs ! (k div 11)) (10 - k mod 11)"
proof -
  have "\<not> stream_bit (replicate 33 0) k" if "k < 264" for k
  proof -
    have "k div 8 < 33"
      using that by auto
    then show ?thesis
      by (simp add: stream_bit_def)
  qed
  then show "length (pack_indices idxs) = 33"
    and "k < 264 \<Longrightarrow> stream_bit (pack_indices idxs) k \<longleftrightarrow> bit (idxs ! (k div 11)) (10 - k mod 11)"
    using fold_or_bits [of bit_targets "replicate 33 0" "\<lambda>t. bit (idxs ! (t div 11)) (10 - t mod 11)"]
    unfolding pack_indices_fold by (simp_all add: set_bit_targets)
qed

text \<open>Unpacking and packing are inverse.\<close>

lemma pack_word_indices:
  assumes "length bs = 33"
  shows "pack_indices (map (word_index bs) [0..<24]) = bs"
proof (rule stream_bit_eqI)
  fix k
  assume "k < 8 * length (pack_indices (map (word_index bs) [0..<24]))"
  then have k: "k < 264"
    by (simp add: pack_indices_bits)
  then have i: "k div 11 < 24" and b: "k mod 11 < 11"
    by auto
  show "stream_bit (pack_indices (map (word_index bs) [0..<24])) k = stream_bit bs k"
    using bit_word_index [OF i b, of bs] i k by (simp add: pack_indices_bits)
qed (simp add: assms pack_indices_bits)

lemma word_index_pack:
  assumes "length idxs = 24" and "\<forall>w \<in> set idxs. unat w < 2048" and "i < 24"
  shows "word_index (pack_indices idxs) i = idxs ! i"
proof (rule bit_word_eqI)
  fix n :: nat
  show "bit (word_index (pack_indices idxs) i) n = bit (idxs ! i) n"
  proof (cases "n < 11")
    case True
    define b where "b = 10 - n"
    have b: "b < 11" and n: "n = 10 - b"
      using True by (auto simp: b_def)
    have "i * 11 + b < 264" and "(i * 11 + b) div 11 = i" and "(i * 11 + b) mod 11 = b"
      using assms(3) b by auto
    then show ?thesis
      unfolding n bit_word_index [OF assms(3) b] by (simp add: pack_indices_bits)
  next
    case False
    have "\<not> bit w n" if "unat w < 2048" for w :: "16 word"
    proof -
      have "unat w < 2 ^ n"
        using that False power_increasing [of 11 n "2 :: nat"] by simp
      then have "unat w div 2 ^ n = 0"
        by simp
      then have "\<not> bit (unat w) n"
        by (simp add: bit_iff_odd)
      then show ?thesis
        by (auto simp: bit_unsigned_iff dest: bit_imp_le_length)
    qed
    with assms word_index_less [of "pack_indices idxs" i] show ?thesis
      by simp
  qed
qed

section \<open>Phrases and entropy\<close>

definition phrase_words :: "bytes \<Rightarrow> string list" where
  "phrase_words bs = map (\<lambda>i. BIP39_WORDS ! unat (word_index bs i)) [0..<24]"

lemma split_generated:
  "split_words (generate_24_words S entropy) = phrase_words (entropy @ [sha256 S entropy ! 0])"
proof -
  have "generate_24_words S entropy = join (phrase_words (entropy @ [sha256 S entropy ! 0]))"
    by (simp add: generate_24_words_def phrase_words_def Let_def generate_join)
  then show ?thesis
    by (simp add: split_join phrase_words_def words_clean word_index_less)
qed

lemma lookup_phrase_words:
  "lookup_indices (phrase_words bs) = Some (map (word_index bs) [0..<24])"
  "map (\<lambda>w. of_nat (the (word_index_map w))) (phrase_words bs) = map (word_index bs) [0..<24]"
  by (simp_all add: lookup_indices_eq phrase_words_def word_index_less)

lemma validate_generated:
  assumes "length entropy = 32"
  shows "validate_mnemonic S (generate_24_words S entropy)"
proof -
  have "pack_indices (map (word_index (entropy @ [sha256 S entropy ! 0])) [0..<24])
      = entropy @ [sha256 S entropy ! 0]"
    by (rule pack_word_indices) (simp add: assms)
  then show ?thesis
    using assms
    by (simp add: validate_mnemonic_def Let_def split_generated lookup_phrase_words)
       (simp add: phrase_words_def nth_append)
qed

lemma entropy_generated:
  assumes "length entropy = 32"
  shows "mnemonic_to_entropy S (generate_24_words S entropy) = Inr entropy"
proof -
  have "pack_indices (map (word_index (entropy @ [sha256 S entropy ! 0])) [0..<24])
      = entropy @ [sha256 S entropy ! 0]"
    by (rule pack_word_indices) (simp add: assms)
  then show ?thesis
    using assms validate_generated [OF assms]
    by (simp add: mnemonic_to_entropy_def Let_def split_generated lookup_phrase_words)
qed

lemma unat_index:
  assumes "word_index_map w = Some i"
  shows "unat (of_nat i :: 16 word) = i" and "BIP39_WORDS ! i = w" and "i < 2048"
proof -
  show i: "i < 2048" and "BIP39_WORDS ! i = w"
    using assms by (simp_all add: word_index_map_Some)
  show "unat (of_nat i :: 16 word) = i"
    unfolding unat_of_nat by (rule mod_less) (use i in simp)
qed

lemma phrase_words_pack:
  assumes "length ws = 24" and "\<forall>w \<in> set ws. word_index_map w \<noteq> None"
  shows "phrase_words (pack_indices (map (\<lambda>w. of_nat (the (word_index_map w))) ws)) = ws"
proof -
  define idxs :: "16 word list" where "idxs = map (\<lambda>w. of_nat (the (word_index_map w))) ws"
  have look: "unat (of_nat (the (word_index_map w)) :: 16 word) < 2048
      \<and> BIP39_WORDS ! unat (of_nat (the (word_index_map w)) :: 16 word) = w"
    if w: "w \<in> set ws" for w
  proof -
    from w assms(2) obtain j where "word_index_map w = Some j"
      by blast
    with unat_index [OF this] show ?thesis
      by simp
  qed
  have n: "length idxs = 24" and small: "\<forall>v \<in> set idxs. unat v < 2048"
    using assms(1) look by (auto simp: idxs_def)
  have "BIP39_WORDS ! unat (word_index (pack_indices idxs) i) = ws ! i" if i: "i < 24" for i
    unfolding word_index_pack [OF n small i]
    using look [of "ws ! i"] i assms(1) by (simp add: idxs_def)
  then show ?thesis
    by (intro nth_equalityI) (simp_all add: phrase_words_def assms(1) flip: idxs_def)
qed

lemma validD:
  assumes "validate_mnemonic S phrase"
  defines "idxs \<equiv> map (\<lambda>w. of_nat (the (word_index_map w))) (split_words phrase)"
  shows "length (split_words phrase) = 24"
    and "\<forall>w \<in> set (split_words phrase). word_index_map w \<noteq> None"
    and "sha256 S (take 32 (pack_indices idxs)) ! 0 = pack_indices idxs ! 32"
proof -
  show n: "length (split_words phrase) = 24"
    using assms(1) by (simp add: validate_mnemonic_def Let_def split: if_splits)
  show all: "\<forall>w \<in> set (split_words phrase). word_index_map w \<noteq> None"
    using assms(1) n
    by (simp add: validate_mnemonic_def Let_def lookup_indices_eq split: if_splits)
  show "sha256 S (take 32 (pack_indices idxs)) ! 0 = pack_indices idxs ! 32"
    using assms(1) n unfolding validate_mnemonic_def Let_def lookup_indices_eq if_P [OF all] idxs_def
    by simp
qed

lemma generate_entropy:
  assumes "mnemonic_to_entropy S phrase = Inr entropy"
  shows "length entropy = 32 \<and> split_words (generate_24_words S entropy) = split_words phrase"
proof -
  define bs where
    "bs = pack_indices (map (\<lambda>w. of_nat (the (word_index_map w))) (split_words phrase))"
  from assms have v: "validate_mnemonic S phrase" and e: "entropy = take 32 bs"
    by (simp_all add: mnemonic_to_entropy_def Let_def bs_def split: if_splits)
  have len: "length bs = 33"
    by (simp add: bs_def pack_indices_bits)
  have "bs = take 32 bs @ [bs ! 32]"
    using take_Suc_conv_app_nth [of 32 bs] len by simp
  then have bs: "entropy @ [sha256 S entropy ! 0] = bs"
    using validD(3) [OF v] by (simp add: e flip: bs_def)
  have "phrase_words bs = split_words phrase"
    unfolding bs_def by (rule phrase_words_pack [OF validD(1,2) [OF v]])
  then show ?thesis
    by (simp add: split_generated bs) (simp add: e len)
qed

section \<open>Properties\<close>

text \<open>
  C38: a generated phrase is accepted and gives its entropy back: for every 32 bytes of
  entropy the 24 words are valid, and decoding them returns the bytes.
\<close>

theorem mnemonic_roundtrip:
  assumes "length entropy = 32"
  shows "validate_mnemonic S (generate_24_words S entropy)
    \<and> mnemonic_to_entropy S (generate_24_words S entropy) = Inr entropy"
  using validate_generated [OF assms] entropy_generated [OF assms] by blast

theorem mnemonic_roundtrip_witness:
  "mnemonic_to_entropy toy_sodium (generate_24_words toy_sodium (pad32 7)) = Inr (pad32 7)"
  using mnemonic_roundtrip [of "pad32 7" toy_sodium] by simp

text \<open>
  A phrase that decodes is, up to white space, the phrase generated from the entropy
  it decodes to, so each entropy has one phrase and a wrong word or checksum is refused;
  and the wallet derived from it owns the outputs sent to its address: its keys are
  scalars with their public keys.
\<close>

theorem mnemonic_wallet_canonical:
  assumes "reduces_to S sc" and "mnemonic_to_wallet S phrase = Inr w"
  shows "wallet_ok S sc w
    \<and> (\<exists>entropy. mnemonic_to_entropy S phrase = Inr entropy \<and> length entropy = 32
        \<and> split_words (generate_24_words S entropy) = split_words phrase)"
  using assms generate_entropy
  by (auto simp: mnemonic_to_wallet_def ebind_eq_Inr Let_def wallet_ok_def reduces_to_def)

theorem mnemonic_wallet_canonical_witness:
  "\<exists>w. mnemonic_to_wallet toy_sodium (generate_24_words toy_sodium (pad32 7)) = Inr w
    \<and> wallet_ok toy_sodium toy_scalar w"
proof -
  obtain w where w: "mnemonic_to_wallet toy_sodium (generate_24_words toy_sodium (pad32 7)) = Inr w"
    using entropy_generated [of "pad32 7" toy_sodium]
    by (simp add: mnemonic_to_wallet_def Let_def)
  from mnemonic_wallet_canonical [OF toy_reduces_to w] w show ?thesis
    by blast
qed

end
