(* ===== verification/Wallet.thy ===== *)
theory Wallet
  imports Services Mnemonic
begin

text \<open>
  Model of \<^verbatim>\<open>include/wallet_manager.hpp\<close> and \<^verbatim>\<open>src/wallet_manager.cpp\<close>: the wallet of the
  command line client, which keeps a phrase and its keys, saves them to a file, and asks a
  node for its outputs, transfers and withdrawals over HTTP. The text of error messages is
  not modelled; a call that fails returns no result.
\<close>

section \<open>State\<close>

record wallet_manager =
  daemon_host :: string
  daemon_port :: int
  daemon_url :: string
  wm_loaded :: bool
  wm_name :: string
  wm_mnemonic :: string
  wm_wallet :: "stealth_wallet option"
  wm_balance :: amount
  wm_utxos :: "one_time_output list"

definition url_of :: "string \<Rightarrow> int \<Rightarrow> string" where
  "url_of host port = ''http://'' @ host @ '':'' @ int_string port"

definition new_wallet_manager :: "string \<Rightarrow> int \<Rightarrow> wallet_manager" where
  "new_wallet_manager host port =
     \<lparr>daemon_host = host, daemon_port = port, daemon_url = url_of host port, wm_loaded = False,
      wm_name = [], wm_mnemonic = [], wm_wallet = None, wm_balance = 0, wm_utxos = []\<rparr>"

definition set_daemon :: "wallet_manager \<Rightarrow> string \<Rightarrow> int \<Rightarrow> wallet_manager" where
  "set_daemon W host port = W\<lparr>daemon_host := host, daemon_port := port, daemon_url := url_of host port\<rparr>"

text \<open>\<^verbatim>\<open>is_loaded_ && wallet_\<close>.\<close>

definition active_wallet :: "wallet_manager \<Rightarrow> stealth_wallet option" where
  "active_wallet W = (if wm_loaded W then wm_wallet W else None)"

section \<open>Creating and restoring\<close>

text \<open>Name and phrase are stored before the keys are derived.\<close>

definition install_phrase :: "sodium \<Rightarrow> wallet_manager \<Rightarrow> string \<Rightarrow> string \<Rightarrow> wallet_manager \<times> (error + unit)" where
  "install_phrase S W name mnemonic =
     (let W = W\<lparr>wm_name := name, wm_mnemonic := mnemonic\<rparr> in
      case mnemonic_to_wallet S mnemonic of
        Inl e \<Rightarrow> (W, Inl e)
      | Inr w \<Rightarrow> (W\<lparr>wm_wallet := Some w, wm_loaded := True, wm_balance := 0, wm_utxos := []\<rparr>, Inr ()))"

definition create_wallet :: "sodium \<Rightarrow> bytes \<Rightarrow> wallet_manager \<Rightarrow> string \<Rightarrow> wallet_manager \<times> (error + string)" where
  "create_wallet S entropy W name =
     (let mnemonic = generate_24_words S entropy in
      case install_phrase S W name mnemonic of
        (W, Inl e) \<Rightarrow> (W, Inl e)
      | (W, Inr _) \<Rightarrow> (W, Inr mnemonic))"

definition restore_wallet :: "sodium \<Rightarrow> wallet_manager \<Rightarrow> string \<Rightarrow> string \<Rightarrow> wallet_manager \<times> (error + unit)" where
  "restore_wallet S W name mnemonic =
     (if \<not> validate_mnemonic S mnemonic then (W, Inl (Service_error Wallet_bad_mnemonic))
      else install_phrase S W name mnemonic)"

definition get_address :: "wallet_manager \<Rightarrow> error + stealth_address" where
  "get_address W =
     (case active_wallet W of None \<Rightarrow> Inl (Service_error Wallet_not_loaded)
      | Some w \<Rightarrow> Inr (get_public_address w))"

definition close_wallet :: "wallet_manager \<Rightarrow> wallet_manager" where
  "close_wallet W = W\<lparr>wm_loaded := False, wm_name := [], wm_mnemonic := [], wm_wallet := None,
     wm_balance := 0, wm_utxos := []\<rparr>"

section \<open>The wallet file\<close>

text \<open>
  The file system: writing gives the new state unless the file cannot be opened, reading
  the text of an existing file.
\<close>

record ('f, 't) file_system =
  fs_write :: "'f \<Rightarrow> string \<Rightarrow> 't \<Rightarrow> 'f option"
  fs_read :: "'f \<Rightarrow> string \<Rightarrow> 't option"

definition fs_ok :: "('f, 't) file_system \<Rightarrow> bool" where
  "fs_ok F \<longleftrightarrow> (\<forall>f path t f'. fs_write F f path t = Some f' \<longrightarrow> fs_read F f' path = Some t)"

definition wallet_document :: "('j, 't) json_lib \<Rightarrow> wallet_manager \<Rightarrow> stealth_wallet \<Rightarrow> 'j" where
  "wallet_document J W w = js_object J
     [(''name'', js_string J (wm_name W)),
      (''mnemonic'', js_string J (wm_mnemonic W)),
      (''stealth_address'', js_string J (encode_address (get_public_address w))),
      (''spend_public_key'', js_string J (to_hex (spend_public_key w))),
      (''view_public_key'', js_string J (to_hex (view_public_key w)))]"

definition save_wallet ::
  "('j, 't) json_lib \<Rightarrow> ('f, 't) file_system \<Rightarrow> 'f \<Rightarrow> wallet_manager \<Rightarrow> string \<Rightarrow> 'f \<times> (error + unit)" where
  "save_wallet J F f W filepath =
     (case active_wallet W of
        None \<Rightarrow> (f, Inl (Service_error Wallet_nothing_to_save))
      | Some w \<Rightarrow>
          (case fs_write F f filepath (js_dump J (wallet_document J W w)) of
             None \<Rightarrow> (f, Inl (Service_error Wallet_file_not_writable))
           | Some f' \<Rightarrow> (f', Inr ())))"

definition load_wallet ::
  "sodium \<Rightarrow> ('j, 't) json_lib \<Rightarrow> ('f, 't) file_system \<Rightarrow> 'f \<Rightarrow> wallet_manager \<Rightarrow> string
     \<Rightarrow> wallet_manager \<times> (error + unit)" where
  "load_wallet S J F f W filepath =
     (case fs_read F f filepath of
        None \<Rightarrow> (W, Inl (Service_error Wallet_file_not_readable))
      | Some text \<Rightarrow>
          (case ebind (json_some (js_parse J text)) (\<lambda>j.
                ebind (json_field J (js_get_string J) j ''name'') (\<lambda>name.
                ebind (json_field J (js_get_string J) j ''mnemonic'') (\<lambda>mnemonic. Inr (name, mnemonic)))) of
             Inl e \<Rightarrow> (W, Inl e)
           | Inr (name, mnemonic) \<Rightarrow> restore_wallet S W name mnemonic))"

section \<open>Synchronization\<close>

definition scan_request :: "('j, 't) json_lib \<Rightarrow> stealth_wallet \<Rightarrow> 't" where
  "scan_request J w = js_dump J (js_object J
     [(''view_private_key'', js_string J (to_hex (view_private_key w))),
      (''spend_public_key'', js_string J (to_hex (spend_public_key w)))])"

text \<open>\<^verbatim>\<open>o[key]\<close> on a constant value: a missing key is undefined.\<close>

definition json_const_at :: "('j, 't) json_lib \<Rightarrow> 'j \<Rightarrow> string \<Rightarrow> error + 'j" where
  "json_const_at J j k =
     (if js_is_object J j
      then (case js_find J j k of None \<Rightarrow> Inl (Service_error Json_undefined) | Some x \<Rightarrow> Inr x)
      else Inl (Service_error Json_failed))"

definition listed_output :: "('j, 't) json_lib \<Rightarrow> 'j \<Rightarrow> error + one_time_output" where
  "listed_output J o_j =
     ebind (ebind (json_const_at J o_j ''destination_one_time'') (json_hex J)) (\<lambda>dest_bytes.
     ebind (ebind (json_const_at J o_j ''ephemeral_public_key'') (json_hex J)) (\<lambda>eph_bytes.
     ebind (copy_key dest_bytes) (\<lambda>dest.
     ebind (copy_key eph_bytes) (\<lambda>eph.
     ebind (ebind (json_const_at J o_j ''amount_units'') (\<lambda>x. json_some (js_get_u64 J x))) (\<lambda>amt.
     Inr \<lparr>ephemeral_public_key = eph, destination_one_time = dest, out_amount = amt\<rparr>)))))"

text \<open>Outputs are appended one by one: an exception keeps those before it.\<close>

fun listed_outputs :: "('j, 't) json_lib \<Rightarrow> 'j list \<Rightarrow> one_time_output list \<times> bool" where
  "listed_outputs J [] = ([], True)"
| "listed_outputs J (x # xs) =
     (case listed_output J x of
        Inl _ \<Rightarrow> ([], False)
      | Inr u \<Rightarrow> (case listed_outputs J xs of (us, ok) \<Rightarrow> (u # us, ok)))"

text \<open>\<^verbatim>\<open>data["outputs"]\<close> on a mutable value: a missing key reads as an empty list.\<close>

definition apply_scan :: "('j, 't) json_lib \<Rightarrow> wallet_manager \<Rightarrow> 'j \<Rightarrow> wallet_manager \<times> bool" where
  "apply_scan J W data =
     (case json_field J (js_get_u64 J) data ''total_balance_units'' of
        Inl _ \<Rightarrow> (W, False)
      | Inr balance \<Rightarrow>
          (case listed_outputs J (case js_find J data ''outputs'' of None \<Rightarrow> [] | Some x \<Rightarrow> js_items J x) of
             (us, ok) \<Rightarrow> (W\<lparr>wm_balance := balance, wm_utxos := us\<rparr>, ok)))"

text \<open>The document of a reply of status 200, if it is one.\<close>

definition ok_document :: "('j, 't) json_lib \<Rightarrow> (nat \<times> 't) option \<Rightarrow> 'j option" where
  "ok_document J res =
     (case res of None \<Rightarrow> None | Some (status, body) \<Rightarrow> if status \<noteq> 200 then None else js_parse J body)"

definition wallet_sync ::
  "('j, 't) json_lib \<Rightarrow> ('w, 't) platform \<Rightarrow> 'w \<Rightarrow> wallet_manager \<Rightarrow> wallet_manager \<times> 'w \<times> bool" where
  "wallet_sync J P world W =
     (case active_wallet W of
        None \<Rightarrow> (W, world, False)
      | Some w \<Rightarrow>
          (case pf_post P world (daemon_url W) ''/api/v1/wallet/scan'' (scan_request J w) of
             (world, res) \<Rightarrow>
               (case ok_document J res of
                  None \<Rightarrow> (W, world, False)
                | Some data \<Rightarrow> (case apply_scan J W data of (W, ok) \<Rightarrow> (W, world, ok)))))"

section \<open>Payments\<close>

text \<open>Deposits are refused, whatever the state.\<close>

definition wallet_deposit :: "wallet_manager \<Rightarrow> amount \<Rightarrow> wallet_manager \<times> string option" where
  "wallet_deposit W gross_usdt = (W, None)"

definition select_utxo :: "one_time_output list \<Rightarrow> amount \<Rightarrow> one_time_output option" where
  "select_utxo us amt = find (\<lambda>u. out_amount u \<ge> amt) us"

definition transfer_request ::
  "('j, 't) json_lib \<Rightarrow> stealth_wallet \<Rightarrow> one_time_output \<Rightarrow> string \<Rightarrow> amount \<Rightarrow> 't" where
  "transfer_request J w selected recipient_address amt = js_dump J (js_object J
     [(''sender_spend_private_key'', js_string J (to_hex (spend_private_key w))),
      (''sender_view_private_key'', js_string J (to_hex (view_private_key w))),
      (''input_utxo_pubkey'', js_string J (to_hex (destination_one_time selected))),
      (''recipient_stealth_address'', js_string J recipient_address),
      (''amount_usdt'', js_double J (usdt_double amt)),
      (''tx_fee_usdt'', js_double J (Finite False 0 0))])"

definition withdraw_request ::
  "('j, 't) json_lib \<Rightarrow> stealth_wallet \<Rightarrow> one_time_output \<Rightarrow> amount \<Rightarrow> string \<Rightarrow> 't" where
  "withdraw_request J w selected amt destination = js_dump J (js_object J
     [(''burner_spend_private_key'', js_string J (to_hex (spend_private_key w))),
      (''burner_view_private_key'', js_string J (to_hex (view_private_key w))),
      (''input_utxo_pubkey'', js_string J (to_hex (destination_one_time selected))),
      (''tokens_to_withdraw'', js_double J (usdt_double amt)),
      (''destination_public_usdt'', js_string J destination)])"

text \<open>
  Both payments: synchronize, take the first output that covers the amount, send the keys
  and the request to the node, read the reply, synchronize again.
\<close>

definition pay_with ::
  "('j, 't) json_lib \<Rightarrow> ('w, 't) platform \<Rightarrow> string \<Rightarrow> (stealth_wallet \<Rightarrow> one_time_output \<Rightarrow> 't)
     \<Rightarrow> ('j \<Rightarrow> error + 'a) \<Rightarrow> amount \<Rightarrow> 'w \<Rightarrow> wallet_manager \<Rightarrow> wallet_manager \<times> 'w \<times> 'a option" where
  "pay_with J P path request result amt world W =
     (case active_wallet W of
        None \<Rightarrow> (W, world, None)
      | Some w \<Rightarrow>
          (case wallet_sync J P world W of (W, world, _) \<Rightarrow>
             (case select_utxo (wm_utxos W) amt of
                None \<Rightarrow> (W, world, None)
              | Some selected \<Rightarrow>
                  (case pf_post P world (daemon_url W) path (request w selected) of (world, res) \<Rightarrow>
                     (case ok_document J res of
                        None \<Rightarrow> (W, world, None)
                      | Some data \<Rightarrow>
                          (case result data of
                             Inl _ \<Rightarrow> (W, world, None)
                           | Inr r \<Rightarrow> (case wallet_sync J P world W of (W, world, _) \<Rightarrow> (W, world, Some r))))))))"

definition wallet_transfer ::
  "('j, 't) json_lib \<Rightarrow> ('w, 't) platform \<Rightarrow> 'w \<Rightarrow> wallet_manager \<Rightarrow> string \<Rightarrow> amount
     \<Rightarrow> wallet_manager \<times> 'w \<times> string option" where
  "wallet_transfer J P world W recipient_address amt =
     pay_with J P ''/api/v1/tx/transfer'' (\<lambda>w u. transfer_request J w u recipient_address amt)
       (\<lambda>data. json_field J (js_get_string J) data ''tx_hash'') amt world W"

definition wallet_withdraw ::
  "('j, 't) json_lib \<Rightarrow> ('w, 't) platform \<Rightarrow> 'w \<Rightarrow> wallet_manager \<Rightarrow> amount \<Rightarrow> string
     \<Rightarrow> wallet_manager \<times> 'w \<times> (string \<times> u64) option" where
  "wallet_withdraw J P world W amt destination =
     pay_with J P ''/api/v1/vault/withdraw'' (\<lambda>w u. withdraw_request J w u amt destination)
       (\<lambda>data. ebind (json_field J (js_get_string J) data ''order_id'') (\<lambda>order_id.
               ebind (json_field J (js_get_u64 J) data ''total_micro_fragments'') (\<lambda>fragments.
               Inr (order_id, fragments)))) amt world W"

definition get_node_status ::
  "('w, 't) platform \<Rightarrow> 'w \<Rightarrow> wallet_manager \<Rightarrow> 'w \<times> 't option" where
  "get_node_status P world W =
     (case pf_get P world (daemon_url W) ''/api/v1/node/status'' of
        (world, None) \<Rightarrow> (world, None)
      | (world, Some (status, body)) \<Rightarrow> (world, if status \<noteq> 200 then None else Some body))"

section \<open>Well-formed managers\<close>

text \<open>Either no wallet is loaded, or the keys are those of the phrase.\<close>

definition wallet_consistent :: "sodium \<Rightarrow> wallet_manager \<Rightarrow> bool" where
  "wallet_consistent S W \<longleftrightarrow>
     daemon_url W = url_of (daemon_host W) (daemon_port W)
   \<and> (\<forall>w. active_wallet W = Some w \<longrightarrow> mnemonic_to_wallet S (wm_mnemonic W) = Inr w)"

end
