(* ===== verification/Wasm.thy ===== *)
theory Wasm
  imports Services RingSig
begin

text \<open>
  Model of \<^verbatim>\<open>bindings/wasm_bindings.cpp\<close>: the functions a browser calls with hexadecimal
  text. Values that cross the border to JavaScript are converted by Emscripten; they appear
  here after the conversion. Wiping memory has no effect on results.
\<close>

section \<open>Stealth addresses\<close>

record wasm_output =
  js_ephemeral_pubkey :: string
  js_destination_one_time :: string
  js_amount_usdt :: double

definition amount_double :: "amount \<Rightarrow> double" where
  "amount_double a = (case lowest_terms (to_binary64 (unat a, 0)) of (m, e) \<Rightarrow> Finite False m e)"

text \<open>The object returned: the output and \<^verbatim>\<open>amount_units\<close>.\<close>

definition wasm_create_one_time_output ::
  "sodium \<Rightarrow> bytes \<Rightarrow> string \<Rightarrow> string \<Rightarrow> double \<Rightarrow> error + (wasm_output \<times> double)" where
  "wasm_create_one_time_output S random_scalar spend_pub_hex view_pub_hex amount_usdt =
     ebind (from_hex spend_pub_hex) (\<lambda>s_bytes.
     ebind (from_hex view_pub_hex) (\<lambda>v_bytes.
     if length s_bytes \<noteq> 32 \<or> length v_bytes \<noteq> 32 then Inl (Service_error Wasm_bad_key_length)
     else ebind (parse_usdt amount_usdt) (\<lambda>amt.
     ebind (create_one_time_output S \<lparr>addr_spend_public_key = s_bytes, addr_view_public_key = v_bytes\<rparr>
              amt None random_scalar) (\<lambda>out.
     Inr (\<lparr>js_ephemeral_pubkey = to_hex (ephemeral_public_key out),
           js_destination_one_time = to_hex (destination_one_time out), js_amount_usdt = amount_usdt\<rparr>,
          amount_double (out_amount out))))))"

definition wasm_scan_output :: "sodium \<Rightarrow> string \<Rightarrow> string \<Rightarrow> string \<Rightarrow> string \<Rightarrow> error + bool" where
  "wasm_scan_output S view_priv_hex spend_pub_hex ephemeral_pub_hex dest_one_time_hex =
     ebind (from_hex view_priv_hex) (\<lambda>vp.
     ebind (from_hex spend_pub_hex) (\<lambda>sp.
     if length vp \<noteq> 32 \<or> length sp \<noteq> 32 then Inr False
     else ebind (from_hex ephemeral_pub_hex) (\<lambda>ep.
     ebind (from_hex dest_one_time_hex) (\<lambda>dst.
     if length ep \<noteq> 32 \<or> length dst \<noteq> 32 then Inr False
     else Inr (scan_output S
       \<lparr>spend_private_key = zero_key, spend_public_key = sp, view_private_key = vp, view_public_key = zero_key\<rparr>
       \<lparr>ephemeral_public_key = ep, destination_one_time = dst, out_amount = 0\<rparr>)))))"

definition wasm_derive_one_time_private_key ::
  "sodium \<Rightarrow> string \<Rightarrow> string \<Rightarrow> string \<Rightarrow> string \<Rightarrow> error + string" where
  "wasm_derive_one_time_private_key S view_priv_hex spend_priv_hex ephemeral_pub_hex dest_one_time_hex =
     ebind (from_hex view_priv_hex) (\<lambda>vp.
     ebind (from_hex spend_priv_hex) (\<lambda>sp.
     if length vp \<noteq> 32 \<or> length sp \<noteq> 32 then Inl (Service_error Wasm_bad_wallet_key_length)
     else ebind (from_hex ephemeral_pub_hex) (\<lambda>ep.
     ebind (from_hex dest_one_time_hex) (\<lambda>dst.
     if length ep \<noteq> 32 \<or> length dst \<noteq> 32 then Inl (Service_error Wasm_bad_output_key_length)
     else ebind (derive_one_time_private_key S
       \<lparr>spend_private_key = sp, spend_public_key = zero_key, view_private_key = vp, view_public_key = zero_key\<rparr>
       \<lparr>ephemeral_public_key = ep, destination_one_time = dst, out_amount = 0\<rparr>) (\<lambda>x. Inr (to_hex x))))))"

section \<open>Ring signatures\<close>

definition wasm_compute_key_image :: "sodium \<Rightarrow> string \<Rightarrow> string \<Rightarrow> error + string" where
  "wasm_compute_key_image S one_time_priv_hex dest_one_time_hex =
     ebind (from_hex one_time_priv_hex) (\<lambda>priv.
     ebind (checked_key Wasm_bad_private_key_length priv) (\<lambda>priv.
     ebind (from_hex dest_one_time_hex) (\<lambda>pub.
     ebind (checked_key Wasm_bad_public_key_length pub) (\<lambda>pub.
     ebind (compute_key_image S priv pub) (\<lambda>img. Inr (to_hex img))))))"

text \<open>The lengths of the keys that are hashed are not checked.\<close>

definition wasm_hashed_output :: "wasm_output \<Rightarrow> error + one_time_output" where
  "wasm_hashed_output item =
     ebind (from_hex (js_ephemeral_pubkey item)) (\<lambda>ep_bytes.
     ebind (from_hex (js_destination_one_time item)) (\<lambda>dst_bytes.
     ebind (copy_key ep_bytes) (\<lambda>ep.
     ebind (copy_key dst_bytes) (\<lambda>dst.
     ebind (parse_usdt (js_amount_usdt item)) (\<lambda>amt.
     Inr \<lparr>ephemeral_public_key = ep, destination_one_time = dst, out_amount = amt\<rparr>)))))"

definition wasm_compute_canonical_tx_hash ::
  "sodium \<Rightarrow> wasm_output list \<Rightarrow> double \<Rightarrow> string list \<Rightarrow> string \<Rightarrow> error + string" where
  "wasm_compute_canonical_tx_hash S outputs_array fee_usdt ring_pubkeys_array key_image_hex =
     ebind (each wasm_hashed_output outputs_array) (\<lambda>outs.
     ebind (parse_usdt fee_usdt) (\<lambda>fee.
     ebind (each (\<lambda>h. ebind (from_hex h) copy_key) ring_pubkeys_array) (\<lambda>ring.
     ebind (from_hex key_image_hex) (\<lambda>ki_bytes.
     ebind (copy_key ki_bytes) (\<lambda>img.
     Inr (to_hex (compute_canonical_tx_hash S outs fee ring img)))))))"

definition wasm_sign_transaction ::
  "sodium \<Rightarrow> bytes \<Rightarrow> (nat \<Rightarrow> bytes) \<Rightarrow> string \<Rightarrow> string list \<Rightarrow> nat \<Rightarrow> string
     \<Rightarrow> error + (string \<times> string \<times> string list \<times> string list)" where
  "wasm_sign_transaction S alpha response tx_hash_hex ring_pubkeys_array real_index real_privkey_hex =
     ebind (from_hex tx_hash_hex) (\<lambda>th.
     ebind (checked_key Wasm_bad_hash_length th) (\<lambda>txh.
     ebind (each (\<lambda>h. ebind (from_hex h) (checked_key Wasm_bad_ring_key_length)) ring_pubkeys_array) (\<lambda>ring.
     ebind (from_hex real_privkey_hex) (\<lambda>priv_bytes.
     ebind (checked_key Wasm_bad_private_key_length priv_bytes) (\<lambda>priv.
     ebind (ring_sign S txh ring real_index priv alpha response) (\<lambda>sg.
     Inr (to_hex (sig_key_image sg), to_hex (sig_c0 sg), map to_hex (sig_ring_pubkeys sg),
          map to_hex (sig_responses sg))))))))"

text \<open>The loops of the verification return \<^verbatim>\<open>false\<close> at the first key of another length.\<close>

fun wasm_keys :: "string list \<Rightarrow> error + bytes list option" where
  "wasm_keys [] = Inr (Some [])"
| "wasm_keys (h # hs) =
     ebind (from_hex h) (\<lambda>k.
       if length k \<noteq> 32 then Inr None
       else ebind (wasm_keys hs) (\<lambda>rest. Inr (case rest of None \<Rightarrow> None | Some ks \<Rightarrow> Some (k # ks))))"

definition wasm_verify_signature ::
  "sodium \<Rightarrow> string \<Rightarrow> string \<Rightarrow> string list \<Rightarrow> string \<Rightarrow> string list \<Rightarrow> error + bool" where
  "wasm_verify_signature S tx_hash_hex key_image_hex ring_pubkeys_array c0_hex responses_array =
     ebind (from_hex tx_hash_hex) (\<lambda>txh.
     if length txh \<noteq> 32 then Inr False
     else ebind (from_hex key_image_hex) (\<lambda>ki.
     ebind (from_hex c0_hex) (\<lambda>c0.
     if length ki \<noteq> 32 \<or> length c0 \<noteq> 32 then Inr False
     else ebind (wasm_keys ring_pubkeys_array) (\<lambda>ring.
     case ring of None \<Rightarrow> Inr False | Some ring \<Rightarrow>
     ebind (wasm_keys responses_array) (\<lambda>responses.
     case responses of None \<Rightarrow> Inr False | Some responses \<Rightarrow>
     ring_verify S txh \<lparr>sig_key_image = ki, sig_c0 = c0, sig_responses = responses, sig_ring_pubkeys = ring\<rparr>)))))"

section \<open>Lemmas\<close>

lemma wasm_keys_to_hex: "list_all (\<lambda>k. length k = 32) ks \<Longrightarrow> wasm_keys (map to_hex ks) = Inr (Some ks)"
  by (induction ks) simp_all

lemma each_copy_key:
  "list_all (\<lambda>k. length k = 32) ks \<Longrightarrow> each (\<lambda>h. ebind (from_hex h) copy_key) (map to_hex ks) = Inr ks"
  by (induction ks) (simp_all add: copy_key_def)

lemma each_checked_key:
  "list_all (\<lambda>k. length k = 32) ks \<Longrightarrow> each (\<lambda>h. ebind (from_hex h) (checked_key e)) (map to_hex ks) = Inr ks"
  by (induction ks) (simp_all add: checked_key_def)

end
