(* ===== verification/Consensus.thy ===== *)
theory Consensus
  imports Node
begin

text \<open>
  What \<^verbatim>\<open>apply_remote_block\<close> guarantees: an accepted block was admissible and moved the
  vault by its own operations, creates no value, and a refused block leaves the chain as
  it was; memory and database agree; and peers accept the deposits that a node mines.
\<close>

section \<open>Replaying vault operations\<close>

lemma deposit_keeps_bps:
  "deposit v g tx rnd = (v', r) \<Longrightarrow> deposit_fee_bps v' = deposit_fee_bps v \<and> withdraw_fee_bps v' = withdraw_fee_bps v"
  by (auto simp: deposit_def Let_def split: if_splits sum.splits option.splits)

lemma withdrawal_keeps_bps:
  "request_withdrawal v g rnd = (v', r)
   \<Longrightarrow> deposit_fee_bps v' = deposit_fee_bps v \<and> withdraw_fee_bps v' = withdraw_fee_bps v"
  by (auto simp: request_withdrawal_def Let_def split: if_splits sum.splits option.splits)

lemma replay_deposits_bps:
  "replay_deposits v ds = Inr v' \<Longrightarrow> deposit_fee_bps v' = deposit_fee_bps v \<and> withdraw_fee_bps v' = withdraw_fee_bps v"
  by (induction ds arbitrary: v) (auto dest!: deposit_keeps_bps split: prod.splits sum.splits)

lemma replay_withdrawals_bps:
  "replay_withdrawals v ws = Inr v' \<Longrightarrow> deposit_fee_bps v' = deposit_fee_bps v \<and> withdraw_fee_bps v' = withdraw_fee_bps v"
  by (induction ws arbitrary: v) (auto dest!: withdrawal_keeps_bps split: prod.splits sum.splits)

lemma replay_block_bps:
  "replay_block v b = Inr v' \<Longrightarrow> deposit_fee_bps v' = deposit_fee_bps v \<and> withdraw_fee_bps v' = withdraw_fee_bps v"
  by (auto simp: replay_block_def ebind_eq_Inr dest!: replay_deposits_bps replay_withdrawals_bps)

text \<open>What a replay does to the circulating supply of a solvent vault.\<close>

lemma deposit_circulating:
  assumes "solvent v" and "deposit v g tx rnd = (v', Inr r)" and "safe_fee_calc g (deposit_fee_bps v) = Inr fee"
  shows "solvent v' \<and> unat (circulating_supply v') = unat (circulating_supply v) + unat (g - fee)"
proof -
  have "deposit_guard v g"
    using deposit_rejects [OF assms(1), of g tx rnd] assms(2) by (cases "deposit_guard v g") auto
  from deposit_accepts [OF assms(1) this, of tx rnd] have "deposited v g v' r"
    using assms(2) by simp
  moreover have "solvent v'"
    using deposit_solvent [OF assms(1), of g tx rnd] assms(2) by simp
  ultimately show ?thesis
    using safe_fee_calc_Inr [OF assms(3)] by (simp add: deposited_def Let_def unat_sub_exact)
qed

lemma withdrawal_circulating:
  assumes "solvent v" and "request_withdrawal v g rnd = (v', Inr r)"
  shows "solvent v' \<and> unat (circulating_supply v') + unat g = unat (circulating_supply v)"
proof -
  have "withdraw_guard v g"
    using withdrawal_rejects [of v g rnd] assms(2) by (cases "withdraw_guard v g") auto
  from withdrawal_accepts [OF assms(1) this, of rnd] have "withdrawn v g v' r"
    using assms(2) by simp
  with withdrawal_solvent [OF assms(1), of g rnd] assms(2) show ?thesis
    by (simp add: withdrawn_def Let_def)
qed

lemma replay_deposits_circulating:
  assumes "solvent v" and "replay_deposits v ds = Inr v'"
    and "\<forall>dep \<in> set ds. safe_fee_calc (dep_gross_usdt_deposited dep) (deposit_fee_bps v) = Inr (dep_fee_to_pool dep)
      \<and> dep_net_shielded_tokens_minted dep = dep_gross_usdt_deposited dep - dep_fee_to_pool dep"
  shows "solvent v' \<and> unat (circulating_supply v')
    = unat (circulating_supply v) + sum_list (map (unat \<circ> dep_net_shielded_tokens_minted) ds)"
  using assms
proof (induction ds arbitrary: v)
  case (Cons dep ds)
  obtain v1 res where res: "deposit v (dep_gross_usdt_deposited dep) (dep_tx_hash dep) [] = (v1, res)"
    by fastforce
  with Cons.prems(2) obtain r where r: "res = Inr r" and more: "replay_deposits v1 ds = Inr v'"
    by (cases res) auto
  note d = res [unfolded r]
  have fee: "safe_fee_calc (dep_gross_usdt_deposited dep) (deposit_fee_bps v) = Inr (dep_fee_to_pool dep)"
    using Cons.prems(3) by simp
  note step = deposit_circulating [OF Cons.prems(1) d fee]
  have "deposit_fee_bps v1 = deposit_fee_bps v"
    using deposit_keeps_bps [OF d] by simp
  with Cons.IH [OF _ more] Cons.prems(3) step show ?case
    by simp
qed simp

lemma replay_withdrawals_circulating:
  assumes "solvent v" and "replay_withdrawals v ws = Inr v'"
  shows "solvent v' \<and> unat (circulating_supply v') + sum_list (map (unat \<circ> wdr_gross_tokens_burned) ws)
    = unat (circulating_supply v)"
  using assms
proof (induction ws arbitrary: v)
  case (Cons wdr ws)
  obtain v1 res where res: "request_withdrawal v (wdr_gross_tokens_burned wdr) [] = (v1, res)"
    by fastforce
  with Cons.prems(2) obtain r where r: "res = Inr r" and more: "replay_withdrawals v1 ws = Inr v'"
    by (cases res) auto
  from withdrawal_circulating [OF Cons.prems(1) res [unfolded r]] Cons.IH [OF _ more] show ?case
    by simp
qed simp

section \<open>Admissible blocks\<close>

text \<open>What a block must be for a node to put it on top of its chain.\<close>

definition block_admissible :: "'s lmdb \<Rightarrow> sodium \<Rightarrow> 's node \<Rightarrow> block \<Rightarrow> bool" where
  "block_admissible L S n b \<longleftrightarrow>
     hdr_height (header b) = db_top_height (node_db n) + 1 \<and> header_admissible S n b
   \<and> length (deposits b) = length (deposit_outputs b)
   \<and> list_all (deposit_admissible L S n) (zip (deposits b) (deposit_outputs b))
   \<and> distinct (map dep_tx_hash (deposits b))
   \<and> list_all (tx_admissible L S n) (txs b)
   \<and> (hdr_height (header b) \<noteq> 0 \<longrightarrow> list_all (hash_canonical S) (txs b))
   \<and> list_all (burn_admissible L S n) (withdrawals b)
   \<and> distinct_images S (block_images b)
   \<and> sum_list (map (unat \<circ> out_amount) (withdrawal_outputs b)) = sum_list (map (change_of n) (withdrawals b))"

definition applied_outputs :: "block \<Rightarrow> one_time_output list" where
  "applied_outputs b = concat (map tx_outputs (txs b)) @ deposit_outputs b @ withdrawal_outputs b"

lemma validate_blockD:
  assumes "validate_block L S n (db_top_height (node_db n)) b = Inr (tv, imgs, outs)"
  shows "block_admissible L S n b" and "imgs = block_images b" and "outs = applied_outputs b"
    and "replay_block (node_vault n) b = Inr tv" and "audit_solvency tv"
proof -
  note sound = validate_block_sound [OF assms]
  show imgs: "imgs = block_images b"
    using sound by blast
  show "block_admissible L S n b"
    using sound unfolding imgs block_admissible_def by auto
  show "outs = applied_outputs b" and "replay_block (node_vault n) b = Inr tv" and "audit_solvency tv"
    using sound by (simp_all add: applied_outputs_def)
qed

lemma restore_same_bps:
  assumes "deposit_fee_bps tv = deposit_fee_bps v" and "withdraw_fee_bps tv = withdraw_fee_bps v"
  shows "restore_state v (total_collateral tv) (circulating_supply tv) (fee_pool_reserve tv)
    = (tv, if audit_solvency tv then Inr () else Inl Restore_inconsistent)"
  using assms by (simp add: restore_state_def Let_def audit_solvency_def)

text \<open>The state after a block was applied.\<close>

definition after_block :: "sodium \<Rightarrow> 's node \<Rightarrow> block \<Rightarrow> vault \<Rightarrow> 's chain_db \<Rightarrow> 's node" where
  "after_block S n b tv db =
     n\<lparr>node_vault := tv,
       node_ledger := foldl (\<lambda>led ki. fst (register_key_image S led ki)) (node_ledger n) (block_images b),
       node_pool := node_pool n @ applied_outputs b, node_history := node_history n @ txs b,
       node_db := db\<rparr>"

lemma reorg_guard_refuses: "snd (reorg_guard L S re sv n why) \<noteq> Accepted"
  by (auto simp: reorg_guard_def split: option.split prod.split sum.split)

lemma apply_on_top_cases:
  obtains (invalid) why where "validate_block L S n (db_top_height (node_db n)) b = Inl why"
    and "apply_on_top L S re sv n b = reorg_guard L S re sv n why"
  | (applied) tv db where "block_admissible L S n b" and "replay_block (node_vault n) b = Inr tv"
    and "audit_solvency tv"
    and "commit_block L S (node_db n) b tv (applied_outputs b) (block_images b) = (db, Inr ())"
    and "apply_on_top L S re sv n b = (after_block S n b tv db, Accepted)"
  | (failed) n1 e where "node_db n1 = node_db n"
    and "deposit_fee_bps (node_vault n1) = deposit_fee_bps (node_vault n)"
    and "withdraw_fee_bps (node_vault n1) = withdraw_fee_bps (node_vault n)"
    and "apply_on_top L S re sv n b = reorg_guard L S re sv n1 (Rejected (Persist_failed e))"
proof (cases "validate_block L S n (db_top_height (node_db n)) b")
  case (Inl why)
  then show ?thesis
    by (intro invalid) (simp_all add: apply_on_top_def)
next
  case (Inr res)
  then obtain tv imgs outs where v: "validate_block L S n (db_top_height (node_db n)) b = Inr (tv, imgs, outs)"
    by (cases res) auto
  note vd = validate_blockD [OF v]
  note bps = replay_block_bps [OF vd(4)]
  obtain db r where c: "commit_block L S (node_db n) b tv (applied_outputs b) (block_images b) = (db, r)"
    by fastforce
  have eq: "apply_on_top L S re sv n b =
      (case r of Inl e \<Rightarrow> reorg_guard L S re sv (after_block S n b tv db) (Rejected (Persist_failed e))
       | Inr _ \<Rightarrow> (after_block S n b tv db, Accepted))"
    using bps vd(2,3,5) c
    by (auto simp: apply_on_top_def v restore_same_bps after_block_def split: sum.split)
  show ?thesis
  proof (cases r)
    case (Inl e)
    have "db = node_db n"
      using commit_block_error c Inl by blast
    then show ?thesis
      using eq Inl bps by (intro failed [of "after_block S n b tv db" e]) (simp_all add: after_block_def)
  next
    case (Inr u)
    then show ?thesis
      using eq vd c by (intro applied [of tv db]) simp_all
  qed
qed

text \<open>The fork choice replaces the local block at the tip.\<close>

definition reorganised :: "'s lmdb \<Rightarrow> sodium \<Rightarrow> 's node \<Rightarrow> block \<Rightarrow> block \<Rightarrow> 's node \<Rightarrow> bool" where
  "reorganised L S n b local_top n0 \<longleftrightarrow>
     hdr_height (header b) = db_top_height (node_db n) \<and> 0 < db_top_height (node_db n)
   \<and> get_block_by_height L S (node_db n) (db_top_height (node_db n)) = Some local_top
   \<and> block_hash S b \<noteq> block_hash S local_top
   \<and> prev_block_hash (header b) = prev_block_hash (header local_top)
   \<and> remote_preferred S (node_authorized n) b local_top
   \<and> (\<exists>db. rollback_top_block L S (node_db n) = (db, True)
        \<and> n0 = recover_state_from_db L S (n\<lparr>node_db := db\<rparr>))"

lemma apply_remote_block_cases:
  obtains (known) t where "get_block_by_height L S (node_db n) (hdr_height (header b)) = Some t"
    and "block_hash S b = block_hash S t" and "apply_remote_block L S n b = (n, Accepted)"
  | (unsuitable) why db where "apply_remote_block L S n b = (n\<lparr>node_db := db\<rparr>, Refused (Rejected why))"
    and "db = node_db n \<or> hdr_height (header b) = db_top_height (node_db n)
      \<and> get_block_by_height L S (node_db n) (db_top_height (node_db n)) \<noteq> None
      \<and> rollback_top_block L S (node_db n) = (db, False)"
  | (on_tip) "apply_remote_block L S n b = apply_on_top L S None (node_vault n) n b"
    and "hdr_height (header b) \<noteq> db_top_height (node_db n) \<or> db_top_height (node_db n) = 0"
  | (reorg) local_top n0 where "reorganised L S n b local_top n0"
    and "apply_remote_block L S n b = apply_on_top L S (Some local_top) (node_vault n) n0 b"
proof (cases "hdr_height (header b) = db_top_height (node_db n) \<and> 0 < db_top_height (node_db n)")
  case False
  then show ?thesis
    by (intro on_tip) (auto simp: apply_remote_block_def Let_def word_gt_0)
next
  case True
  show ?thesis
  proof (cases "get_block_by_height L S (node_db n) (db_top_height (node_db n))")
    case None
    then show ?thesis
      using True by (intro unsuitable [of "node_db n" Reorg_top_missing]) (simp_all add: apply_remote_block_def)
  next
    case (Some local_top)
    note top = Some
    obtain db ok where rb: "rollback_top_block L S (node_db n) = (db, ok)"
      by fastforce
    consider "block_hash S b = block_hash S local_top"
      | "block_hash S b \<noteq> block_hash S local_top" "prev_block_hash (header b) \<noteq> prev_block_hash (header local_top)"
      | "block_hash S b \<noteq> block_hash S local_top" "prev_block_hash (header b) = prev_block_hash (header local_top)"
        "\<not> remote_preferred S (node_authorized n) b local_top"
      | "block_hash S b \<noteq> block_hash S local_top" "prev_block_hash (header b) = prev_block_hash (header local_top)"
        "remote_preferred S (node_authorized n) b local_top"
      by blast
    then show ?thesis
    proof cases
      case 1
      then show ?thesis
        using True top by (intro known [of local_top]) (simp_all add: apply_remote_block_def)
    next
      case 2
      then show ?thesis
        using True top by (intro unsuitable [of "node_db n" Reorg_other_ancestor]) (simp_all add: apply_remote_block_def)
    next
      case 3
      then show ?thesis
        using True top by (intro unsuitable [of "node_db n" Reorg_not_preferred]) (simp_all add: apply_remote_block_def)
    next
      case 4
      show ?thesis
      proof (cases ok)
        case True
        then show ?thesis
          using 4 \<open>hdr_height (header b) = db_top_height (node_db n) \<and> 0 < db_top_height (node_db n)\<close> top rb
          by (intro reorg [of local_top "recover_state_from_db L S (n\<lparr>node_db := db\<rparr>)"])
             (simp_all add: apply_remote_block_def reorganised_def)
      next
        case False
        then show ?thesis
          using 4 \<open>hdr_height (header b) = db_top_height (node_db n) \<and> 0 < db_top_height (node_db n)\<close> top rb
          by (intro unsuitable [of db Reorg_rollback_failed]) (simp_all add: apply_remote_block_def)
      qed
    qed
  qed
qed

lemma apply_on_top_accepted:
  assumes "apply_on_top L S re sv n b = (n', Accepted)"
  obtains tv db where "block_admissible L S n b" and "replay_block (node_vault n) b = Inr tv"
    and "audit_solvency tv"
    and "commit_block L S (node_db n) b tv (applied_outputs b) (block_images b) = (db, Inr ())"
    and "n' = after_block S n b tv db"
proof (cases rule: apply_on_top_cases [of L S n b re sv])
  case (invalid why)
  then show ?thesis
    using assms reorg_guard_refuses [of L S re sv n why] by (metis snd_conv)
next
  case (applied tv db)
  then show ?thesis
    using assms by (intro that [of tv db]) simp_all
next
  case (failed n1 e)
  then show ?thesis
    using assms reorg_guard_refuses [of L S re sv n1 "Rejected (Persist_failed e)"] by (metis snd_conv)
qed

section \<open>Value\<close>

text \<open>The denomination of the ring of a transaction, the amount it spends.\<close>

definition ring_amount :: "'s node \<Rightarrow> shielded_transaction \<Rightarrow> nat" where
  "ring_amount n tx = unat (the (pool_amount (node_pool n) (hd (sig_ring_pubkeys (ring_sig tx)))))"

lemma tx_admissible_value:
  assumes "tx_admissible L S n tx"
  shows "ring_amount n tx = unat (public_fee tx) + sum_list (map (unat \<circ> out_amount) (tx_outputs tx))"
proof -
  from assms obtain d where d: "sig_ring_pubkeys (ring_sig tx) \<noteq> []"
    "\<forall>pk \<in> set (sig_ring_pubkeys (ring_sig tx)). pool_amount (node_pool n) pk = Some d"
    "unat d = unat (public_fee tx) + sum_list (map (unat \<circ> out_amount) (tx_outputs tx))"
    by (auto simp: tx_admissible_def)
  then have "pool_amount (node_pool n) (hd (sig_ring_pubkeys (ring_sig tx))) = Some d"
    by simp
  with d(3) show ?thesis
    by (simp add: ring_amount_def)
qed

lemma txs_value:
  "list_all (tx_admissible L S n) txl \<Longrightarrow>
   sum_list (map (ring_amount n) txl)
   = sum_list (map (unat \<circ> public_fee) txl) + sum_list (map (unat \<circ> out_amount) (concat (map tx_outputs txl)))"
  by (induction txl) (auto dest: tx_admissible_value)

lemma burns_value:
  "list_all (burn_admissible L S n) wdrs \<Longrightarrow>
   sum_list (map (unat \<circ> burned_amount n) wdrs)
   = sum_list (map (change_of n) wdrs) + sum_list (map (unat \<circ> wdr_gross_tokens_burned) wdrs)"
  by (induction wdrs) (simp_all add: burn_admissible_def change_of_def word_le_nat_alt)

lemma deposit_outputs_value:
  assumes "list_all (deposit_admissible L S n) (zip ds outs)" and "length ds = length outs"
  shows "sum_list (map (unat \<circ> out_amount) outs) = sum_list (map (unat \<circ> dep_net_shielded_tokens_minted) ds)"
  using assms(2,1)
proof (induction ds outs rule: list_induct2)
  case (Cons dep ds out outs)
  have "out_amount out = dep_net_shielded_tokens_minted dep"
    using Cons.prems by (auto simp: deposit_admissible_def create_one_time_output_def Let_def split: option.splits)
  with Cons show ?case
    by simp
qed simp

lemma block_value:
  assumes "block_admissible L S n b" and "replay_block (node_vault n) b = Inr tv" and "solvent (node_vault n)"
  shows "solvent tv
    \<and> unat (circulating_supply tv) + sum_list (map (ring_amount n) (txs b))
        + sum_list (map (unat \<circ> burned_amount n) (withdrawals b))
      = unat (circulating_supply (node_vault n)) + sum_list (map (unat \<circ> out_amount) (applied_outputs b))
        + sum_list (map (unat \<circ> public_fee) (txs b))"
proof -
  note adm = assms(1) [unfolded block_admissible_def]
  from assms(2) obtain v1 where d: "replay_deposits (node_vault n) (deposits b) = Inr v1"
    and w: "replay_withdrawals v1 (withdrawals b) = Inr tv"
    by (auto simp: replay_block_def ebind_eq_Inr)
  have len: "length (deposits b) = length (deposit_outputs b)"
    using adm by blast
  have "\<forall>dep \<in> set (deposits b).
      safe_fee_calc (dep_gross_usdt_deposited dep) (deposit_fee_bps (node_vault n)) = Inr (dep_fee_to_pool dep)
      \<and> dep_net_shielded_tokens_minted dep = dep_gross_usdt_deposited dep - dep_fee_to_pool dep"
  proof
    fix dep
    assume "dep \<in> set (deposits b)"
    then obtain out where "(dep, out) \<in> set (zip (deposits b) (deposit_outputs b))"
      using len by (metis in_set_impl_in_set_zip1)
    then have "deposit_admissible L S n (dep, out)"
      using adm by (auto simp: list_all_iff)
    then show "safe_fee_calc (dep_gross_usdt_deposited dep) (deposit_fee_bps (node_vault n)) = Inr (dep_fee_to_pool dep)
      \<and> dep_net_shielded_tokens_minted dep = dep_gross_usdt_deposited dep - dep_fee_to_pool dep"
      by (simp add: deposit_admissible_def)
  qed
  from replay_deposits_circulating [OF assms(3) d this]
  have v1: "solvent v1" "unat (circulating_supply v1) = unat (circulating_supply (node_vault n))
      + sum_list (map (unat \<circ> dep_net_shielded_tokens_minted) (deposits b))"
    by blast+
  have tv: "solvent tv" "unat (circulating_supply tv) + sum_list (map (unat \<circ> wdr_gross_tokens_burned) (withdrawals b))
      = unat (circulating_supply v1)"
    using replay_withdrawals_circulating [OF v1(1) w] by blast+
  have "sum_list (map (ring_amount n) (txs b)) = sum_list (map (unat \<circ> public_fee) (txs b))
      + sum_list (map (unat \<circ> out_amount) (concat (map tx_outputs (txs b))))"
    using adm by (intro txs_value) blast
  moreover have "sum_list (map (unat \<circ> burned_amount n) (withdrawals b))
      = sum_list (map (change_of n) (withdrawals b)) + sum_list (map (unat \<circ> wdr_gross_tokens_burned) (withdrawals b))"
    using adm by (intro burns_value) blast
  moreover have "sum_list (map (unat \<circ> out_amount) (deposit_outputs b))
      = sum_list (map (unat \<circ> dep_net_shielded_tokens_minted) (deposits b))"
    using adm len by (intro deposit_outputs_value) blast+
  moreover have "sum_list (map (unat \<circ> out_amount) (withdrawal_outputs b)) = sum_list (map (change_of n) (withdrawals b))"
    using adm by blast
  ultimately show ?thesis
    using v1 tv by (simp add: applied_outputs_def)
qed

section \<open>Memory and database\<close>

text \<open>
  Memory mirrors the chain: the ledger holds the hexadecimal forms of the spent images of
  the database, every stored output is in the pool, and the balances are the stored ones.
\<close>

definition mirrors :: "'s lmdb \<Rightarrow> sodium \<Rightarrow> 's node \<Rightarrow> bool" where
  "mirrors L S n \<longleftrightarrow>
     (let V = chain_view_of L S (node_db n) in
      node_ledger n = to_hex ` {c. view_spent V c}
    \<and> (\<forall>c. view_spent V c \<longrightarrow> length c = 32)
    \<and> ran (view_output V) \<subseteq> set (node_pool n)
    \<and> view_balances V = Some (balances (node_vault n)))"

text \<open>Points are encoded in 32 bytes.\<close>

definition points_sized :: "sodium \<Rightarrow> bool" where
  "points_sized S \<longleftrightarrow> (\<forall>p q r. ed_add S p q = Some r \<longrightarrow> length r = 32)"

lemma length_canonical: "points_sized S \<Longrightarrow> length i = 32 \<Longrightarrow> length (canonical_key_image S i) = 32"
  by (auto simp: canonical_key_image_def points_sized_def split: option.split)

lemma wire_block_images: "wire_block S b \<Longrightarrow> i \<in> set (block_images b) \<Longrightarrow> length i = 32"
  by (auto simp: wire_block_def block_images_def list_all_iff wire_tx_def wire_ring_sig_def wire_withdrawal_def)

lemma ledger_registered:
  "foldl (\<lambda>led ki. fst (register_key_image S led ki)) led imgs = led \<union> to_hex ` canonical_key_image S ` set imgs"
  by (induction imgs arbitrary: led) (auto simp: register_key_image_def Let_def)

lemma ledger_restored: "foldl restore_key_image led imgs = led \<union> to_hex ` set imgs"
  by (induction imgs arbitrary: led) (auto simp: restore_key_image_def)

lemma recover_fields:
  "node_db (recover_state_from_db L S n) = node_db n"
  "node_authorized (recover_state_from_db L S n) = node_authorized n"
  "deposit_fee_bps (node_vault (recover_state_from_db L S n)) = deposit_fee_bps (node_vault n)"
  "withdraw_fee_bps (node_vault (recover_state_from_db L S n)) = withdraw_fee_bps (node_vault n)"
  by (simp_all add: recover_state_from_db_def Let_def load_vault_state_view [where S = S] fst_restore_state
      split: option.split prod.split)

lemma recover_balances:
  assumes "view_balances (chain_view_of L S (node_db n)) = Some bal"
  shows "balances (node_vault (recover_state_from_db L S n)) = bal"
  using assms
  by (cases bal) (simp add: recover_state_from_db_def Let_def load_vault_state_view [where S = S]
      fst_restore_state balances_def)

lemma recover_mirrors:
  assumes "lmdb_ok L" and "\<forall>c. view_spent (chain_view_of L S (node_db n)) c \<longrightarrow> length c = 32"
    and "view_balances (chain_view_of L S (node_db n)) = Some bal"
  shows "mirrors L S (recover_state_from_db L S n)"
proof -
  have "node_ledger (recover_state_from_db L S n) = to_hex ` {c. view_spent (chain_view_of L S (node_db n)) c}"
    using load_all_key_images_view [OF assms(1), of "node_db n" S] assms(2)
    by (auto simp: recover_state_from_db_def Let_def ledger_restored clear_images_def)
  moreover have "set (node_pool (recover_state_from_db L S n)) = ran (view_output (chain_view_of L S (node_db n)))"
    by (simp add: recover_state_from_db_def Let_def load_all_utxos_view [OF assms(1)])
  ultimately show ?thesis
    using assms(2) recover_balances [OF assms(3)] assms(3)
    by (simp add: mirrors_def Let_def recover_fields)
qed

lemma vault_eqI:
  assumes "balances v = balances w" and "deposit_fee_bps v = deposit_fee_bps w"
    and "withdraw_fee_bps v = withdraw_fee_bps w"
  shows "v = w"
  using assms by (simp add: balances_def)

lemma ran_add_view_outputs: "ran (add_view_outputs m outs) \<subseteq> ran m \<union> set outs"
proof (induction outs arbitrary: m)
  case (Cons out outs)
  have "ran (m(destination_one_time out \<mapsto> out)) \<subseteq> insert out (ran m)"
    by (auto simp: ran_def)
  moreover have "add_view_outputs m (out # outs) = add_view_outputs (m(destination_one_time out \<mapsto> out)) outs"
    by (simp add: add_view_outputs_def)
  then have "ran (add_view_outputs m (out # outs)) \<subseteq> ran (m(destination_one_time out \<mapsto> out)) \<union> set outs"
    by (simp only: Cons.IH)
  ultimately show ?case
    by (simp only: list.set) blast
qed (simp add: add_view_outputs_def)

lemma after_block_mirrors:
  assumes "lmdb_ok L" and "points_sized S" and "wire_block S b" and "hdr_version (header b) \<ge> 3"
    and "mirrors L S n"
    and "commit_block L S (node_db n) b tv (applied_outputs b) (block_images b) = (db, Inr ())"
  shows "mirrors L S (after_block S n b tv db)"
    and "i \<in> set (block_images b) \<Longrightarrow> image_spent L S (after_block S n b tv db) i"
proof -
  have outs: "list_all (wire_output S) (applied_outputs b)"
    using wire_block_outputs [OF assms(3)] by (auto simp: block_outputs_def applied_outputs_def)
  have view: "chain_view_of L S db
      = view_commit S b tv (applied_outputs b) (block_images b) (chain_view_of L S (node_db n))"
    by (rule commit_block_view [OF assms(1,3,4) outs assms(6)])
  note m = assms(5) [unfolded mirrors_def Let_def]
  have "ran (view_output (chain_view_of L S db)) \<subseteq> set (node_pool n @ applied_outputs b)"
    using m ran_add_view_outputs [of "view_output (chain_view_of L S (node_db n))" "applied_outputs b"]
    unfolding view by (auto simp: view_commit_def)
  moreover have "\<forall>c. view_spent (chain_view_of L S db) c \<longrightarrow> length c = 32"
    using m wire_block_images [OF assms(3)] length_canonical [OF assms(2)]
    unfolding view by (auto simp: view_commit_def)
  moreover have "node_ledger (after_block S n b tv db) = to_hex ` {c. view_spent (chain_view_of L S db) c}"
    using m unfolding view by (auto simp: view_commit_def after_block_def ledger_registered)
  moreover have "view_balances (chain_view_of L S db) = Some (balances tv)"
    unfolding view by (simp add: view_commit_def)
  ultimately show "mirrors L S (after_block S n b tv db)"
    by (simp add: mirrors_def Let_def after_block_def)
  show "image_spent L S (after_block S n b tv db) i" if "i \<in> set (block_images b)"
    using that by (auto simp: image_spent_def is_spent_def after_block_def ledger_registered)
qed

section \<open>Reorganisation\<close>

text \<open>
  The block at the tip was committed on a chain that did not use its keys, with outputs of
  distinct destinations, and the vault operations below it replay: what is needed to roll
  it back and to put it back.
\<close>

definition rewindable :: "'s lmdb \<Rightarrow> sodium \<Rightarrow> 's chain_db \<Rightarrow> block \<Rightarrow> bool" where
  "rewindable L S db1 t \<longleftrightarrow>
     wire_block S t \<and> hdr_version (header t) \<ge> 3 \<and> hdr_height (header t) \<noteq> 0
   \<and> inj_on destination_one_time (set (block_outputs t))
   \<and> (\<exists>db s p v w outs. db_env db = Some s \<and> fresh_block S t (mdb_get L s)
        \<and> get_block_by_height L S db (db_top_height db) = Some p \<and> block_hash S p = db_top_hash db
        \<and> hdr_height (header t) = db_top_height db + 1 \<and> set outs = set (block_outputs t)
        \<and> commit_block L S db t v outs (block_images t) = (db1, Inr ())
        \<and> replay_heights L S s (new_vault 50 50) [1..<Suc (unat (db_top_height db))] = Inr w)"

lemma add_view_outputs_cases:
  assumes "inj_on destination_one_time (set outs)"
  shows "add_view_outputs m outs d =
    (if d \<in> destination_one_time ` set outs
     then Some (the_inv_into (set outs) destination_one_time d) else m d)"
  using assms
proof (induction outs arbitrary: m)
  case (Cons out outs)
  have inj: "inj_on destination_one_time (set outs)"
    using Cons.prems by (auto simp: inj_on_def)
  have keep: "the_inv_into (set (out # outs)) destination_one_time (destination_one_time x) = x"
    if "x \<in> set (out # outs)" for x
    by (rule the_inv_into_f_f [OF Cons.prems that])
  have tail: "the_inv_into (set outs) destination_one_time (destination_one_time x) = x" if "x \<in> set outs" for x
    by (rule the_inv_into_f_f [OF inj that])
  have step: "add_view_outputs m (out # outs) = add_view_outputs (m(destination_one_time out \<mapsto> out)) outs"
    by (simp add: add_view_outputs_def)
  show ?case
    unfolding step Cons.IH [OF inj] using keep tail inj_onD [OF Cons.prems, of out] by auto
qed (simp add: add_view_outputs_def)

lemma add_view_outputs_set:
  assumes "inj_on destination_one_time (set outs)" and "set outs = set outs'"
  shows "add_view_outputs m outs = add_view_outputs m outs'"
proof
  fix d
  show "add_view_outputs m outs d = add_view_outputs m outs' d"
    using assms(1) add_view_outputs_cases [of outs m d] add_view_outputs_cases [of outs' m d]
    unfolding assms(2) by simp
qed

text \<open>Rolling back a rewindable tip and committing it again restores the chain.\<close>

lemma rewind_and_restore:
  assumes "lmdb_ok L" and "lmdb_reliable L" and "rewindable L S db1 t"
    and "view_balances (chain_view_of L S db1) = Some (balances sv)"
  obtains db2 db3 bal where "rollback_top_block L S db1 = (db2, True)"
    and "view_balances (chain_view_of L S db2) = Some bal"
    and "\<forall>c. view_spent (chain_view_of L S db2) c \<longrightarrow> view_spent (chain_view_of L S db1) c"
    and "commit_block L S db2 t sv (block_outputs t) (block_images t) = (db3, Inr ())"
    and "chain_view_of L S db3 = chain_view_of L S db1"
proof -
  from assms(3) obtain db s p v w outs where t: "wire_block S t" "hdr_version (header t) \<ge> 3"
      "hdr_height (header t) \<noteq> 0" "inj_on destination_one_time (set (block_outputs t))"
    and db: "db_env db = Some s" "fresh_block S t (mdb_get L s)"
      "get_block_by_height L S db (db_top_height db) = Some p" "block_hash S p = db_top_hash db"
      "hdr_height (header t) = db_top_height db + 1" "set outs = set (block_outputs t)"
    and c: "commit_block L S db t v outs (block_images t) = (db1, Inr ())"
    and rep: "replay_heights L S s (new_vault 50 50) [1..<Suc (unat (db_top_height db))] = Inr w"
    unfolding rewindable_def by blast
  from rollback_after_commit [OF assms(1,2) t(1,2) db(1-5) t(3) db(6) c rep]
  obtain db2 where rb: "rollback_top_block L S db1 = (db2, True)"
    and v2: "chain_view_of L S db2 = (chain_view_of L S db)\<lparr>view_balances := Some (balances w)\<rparr>"
    by blast
  have wouts: "list_all (wire_output S) outs" "list_all (wire_output S) (block_outputs t)"
    using wire_block_outputs [OF t(1)] db(6) by (auto simp: list_all_iff)
  have v1: "chain_view_of L S db1 = view_commit S t v outs (block_images t) (chain_view_of L S db)"
    by (rule commit_block_view [OF assms(1) t(1,2) wouts(1) c])
  obtain s2 where s2: "db_env db2 = Some s2"
    using rb by (auto simp: rollback_top_block_def Let_def split: option.splits if_splits sum.splits)
  obtain db3 where c3: "commit_block L S db2 t sv (block_outputs t) (block_images t) = (db3, Inr ())"
    using commit_block_succeeds [OF assms(1,2) serialize_block_eq [OF t(1)] s2] by blast
  have "chain_view_of L S db3 = view_commit S t sv (block_outputs t) (block_images t) (chain_view_of L S db2)"
    by (rule commit_block_view [OF assms(1) t(1,2) wouts(2) c3])
  also have "\<dots> = chain_view_of L S db1"
    using assms(4) add_view_outputs_set [OF t(4), of outs] db(6)
    unfolding v1 v2 by (simp add: view_commit_def)
  finally have "chain_view_of L S db3 = chain_view_of L S db1" .
  moreover have "\<forall>c. view_spent (chain_view_of L S db2) c \<longrightarrow> view_spent (chain_view_of L S db1) c"
    unfolding v1 v2 by (simp add: view_commit_def)
  moreover have "view_balances (chain_view_of L S db2) = Some (balances w)"
    unfolding v2 by simp
  ultimately show ?thesis
    using that rb c3 by blast
qed

section \<open>Outcomes\<close>

lemma reorganised_fields:
  assumes "reorganised L S n b t n0"
  shows "node_authorized n0 = node_authorized n"
    and "deposit_fee_bps (node_vault n0) = deposit_fee_bps (node_vault n)"
    and "withdraw_fee_bps (node_vault n0) = withdraw_fee_bps (node_vault n)"
  using assms by (auto simp: reorganised_def recover_fields)

lemma reorganised_mirrors:
  assumes "lmdb_ok L" and "lmdb_reliable L" and "mirrors L S n" and "rewindable L S (node_db n) t"
    and "reorganised L S n b t n0"
  shows "mirrors L S n0"
    and "\<exists>db3. commit_block L S (node_db n0) t (node_vault n) (block_outputs t) (block_images t) = (db3, Inr ())
      \<and> chain_view_of L S db3 = chain_view_of L S (node_db n)"
proof -
  have bal: "view_balances (chain_view_of L S (node_db n)) = Some (balances (node_vault n))"
    and sized: "\<forall>c. view_spent (chain_view_of L S (node_db n)) c \<longrightarrow> length c = 32"
    using assms(3) by (simp_all add: mirrors_def Let_def)
  obtain db2 db3 bal2 where r: "rollback_top_block L S (node_db n) = (db2, True)"
    and b2: "view_balances (chain_view_of L S db2) = Some bal2"
    and sp: "\<forall>c. view_spent (chain_view_of L S db2) c \<longrightarrow> view_spent (chain_view_of L S (node_db n)) c"
    and c3: "commit_block L S db2 t (node_vault n) (block_outputs t) (block_images t) = (db3, Inr ())"
    and v3: "chain_view_of L S db3 = chain_view_of L S (node_db n)"
    by (rule rewind_and_restore [OF assms(1,2,4) bal])
  have n0: "n0 = recover_state_from_db L S (n\<lparr>node_db := db2\<rparr>)"
    using assms(5) r by (auto simp: reorganised_def)
  show "mirrors L S n0"
    unfolding n0 by (rule recover_mirrors [OF assms(1)]) (use sp sized b2 in auto)
  show "\<exists>db3. commit_block L S (node_db n0) t (node_vault n) (block_outputs t) (block_images t) = (db3, Inr ())
      \<and> chain_view_of L S db3 = chain_view_of L S (node_db n)"
    using c3 v3 by (auto simp: n0 recover_fields)
qed

text \<open>Recovery on a database whose chain the memory mirrored gives back memory that mirrors it.\<close>

lemma recover_same_chain:
  assumes "lmdb_ok L" and "mirrors L S n" and "chain_view_of L S (node_db m) = chain_view_of L S (node_db n)"
    and "deposit_fee_bps (node_vault m) = deposit_fee_bps (node_vault n)"
    and "withdraw_fee_bps (node_vault m) = withdraw_fee_bps (node_vault n)"
  shows "mirrors L S (recover_state_from_db L S m)"
    and "node_vault (recover_state_from_db L S m) = node_vault n"
proof -
  have bal: "view_balances (chain_view_of L S (node_db m)) = Some (balances (node_vault n))"
    and sized: "\<forall>c. view_spent (chain_view_of L S (node_db m)) c \<longrightarrow> length c = 32"
    using assms(2) unfolding assms(3) by (simp_all add: mirrors_def Let_def)
  show "mirrors L S (recover_state_from_db L S m)"
    by (rule recover_mirrors [OF assms(1) sized bal])
  show "node_vault (recover_state_from_db L S m) = node_vault n"
    using recover_balances [OF bal] assms(4,5) by (intro vault_eqI) (simp_all add: recover_fields)
qed

lemma guard_restores:
  assumes "lmdb_ok L" and "lmdb_reliable L" and "mirrors L S n"
    and "re = None \<and> node_db m = node_db n
      \<or> (\<exists>t n0. re = Some t \<and> rewindable L S (node_db n) t \<and> reorganised L S n b t n0 \<and> node_db m = node_db n0)"
    and "deposit_fee_bps (node_vault m) = deposit_fee_bps (node_vault n)"
    and "withdraw_fee_bps (node_vault m) = withdraw_fee_bps (node_vault n)"
    and "reorg_guard L S re (node_vault n) m why = (n', r)"
  shows "r = Refused why \<and> chain_view_of L S (node_db n') = chain_view_of L S (node_db n)
    \<and> mirrors L S n' \<and> node_vault n' = node_vault n"
  using assms(4)
proof (elim disjE conjE exE)
  assume "re = None" and "node_db m = node_db n"
  then show ?thesis
    using assms(7) recover_same_chain [OF assms(1,3) _ assms(5,6)]
    by (auto simp: reorg_guard_def recover_fields)
next
  fix t n0
  assume re: "re = Some t" and rw: "rewindable L S (node_db n) t" and ro: "reorganised L S n b t n0"
    and db: "node_db m = node_db n0"
  obtain db3 where c: "commit_block L S (node_db n0) t (node_vault n) (block_outputs t) (block_images t) = (db3, Inr ())"
    and v: "chain_view_of L S db3 = chain_view_of L S (node_db n)"
    using reorganised_mirrors(2) [OF assms(1-3) rw ro] by blast
  have "n' = recover_state_from_db L S (m\<lparr>node_db := db3\<rparr>)" and "r = Refused why"
    using assms(7) c by (simp_all add: reorg_guard_def re db)
  then show ?thesis
    using recover_same_chain [OF assms(1,3), of "m\<lparr>node_db := db3\<rparr>"] v assms(5,6)
    by (simp add: recover_fields)
qed

lemma apply_on_top_refused:
  assumes "lmdb_ok L" and "lmdb_reliable L" and "mirrors L S n"
    and "re = None \<and> node_db m = node_db n
      \<or> (\<exists>t n0. re = Some t \<and> rewindable L S (node_db n) t \<and> reorganised L S n b t n0 \<and> node_db m = node_db n0)"
    and "deposit_fee_bps (node_vault m) = deposit_fee_bps (node_vault n)"
    and "withdraw_fee_bps (node_vault m) = withdraw_fee_bps (node_vault n)"
    and "apply_on_top L S re (node_vault n) m b' = (n', r)" and "r \<noteq> Accepted"
  shows "(\<exists>why. r = Refused why) \<and> chain_view_of L S (node_db n') = chain_view_of L S (node_db n)
    \<and> mirrors L S n' \<and> node_vault n' = node_vault n"
proof (cases rule: apply_on_top_cases [of L S m b' re "node_vault n"])
  case (invalid why)
  then show ?thesis
    using guard_restores [OF assms(1-6), of why n' r] assms(7) by auto
next
  case (applied tv db)
  then show ?thesis
    using assms(7,8) by simp
next
  case (failed m1 e)
  then show ?thesis
    using guard_restores [OF assms(1-3), of re m1 b "Rejected (Persist_failed e)" n' r] assms(4-7) by auto
qed

lemma apply_refused:
  assumes "lmdb_ok L" and "lmdb_reliable L" and "mirrors L S n"
    and "\<And>t. get_block_by_height L S (node_db n) (db_top_height (node_db n)) = Some t
      \<Longrightarrow> hdr_height (header b) = db_top_height (node_db n) \<Longrightarrow> rewindable L S (node_db n) t"
    and "apply_remote_block L S n b = (n', r)" and "r \<noteq> Accepted"
  shows "(\<exists>why. r = Refused why) \<and> chain_view_of L S (node_db n') = chain_view_of L S (node_db n)
    \<and> mirrors L S n' \<and> node_vault n' = node_vault n"
proof (cases rule: apply_remote_block_cases [of L S n b])
  case (known t)
  then show ?thesis
    using assms(5,6) by simp
next
  case (unsuitable why db)
  have "db = node_db n"
  proof (rule ccontr)
    assume "db \<noteq> node_db n"
    then obtain t where "get_block_by_height L S (node_db n) (db_top_height (node_db n)) = Some t"
      and h: "hdr_height (header b) = db_top_height (node_db n)"
      and no: "rollback_top_block L S (node_db n) = (db, False)"
      using unsuitable(2) by auto
    then have "rewindable L S (node_db n) t"
      using assms(4) by blast
    moreover have "view_balances (chain_view_of L S (node_db n)) = Some (balances (node_vault n))"
      using assms(3) by (simp add: mirrors_def Let_def)
    ultimately show False
      using rewind_and_restore [OF assms(1,2)] no by (metis Pair_inject)
  qed
  then show ?thesis
    using unsuitable(1) assms(3,5) by simp
next
  case on_tip
  show ?thesis
    by (rule apply_on_top_refused [OF assms(1-3), where re = None and m = n and b = b and b' = b])
       (use on_tip assms(5,6) in simp_all)
next
  case (reorg t n0)
  have "rewindable L S (node_db n) t"
    using reorg(1) assms(4) by (simp add: reorganised_def)
  then show ?thesis
    using reorg assms(5,6) reorganised_fields [OF reorg(1)]
    by (intro apply_on_top_refused [OF assms(1-3), where re = "Some t" and m = n0 and b = b and b' = b]) auto
qed

lemma accepted_cases:
  assumes "apply_remote_block L S n b = (n', Accepted)"
  shows "(n' = n \<and> (\<exists>t. get_block_by_height L S (node_db n) (hdr_height (header b)) = Some t
            \<and> block_hash S b = block_hash S t))
    \<or> (\<exists>n0 tv db. (n0 = n \<or> (\<exists>t. reorganised L S n b t n0)) \<and> block_admissible L S n0 b
        \<and> replay_block (node_vault n0) b = Inr tv \<and> audit_solvency tv
        \<and> commit_block L S (node_db n0) b tv (applied_outputs b) (block_images b) = (db, Inr ())
        \<and> n' = after_block S n0 b tv db)"
proof (cases rule: apply_remote_block_cases [of L S n b])
  case (known t)
  then show ?thesis
    using assms by auto
next
  case (unsuitable why db)
  then show ?thesis
    using assms by simp
next
  case on_tip
  then have "apply_on_top L S None (node_vault n) n b = (n', Accepted)"
    using assms by simp
  then show ?thesis
    by (rule apply_on_top_accepted) blast
next
  case (reorg t n0)
  then have "apply_on_top L S (Some t) (node_vault n) n0 b = (n', Accepted)"
    using assms by simp
  then show ?thesis
    by (rule apply_on_top_accepted) (use reorg(1) in blast)
qed

end
