(* ===== verification/Peers.thy ===== *)
theory Peers
  imports Consensus
begin

text \<open>
  What the blocks of a node mean to its peers: a peer that follows the same chain accepts
  the deposit and the transaction that a node mined, and the properties of
  \<^verbatim>\<open>apply_remote_block\<close> with the toy chain on which their witnesses compute.
\<close>

section \<open>Mined blocks\<close>

lemma block_leaves_header: "block_leaves S (b\<lparr>header := h\<rparr>) = block_leaves S b"
  by (simp add: block_leaves_def)

lemma merkle_root_header: "compute_merkle_root S (b\<lparr>header := h\<rparr>) = compute_merkle_root S b"
  by (simp add: compute_merkle_root_def block_leaves_header)

text \<open>The fields of a header that signing does not touch.\<close>

definition same_frame :: "block_header \<Rightarrow> block_header \<Rightarrow> bool" where
  "same_frame h g \<longleftrightarrow> hdr_version h = hdr_version g \<and> hdr_height h = hdr_height g
     \<and> prev_block_hash h = prev_block_hash g \<and> merkle_root h = merkle_root g"

lemma same_frame_sign: "same_frame (sign_header S h sk pk) h"
  by (simp add: same_frame_def sign_header_def add_quorum_signature_def Let_def)

lemma same_frame_cosign: "same_frame (foldl (cosign S) h keys) h"
proof (induction keys arbitrary: h)
  case (Cons k keys)
  have "same_frame (cosign S h k) h"
    by (simp add: same_frame_def cosign_def add_quorum_signature_def Let_def)
  with Cons [of "cosign S h k"] show ?case
    by (simp add: same_frame_def)
qed (simp add: same_frame_def)

lemma seal_blockD:
  assumes "seal_block S n b = Inr b'"
  obtains h where "b' = b\<lparr>header := h\<rparr>" and "compute_merkle_root S b = Inr (merkle_root h)"
    and "hdr_version h = hdr_version (header b)" and "hdr_height h = hdr_height (header b)"
    and "prev_block_hash h = prev_block_hash (header b)"
proof -
  from assms obtain root where root: "compute_merkle_root S b = Inr root"
    and b': "b' = b\<lparr>header := (if node_has_validator_key n
        then sign_header S ((header b)\<lparr>merkle_root := root\<rparr>) (node_validator_secret n) (node_validator_pub n)
        else (header b)\<lparr>merkle_root := root\<rparr>)\<rparr>"
    by (auto simp: seal_block_def ebind_eq_Inr Let_def)
  show ?thesis
    by (rule that [OF b'])
       (use root same_frame_sign [of S "(header b)\<lparr>merkle_root := root\<rparr>"] in \<open>auto simp: same_frame_def\<close>)
qed

text \<open>What the vault does with a deposit does not depend on the transaction hash.\<close>

lemma deposit_any_hash:
  assumes "deposit v g tx rnd = (v', Inr r)"
  obtains r' where "deposit v g tx' rnd' = (v', Inr r')"
  using assms by (auto simp: deposit_def Let_def split: if_splits sum.splits option.splits)

lemma deposit_receiptD:
  assumes "deposit v g tx rnd = (v', Inr r)"
  shows "g \<noteq> 0" and "dep_gross_usdt_deposited r = g" and "safe_fee_calc g (deposit_fee_bps v) = Inr (dep_fee_to_pool r)"
    and "dep_net_shielded_tokens_minted r = g - dep_fee_to_pool r" and "dep_tx_hash r \<noteq> []"
    and "audit_solvency v'"
  using assms
  by (auto simp: deposit_def Let_def audit_solvency_def safe_sub_amount_eq_Some
      split: if_splits sum.splits option.splits)

text \<open>A purchase that succeeds.\<close>

lemma buy_shieldedD:
  assumes "buy_shielded L S rh now n gross recipient ctx ts keys = (n', Inr receipt)"
  obtains v r utxo b db where "deposit (node_vault n) gross ctx rh = (v, Inr r)"
    and "receipt = r\<lparr>dep_recipient_view_pub := addr_view_public_key recipient,
                    dep_recipient_spend_pub := addr_spend_public_key recipient\<rparr>"
    and "create_one_time_output S recipient (dep_net_shielded_tokens_minted receipt)
      (Some (deposit_seed S (dep_tx_hash receipt))) [] = Inr utxo"
    and "deposits b = [receipt]" "deposit_outputs b = [utxo]" "txs b = []" "withdrawals b = []"
      "withdrawal_outputs b = []"
    and "compute_merkle_root S b = Inr (merkle_root (header b))"
    and "hdr_version (header b) = PROTOCOL_VERSION" "hdr_height (header b) = db_top_height (node_db n) + 1"
      "prev_block_hash (header b) = db_top_hash (node_db n)"
    and "node_authorized n \<noteq> [] \<longrightarrow> required_quorum n \<le> verify_quorum S (header b) (node_authorized n)"
    and "commit_block L S (node_db n) b v [utxo] [] = (db, Inr ())"
    and "node_vault n' = v" and "node_db n' = db"
    and "node_announced n' = (if node_callback_set n then node_announced n @ [b] else node_announced n)"
proof -
  obtain v res where d: "deposit (node_vault n) gross ctx rh = (v, res)"
    by fastforce
  with assms obtain r where r: "res = Inr r"
    by (cases res) (auto simp: buy_shielded_def Let_def)
  define rc where "rc = r\<lparr>dep_recipient_view_pub := addr_view_public_key recipient,
                         dep_recipient_spend_pub := addr_spend_public_key recipient\<rparr>"
  have rc_net: "dep_net_shielded_tokens_minted rc = dep_net_shielded_tokens_minted r"
    and rc_tx: "dep_tx_hash rc = dep_tx_hash r"
    by (simp_all add: rc_def)
  from assms obtain utxo where utxo: "create_one_time_output S recipient (dep_net_shielded_tokens_minted rc)
      (Some (deposit_seed S (dep_tx_hash rc))) [] = Inr utxo"
    by (auto simp: buy_shielded_def Let_def d r rc_net rc_tx deposit_seed_def split: sum.splits)
  define n1 where "n1 = n\<lparr>node_vault := v, node_pool := node_pool n @ [utxo]\<rparr>"
  define b0 where "b0 = (next_block n1 (if ts > 0 then ts else now))\<lparr>deposits := [rc], deposit_outputs := [utxo]\<rparr>"
  define mined where "mined b = b\<lparr>header := foldl (cosign S) (header b) keys\<rparr>" for b :: block
  have n1: "node_authorized n1 = node_authorized n" "required_quorum n1 = required_quorum n"
    "node_vault n1 = v" "node_db n1 = node_db n" "node_announced n1 = node_announced n"
    "node_callback_set n1 = node_callback_set n"
    by (simp_all add: n1_def required_quorum_def)
  obtain sealed where sealed: "seal_block S n1 b0 = Inr sealed"
    and good: "node_authorized n \<noteq> [] \<longrightarrow> required_quorum n \<le> verify_quorum S (header (mined sealed)) (node_authorized n)"
    and com: "(case commit_or_recover L S n1 (mined sealed) [utxo] [] of
        (n2, Inl e) \<Rightarrow> (n2, Inl e) | (n2, Inr _) \<Rightarrow> (n2, Inr rc)) = (n', Inr receipt)"
  proof (cases "seal_block S n1 b0")
    case (Inl e)
    then show ?thesis
      using assms utxo rc_net rc_tx
      by (simp add: buy_shielded_def Let_def d r rc_def [symmetric] n1_def b0_def deposit_seed_def)
  next
    case (Inr sealed)
    then show ?thesis
      using assms utxo rc_net rc_tx that [of sealed] n1
      by (auto simp: buy_shielded_def Let_def d r rc_def [symmetric] n1_def [symmetric] b0_def [symmetric]
          deposit_seed_def mined_def not_less split: if_splits sum.splits prod.splits)
  qed
  obtain h where h: "sealed = b0\<lparr>header := h\<rparr>" "compute_merkle_root S b0 = Inr (merkle_root h)"
    "hdr_version h = hdr_version (header b0)" "hdr_height h = hdr_height (header b0)"
    "prev_block_hash h = prev_block_hash (header b0)"
    by (rule seal_blockD [OF sealed])
  have frame: "same_frame (header (mined sealed)) h"
    using same_frame_cosign [of S h keys] by (simp add: mined_def h(1))
  have body: "deposits (mined sealed) = [rc]" "deposit_outputs (mined sealed) = [utxo]"
    "txs (mined sealed) = []" "withdrawals (mined sealed) = []" "withdrawal_outputs (mined sealed) = []"
    by (simp_all add: mined_def h(1) b0_def next_block_def empty_block_def)
  have root: "compute_merkle_root S (mined sealed) = Inr (merkle_root (header (mined sealed)))"
    using h(2) frame by (simp add: mined_def h(1) merkle_root_header same_frame_def)
  have top: "hdr_version (header (mined sealed)) = PROTOCOL_VERSION"
    "hdr_height (header (mined sealed)) = db_top_height (node_db n) + 1"
    "prev_block_hash (header (mined sealed)) = db_top_hash (node_db n)"
    using h(3-5) frame by (simp_all add: same_frame_def b0_def next_block_def default_header_def n1)
  obtain db res where c: "commit_block L S (node_db n) (mined sealed) v [utxo] [] = (db, res)"
    by fastforce
  with com obtain u where ok: "res = Inr u"
    by (cases res) (auto simp: commit_or_recover_def n1)
  have rc: "receipt = rc" and n': "node_vault n' = v" "node_db n' = db"
    "node_announced n' = (if node_callback_set n then node_announced n @ [mined sealed] else node_announced n)"
    using com c ok n1 by (auto simp: commit_or_recover_def)
  show ?thesis
    by (rule that [of v r utxo "mined sealed" db])
       (use d r rc rc_def utxo body root top good c ok n' in simp_all)
qed

section \<open>Deposits mined by a peer\<close>

text \<open>
  The recipient's keys are points and the derived scalars are not zero: what the miner
  does not check and its peers do.
\<close>

definition derivation_ok :: "sodium \<Rightarrow> stealth_address \<Rightarrow> string \<Rightarrow> bool" where
  "derivation_ok S recipient txh \<longleftrightarrow>
     list_ex (\<lambda>x. x \<noteq> 0) (addr_view_public_key recipient)
   \<and> is_valid_point S (addr_view_public_key recipient) \<and> is_valid_point S (addr_spend_public_key recipient)
   \<and> (let r = scalar_reduce S (generichash S 64 (deposit_seed S txh) []) in
      nonzero_scalar S r
    \<and> (case mult_noclamp S r (addr_view_public_key recipient) of
         None \<Rightarrow> True
       | Some rB \<Rightarrow> (let h = scalar_reduce S (generichash S 64 rB []) in
           nonzero_scalar S h
         \<and> (case ed_add S (base_point S h) (addr_spend_public_key recipient) of
              None \<Rightarrow> True | Some P \<Rightarrow> is_valid_point S P))))"

lemma check_derivation_complete:
  assumes "create_one_time_output S recipient a (Some (deposit_seed S (dep_tx_hash dep))) [] = Inr out"
    and "derivation_ok S recipient (dep_tx_hash dep)"
    and "dep_recipient_view_pub dep = addr_view_public_key recipient"
    and "dep_recipient_spend_pub dep = addr_spend_public_key recipient"
  shows "check_derivation S dep out = Inr ()"
  using assms
  by (auto simp: check_derivation_def create_one_time_output_def derivation_ok_def nonzero_scalar_def
      base_point_def deposit_seed_def Let_def case_prod_beta split: option.splits)

text \<open>A peer at the same tip, with the same vault, validators and threshold.\<close>

definition follows :: "'s node \<Rightarrow> 's node \<Rightarrow> bool" where
  "follows n m \<longleftrightarrow>
     db_top_height (node_db m) = db_top_height (node_db n) \<and> db_top_hash (node_db m) = db_top_hash (node_db n)
   \<and> node_vault m = node_vault n \<and> node_authorized m = node_authorized n
   \<and> node_threshold m = node_threshold n \<and> db_env (node_db m) \<noteq> None"

lemma temporary_vault_solvent: "audit_solvency v \<Longrightarrow> temporary_vault v = Inr v"
  by (simp add: temporary_vault_eq)

lemma next_height: "(h :: u64) + 1 \<noteq> h"
  by simp

lemma mined_deposit_peer:
  assumes "lmdb_ok L" and "lmdb_reliable L"
    and "buy_shielded L S rh now n gross recipient ctx ts keys = (n', Inr receipt)"
    and "node_callback_set n" and "node_authorized n \<noteq> []" and "audit_solvency (node_vault n)"
    and "derivation_ok S recipient (dep_tx_hash receipt)"
    and "follows n m" and "\<not> is_deposit_tx_processed L (node_db m) (dep_tx_hash receipt)"
  obtains b db where "node_announced n' = node_announced n @ [b]" and "deposits b = [receipt]"
    and "commit_block L S (node_db m) b (node_vault n') (applied_outputs b) [] = (db, Inr ())"
    and "apply_remote_block L S m b = (after_block S m b (node_vault n') db, Accepted)"
proof -
  obtain v r utxo b db0 where d: "deposit (node_vault n) gross ctx rh = (v, Inr r)"
    and rc: "receipt = r\<lparr>dep_recipient_view_pub := addr_view_public_key recipient,
                    dep_recipient_spend_pub := addr_spend_public_key recipient\<rparr>"
    and utxo: "create_one_time_output S recipient (dep_net_shielded_tokens_minted receipt)
      (Some (deposit_seed S (dep_tx_hash receipt))) [] = Inr utxo"
    and body: "deposits b = [receipt]" "deposit_outputs b = [utxo]" "txs b = []" "withdrawals b = []"
      "withdrawal_outputs b = []"
    and root: "compute_merkle_root S b = Inr (merkle_root (header b))"
    and version: "hdr_version (header b) = PROTOCOL_VERSION"
    and top: "hdr_height (header b) = db_top_height (node_db n) + 1"
      "prev_block_hash (header b) = db_top_hash (node_db n)"
    and quorum: "node_authorized n \<noteq> [] \<longrightarrow> required_quorum n \<le> verify_quorum S (header b) (node_authorized n)"
    and com: "commit_block L S (node_db n) b v [utxo] [] = (db0, Inr ())"
    and n': "node_vault n' = v" "node_db n' = db0"
      "node_announced n' = (if node_callback_set n then node_announced n @ [b] else node_announced n)"
    by (rule buy_shieldedD [OF assms(3)])
  have m: "db_top_height (node_db m) = db_top_height (node_db n)" "db_top_hash (node_db m) = db_top_hash (node_db n)"
    "node_vault m = node_vault n" "node_authorized m = node_authorized n" "required_quorum m = required_quorum n"
    using assms(8) by (simp_all add: follows_def required_quorum_def)
  note rd = deposit_receiptD [OF d]
  have fields: "dep_gross_usdt_deposited receipt = gross" "dep_fee_to_pool receipt = dep_fee_to_pool r"
    "dep_net_shielded_tokens_minted receipt = gross - dep_fee_to_pool r" "dep_tx_hash receipt \<noteq> []"
    "dep_recipient_view_pub receipt = addr_view_public_key recipient"
    "dep_recipient_spend_pub receipt = addr_spend_public_key recipient"
    using rd by (simp_all add: rc)
  obtain r' where again: "deposit (node_vault n) gross (dep_tx_hash receipt) [] = (v, Inr r')"
    using deposit_any_hash [OF d] by blast
  have amount: "out_amount utxo = gross - dep_fee_to_pool r"
    using utxo fields(3) by (auto simp: create_one_time_output_def Let_def split: option.splits)
  have hdr: "check_header S m (db_top_height (node_db m)) b = Inr ()"
    using quorum assms(5) by (simp add: check_header_def m top root body throwing_def)
  have dep: "check_deposits L S m [] (node_vault n) [(receipt, utxo)] = Inr v"
    using assms(9) rd(1,3) fields again amount
      check_derivation_complete [OF utxo assms(7) fields(5,6)]
    by (simp add: m throwing_def)
  have val: "validate_block L S m (db_top_height (node_db m)) b = Inr (v, [], [utxo])"
    unfolding validate_block_def hdr m(3) temporary_vault_solvent [OF assms(6)]
    using rd(6) by (simp add: dep body throwing_def del: check_deposits.simps)
  have bps: "deposit_fee_bps v = deposit_fee_bps (node_vault m)" "withdraw_fee_bps v = withdraw_fee_bps (node_vault m)"
    using deposit_keeps_bps [OF d] by (simp_all add: m)
  obtain bs where bs: "serialize_block b = Inr bs"
    using com by (auto simp: commit_block_def write_block_def Let_def ebind_eq_Inr split: option.splits if_splits sum.splits)
  obtain s where s: "db_env (node_db m) = Some s"
    using assms(8) by (auto simp: follows_def)
  have outs: "applied_outputs b = [utxo]"
    by (simp add: applied_outputs_def body)
  obtain db where c: "commit_block L S (node_db m) b v [utxo] [] = (db, Inr ())"
    using commit_block_succeeds [OF assms(1,2) bs s] by blast
  have "apply_on_top L S None (node_vault m) m b = (after_block S m b v db, Accepted)"
    using c by (simp add: apply_on_top_def val restore_same_bps [OF bps] rd(6) after_block_def outs
        block_images_def body)
  then have "apply_remote_block L S m b = (after_block S m b v db, Accepted)"
    by (simp add: apply_remote_block_def Let_def m top)
  then show ?thesis
    using that [of b db] n' assms(4) body(1) c by (simp add: outs)
qed

section \<open>Transactions mined by a peer\<close>

lemma sum_outputs_reports:
  "sum_outputs ez eo t outs = Inr r \<Longrightarrow> sum_outputs ez' eo' t outs = Inr r"
  by (induction outs arbitrary: t) (auto split: if_splits option.splits)

lemma ring_denomination_reports:
  "ring_denomination em eu pool d pks = Inr r \<Longrightarrow> ring_denomination em' eu' pool d pks = Inr r"
  by (induction pks arbitrary: d) (auto split: if_splits option.splits)

text \<open>What a node checks of a submitted transaction covers what its peers check.\<close>

lemma check_submitted_tx:
  assumes "check_submitted L S n tx = Inr ()" and "node_pool m = node_pool n"
    and "image_spent L S m (sig_key_image (ring_sig tx)) = image_spent L S n (sig_key_image (ring_sig tx))"
  shows "check_tx L S m h [] tx = Inr ()"
proof -
  from assms(1) obtain d where
    unspent: "\<not> image_spent L S n (sig_key_image (ring_sig tx))"
    and ring: "\<not> ring_has_duplicates (sig_ring_pubkeys (ring_sig tx))"
      "ring_denomination (Node_error Submit_ring_mixed) (Node_error Submit_ring_unknown) (node_pool n) None
         (sig_ring_pubkeys (ring_sig tx)) = Inr (Some d)"
    and sum: "sum_outputs (Node_error Submit_zero_output) (Node_error Submit_amount_overflow)
         (public_fee tx) (tx_outputs tx) = Inr d"
    and hash: "tx_hash tx = compute_canonical_tx_hash S (tx_outputs tx) (public_fee tx)
         (sig_ring_pubkeys (ring_sig tx)) (sig_key_image (ring_sig tx))"
    and ver: "ring_verify S (tx_hash tx) (ring_sig tx) = Inr True"
    by (auto simp: check_submitted_def ebind_eq_Inr Let_def split: if_splits option.splits)
  show ?thesis
    using unspent ring(1) ver hash assms(2,3)
      ring_denomination_reports [OF ring(2), of "Rejected Tx_ring_mixed" "Rejected Tx_ring_unknown"]
      sum_outputs_reports [OF sum, of "Rejected Tx_zero_output" "Rejected Tx_amount_overflow"]
    by (simp add: check_tx_def throwing_def tx_hash_valid_def in_block_double_def)
qed

text \<open>The local validator, if the chain has validators, is one of them and its key pair signs.\<close>

definition validator_ready :: "sodium \<Rightarrow> 's node \<Rightarrow> bool" where
  "validator_ready S n \<longleftrightarrow> node_authorized n = []
     \<or> node_has_validator_key n \<and> node_validator_pub n \<in> set (node_authorized n)
     \<and> \<not> list_all (\<lambda>b. b = 0) (node_validator_pub n)
     \<and> (\<forall>msg. verify_detached S (sign_detached S msg (node_validator_secret n)) msg (node_validator_pub n))"

lemma seal_block_signed:
  assumes "seal_block S n b = Inr b'" and "validator_ready S n" and "node_authorized n \<noteq> []"
  shows "verify_signature S (header b')" and "validator_pubkey (header b') = node_validator_pub n"
proof -
  from assms obtain root where b': "b' = b\<lparr>header :=
      sign_header S ((header b)\<lparr>merkle_root := root\<rparr>) (node_validator_secret n) (node_validator_pub n)\<rparr>"
    by (auto simp: seal_block_def ebind_eq_Inr Let_def validator_ready_def)
  have "signing_hash S (h\<lparr>validator_signature := sg\<rparr>) = signing_hash S h" for h sg
    by (simp add: signing_hash_def signing_input_def)
  moreover have "validator_signature (add_quorum_signature h k sg) = validator_signature h" for h k sg
    by (simp add: add_quorum_signature_def Let_def)
  ultimately show "verify_signature S (header b')" and "validator_pubkey (header b') = node_validator_pub n"
    using assms(2,3) by (simp_all add: b' sign_header_def Let_def verify_signature_def validator_ready_def)
qed

text \<open>A settled transaction.\<close>

lemma settle_transactionD:
  assumes "settle_transaction L S now n tx = (n', Inr tx')"
  obtains b db where "tx' = tx" and "txs b = [tx]" "deposits b = []" "deposit_outputs b = []" "withdrawals b = []"
      "withdrawal_outputs b = []"
    and "compute_merkle_root S b = Inr (merkle_root (header b))"
    and "hdr_version (header b) = PROTOCOL_VERSION" "hdr_height (header b) = db_top_height (node_db n) + 1"
      "prev_block_hash (header b) = db_top_hash (node_db n)"
    and "validator_ready S n \<longrightarrow> node_authorized n \<noteq> [] \<longrightarrow> verify_signature S (header b)
      \<and> validator_pubkey (header b) = node_validator_pub n"
    and "commit_block L S (node_db n) b (node_vault n) (tx_outputs tx) [sig_key_image (ring_sig tx)] = (db, Inr ())"
    and "node_vault n' = node_vault n" and "node_db n' = db"
    and "node_announced n' = (if node_callback_set n then node_announced n @ [b] else node_announced n)"
proof -
  define n1 where "n1 = n\<lparr>node_ledger := fst (register_key_image S (node_ledger n) (sig_key_image (ring_sig tx))),
      node_pool := node_pool n @ tx_outputs tx, node_history := node_history n @ [tx]\<rparr>"
  define b0 where "b0 = (next_block n1 now)\<lparr>txs := [tx]\<rparr>"
  have n1: "node_vault n1 = node_vault n" "node_db n1 = node_db n" "node_announced n1 = node_announced n"
    "node_callback_set n1 = node_callback_set n" "node_authorized n1 = node_authorized n"
    "node_validator_pub n1 = node_validator_pub n" "validator_ready S n1 = validator_ready S n"
    by (simp_all add: n1_def validator_ready_def)
  from assms obtain b where sealed: "seal_block S n1 b0 = Inr b"
    and com: "(case commit_or_recover L S n1 b (tx_outputs tx) [sig_key_image (ring_sig tx)] of
        (n2, Inl e) \<Rightarrow> (n2, Inl e) | (n2, Inr _) \<Rightarrow> (n2, Inr tx)) = (n', Inr tx')"
    unfolding settle_transaction_def Let_def n1_def [symmetric] b0_def [symmetric]
    by (cases "seal_block S n1 b0") simp_all
  obtain h where h: "b = b0\<lparr>header := h\<rparr>" "compute_merkle_root S b0 = Inr (merkle_root h)"
    "hdr_version h = hdr_version (header b0)" "hdr_height h = hdr_height (header b0)"
    "prev_block_hash h = prev_block_hash (header b0)"
    by (rule seal_blockD [OF sealed])
  obtain db res where c: "commit_block L S (node_db n) b (node_vault n) (tx_outputs tx)
      [sig_key_image (ring_sig tx)] = (db, res)"
    by fastforce
  with com obtain u where ok: "res = Inr u"
    by (cases res) (auto simp: commit_or_recover_def n1)
  have n': "tx' = tx" "node_vault n' = node_vault n" "node_db n' = db"
    "node_announced n' = (if node_callback_set n then node_announced n @ [b] else node_announced n)"
    using com c ok n1 by (auto simp: commit_or_recover_def)
  show ?thesis
    by (rule that [of b db])
       (use n' c ok seal_block_signed [OF sealed] h merkle_root_header [of S h b0] n1
        in \<open>simp_all add: b0_def next_block_def empty_block_def default_header_def\<close>)
qed

text \<open>Settling succeeds when writing to the database does not fail.\<close>

lemma seal_txs: "\<exists>b'. seal_block S n ((next_block n now)\<lparr>txs := [tx]\<rparr>) = Inr b' \<and> txs b' = [tx]
    \<and> deposits b' = [] \<and> withdrawals b' = []"
  by (simp add: seal_block_def compute_merkle_root_def block_leaves_def next_block_def empty_block_def Let_def)

lemma settle_succeeds:
  assumes "lmdb_ok L" and "lmdb_reliable L" and "db_env (node_db n) = Some s"
    and "length (tx_timestamp tx) \<le> 4294967295"
  shows "\<exists>n'. settle_transaction L S now n tx = (n', Inr tx)"
proof -
  let ?n = "n\<lparr>node_ledger := fst (register_key_image S (node_ledger n) (sig_key_image (ring_sig tx))),
      node_pool := node_pool n @ tx_outputs tx, node_history := node_history n @ [tx]\<rparr>"
  obtain b where b: "seal_block S ?n ((next_block ?n now)\<lparr>txs := [tx]\<rparr>) = Inr b"
    and body: "txs b = [tx]" "deposits b = []" "withdrawals b = []"
    using seal_txs by blast
  obtain bs where "serialize_block b = Inr bs"
    using assms(4) by (auto simp: serialize_block_def body Let_def serialize_tx_def write_string_def)
  from commit_block_succeeds [OF assms(1,2) this, of "node_db n" s] assms(3)
  obtain db where c: "commit_block L S (node_db n) b (node_vault n) (tx_outputs tx) [sig_key_image (ring_sig tx)]
      = (db, Inr ())"
    by blast
  show ?thesis
    using b c by (simp add: settle_transaction_def Let_def commit_or_recover_def)
qed

lemma settled_tx_peer:
  assumes "lmdb_ok L" and "lmdb_reliable L" and "settle_transaction L S now n tx = (n', Inr tx')"
    and "node_callback_set n" and "validator_ready S n" and "audit_solvency (node_vault n)" and "follows n m"
    and "\<And>h. check_tx L S m h [] tx = Inr ()"
  obtains b db where "node_announced n' = node_announced n @ [b]" and "txs b = [tx]"
    and "commit_block L S (node_db m) b (node_vault m) (tx_outputs tx) [sig_key_image (ring_sig tx)] = (db, Inr ())"
    and "apply_remote_block L S m b = (after_block S m b (node_vault m) db, Accepted)"
proof -
  obtain b db0 where tx': "tx' = tx"
    and body: "txs b = [tx]" "deposits b = []" "deposit_outputs b = []" "withdrawals b = []"
      "withdrawal_outputs b = []"
    and root: "compute_merkle_root S b = Inr (merkle_root (header b))"
    and version: "hdr_version (header b) = PROTOCOL_VERSION"
    and top: "hdr_height (header b) = db_top_height (node_db n) + 1"
      "prev_block_hash (header b) = db_top_hash (node_db n)"
    and signed: "validator_ready S n \<longrightarrow> node_authorized n \<noteq> [] \<longrightarrow> verify_signature S (header b)
      \<and> validator_pubkey (header b) = node_validator_pub n"
    and com: "commit_block L S (node_db n) b (node_vault n) (tx_outputs tx) [sig_key_image (ring_sig tx)] = (db0, Inr ())"
    and n': "node_vault n' = node_vault n" "node_db n' = db0"
      "node_announced n' = (if node_callback_set n then node_announced n @ [b] else node_announced n)"
    by (rule settle_transactionD [OF assms(3)])
  have m: "db_top_height (node_db m) = db_top_height (node_db n)" "db_top_hash (node_db m) = db_top_hash (node_db n)"
    "node_vault m = node_vault n" "node_authorized m = node_authorized n"
    using assms(7) by (simp_all add: follows_def)
  have "node_authorized n \<noteq> [] \<longrightarrow> verify_signature S (header b)
      \<and> list_ex (\<lambda>auth_pk. auth_pk = validator_pubkey (header b)) (node_authorized n)"
    using signed assms(5) by (auto simp: validator_ready_def list_ex_iff)
  then have hdr: "check_header S m (db_top_height (node_db m)) b = Inr ()"
    by (simp add: check_header_def m top root body throwing_def)
  have val: "validate_block L S m (db_top_height (node_db m)) b
      = Inr (node_vault n, [sig_key_image (ring_sig tx)], tx_outputs tx)"
    unfolding validate_block_def hdr m(3) temporary_vault_solvent [OF assms(6)]
    using assms(6,8) by (simp add: body throwing_def)
  obtain bs where bs: "serialize_block b = Inr bs"
    using com by (auto simp: commit_block_def write_block_def Let_def ebind_eq_Inr split: option.splits if_splits sum.splits)
  obtain s where s: "db_env (node_db m) = Some s"
    using assms(7) by (auto simp: follows_def)
  have outs: "applied_outputs b = tx_outputs tx" "block_images b = [sig_key_image (ring_sig tx)]"
    by (simp_all add: applied_outputs_def block_images_def body)
  obtain db where c: "commit_block L S (node_db m) b (node_vault m) (tx_outputs tx)
      [sig_key_image (ring_sig tx)] = (db, Inr ())"
    using commit_block_succeeds [OF assms(1,2) bs s] by blast
  have same: "restore_state (node_vault m) (total_collateral (node_vault n)) (circulating_supply (node_vault n))
      (fee_pool_reserve (node_vault n)) = (node_vault n, Inr ())"
    using assms(6) restore_same_bps [of "node_vault n" "node_vault m"] by (simp add: m)
  have "apply_on_top L S None (node_vault m) m b = (after_block S m b (node_vault m) db, Accepted)"
    using c by (simp add: apply_on_top_def val same after_block_def outs) (simp add: m)
  then have "apply_remote_block L S m b = (after_block S m b (node_vault m) db, Accepted)"
    by (simp add: apply_remote_block_def Let_def m top)
  then show ?thesis
    using that [of b db] n' assms(4) body(1) c by simp
qed

section \<open>Transfers\<close>

text \<open>
  The decoys are distinct outputs of the pool with the amount of the input, none of them
  the input itself, whatever the shuffle draws.
\<close>

lemma decoy_candidates_sound:
  assumes "target > 0"
  shows "distinct (decoy_candidates pool real target)
    \<and> set (decoy_candidates pool real target)
      \<subseteq> {destination_one_time out | out. out \<in> set pool \<and> out_amount out = target} - {real}"
proof -
  let ?step = "\<lambda>candidates out.
    if target > 0 \<and> out_amount out \<noteq> target then candidates
    else if destination_one_time out \<noteq> real \<and> \<not> list_ex (\<lambda>c. c = destination_one_time out) candidates
    then candidates @ [destination_one_time out] else candidates"
  have "distinct (foldl ?step cs outs) \<and> set (foldl ?step cs outs)
      \<subseteq> set cs \<union> ({destination_one_time out | out. out \<in> set outs \<and> out_amount out = target} - {real})"
    if "distinct cs" for cs outs
    using that
  proof (induction outs arbitrary: cs)
    case (Cons out outs)
    have "distinct (?step cs out)"
      using Cons.prems by (auto simp: list_ex_iff)
    moreover have "set (?step cs out)
        \<subseteq> set cs \<union> ({destination_one_time o' | o'. o' \<in> set (out # outs) \<and> out_amount o' = target} - {real})"
      using assms by auto
    ultimately show ?case
      using Cons.IH [of "?step cs out"] by auto
  qed simp
  from this [of "[]" pool] show ?thesis
    by (simp add: decoy_candidates_def)
qed

lemma shuffle_steps:
  assumes "\<forall>i \<in> set is. i < length xs \<and> pick i < length xs"
  shows "set (foldl (\<lambda>xs i. swap i (pick i) xs) xs is) = set xs
    \<and> distinct (foldl (\<lambda>xs i. swap i (pick i) xs) xs is) = distinct xs"
  using assms
proof (induction "is" arbitrary: xs)
  case (Cons i "is")
  have "length (swap i (pick i) xs) = length xs" and "set (swap i (pick i) xs) = set xs"
    and "distinct (swap i (pick i) xs) = distinct xs"
    using Cons.prems by (simp_all add: swap_def)
  with Cons show ?case
    by simp
qed simp

lemma shuffle_permutes:
  assumes "\<forall>i. pick i \<le> i"
  shows "set (shuffle pick xs) = set xs" and "distinct (shuffle pick xs) = distinct xs"
proof -
  have "\<forall>i \<in> set (rev [1..<length xs]). i < length xs \<and> pick i < length xs"
    using assms by (auto intro: le_less_trans)
  from shuffle_steps [OF this] show "set (shuffle pick xs) = set xs" and "distinct (shuffle pick xs) = distinct xs"
    by (simp_all add: shuffle_def)
qed

lemma select_decoys_sound:
  assumes "target > 0" and "\<forall>i. pick i \<le> i"
  shows "distinct (select_decoys pick pool k real target)"
    and "set (select_decoys pick pool k real target)
      \<subseteq> {destination_one_time out | out. out \<in> set pool \<and> out_amount out = target} - {real}"
proof -
  note c = decoy_candidates_sound [OF assms(1), of pool real]
  note s = shuffle_permutes [OF assms(2), of "decoy_candidates pool real target"]
  show "distinct (select_decoys pick pool k real target)"
    using c s by (simp add: select_decoys_def Let_def)
  have "set (select_decoys pick pool k real target) \<subseteq> set (shuffle pick (decoy_candidates pool real target))"
    by (auto simp: select_decoys_def Let_def dest: in_set_takeD)
  then show "set (select_decoys pick pool k real target)
      \<subseteq> {destination_one_time out | out. out \<in> set pool \<and> out_amount out = target} - {real}"
    using c s by blast
qed

lemma distinct_insert_at: "distinct (insert_at i x xs) \<longleftrightarrow> distinct xs \<and> x \<notin> set xs"
proof -
  have "distinct (take i xs @ drop i xs) = distinct xs" and "set (take i xs @ drop i xs) = set xs"
    by simp_all
  then show ?thesis
    by (auto simp: insert_at_def simp del: append_take_drop_id)
qed

lemma pool_amount_distinct:
  assumes "distinct (map destination_one_time pool)" and "out \<in> set pool"
  shows "pool_amount pool (destination_one_time out) = Some (out_amount out)"
  using assms by (induction pool) (auto simp: pool_amount_def rev_image_eqI)

lemma ring_denomination_complete:
  assumes "pks \<noteq> []" and "\<forall>pk \<in> set pks. pool_amount pool pk = Some d"
  shows "ring_denomination em eu pool None pks = Inr (Some d)"
  using assms by (cases pks) (auto simp: ring_denomination_Some)

text \<open>The outputs and the fee of a transfer make up the input, without overflow.\<close>

lemma created_amount: "create_one_time_output S addr a seed rnd = Inr out \<Longrightarrow> out_amount out = a"
  by (auto simp: create_one_time_output_def Let_def split: option.splits)

lemma transfer_outputs_sum:
  assumes "transfer_outputs S D w input recipient send fee = Inr outs" and "send \<noteq> 0"
    and "safe_add_amount send fee = Some t" and "t \<le> out_amount input"
  shows "sum_outputs ez eo fee outs = Inr (out_amount input)"
proof -
  define change where "change = out_amount input - send - fee"
  have fits: "unat send + unat fee < 2 ^ 64" and t: "unat t = unat send + unat fee"
    using assms(3) unat_safe_add [OF assms(3)] by (simp_all add: safe_add_amount_eq_Some)
  have rest: "unat change + (unat send + unat fee) = unat (out_amount input)"
    using t assms(4) unat_sub_exact [of send "out_amount input"] unat_sub_exact [of fee "out_amount input - send"]
    by (simp add: change_def word_le_nat_alt)
  have both: "safe_add_amount fee send = Some t"
    using assms(3) by (simp add: safe_add_amount_def add.commute split: if_splits)
  have sum: "t + change = out_amount input"
    using assms(3) by (simp add: safe_add_amount_eq_Some change_def)
  from assms(1) obtain out1 where out1: "out_amount out1 = send"
    and outs: "outs = [out1] \<and> change = 0 \<or> (\<exists>out2. outs = [out1, out2] \<and> out_amount out2 = change \<and> change \<noteq> 0)"
    by (auto simp: transfer_outputs_def ebind_eq_Inr Let_def change_def [symmetric] word_gt_0
        dest: created_amount split: if_splits)
  have "safe_add_amount t change = Some (out_amount input)"
    using rest t sum unat64_less [of "out_amount input"]
    by (simp add: safe_add_amount_def ac_simps del: unat64_less)
  with outs out1 assms(2) both sum show ?thesis
    by auto
qed

lemma ring_signD:
  assumes "ring_sign S msg ring i x alpha rnd = Inr sg"
  shows "i < length ring" and "sig_ring_pubkeys sg = ring"
    and "compute_key_image S x (ring ! i) = Inr (sig_key_image sg)"
  using assms
  by (auto simp: ring_sign_def sign_open_def ebind_eq_Inr Let_def split: if_splits option.splits)

lemma nth_insert_at: "i \<le> length xs \<Longrightarrow> insert_at i x xs ! i = x"
  by (simp add: insert_at_def nth_append)

lemma prepare_transfer_check:
  assumes "prepare_transfer L S D n sender input recipient send fee = Inr tx" and "send \<noteq> 0"
    and "distinct (map destination_one_time (node_pool n))" and "\<forall>i. draw_swap D i \<le> i"
    and "node_pool m = node_pool n" and "\<forall>img. image_spent L S m img = image_spent L S n img"
  shows "check_tx L S m h [] tx = Inr ()"
proof -
  let ?decoys = "select_decoys (draw_swap D) (node_pool n) 5 (destination_one_time input) (out_amount input)"
  define ring where "ring = insert_at (draw_real_index D) (destination_one_time input) ?decoys"
  from assms(1) obtain t img outs sg txh priv where t: "safe_add_amount send fee = Some t" "t \<le> out_amount input"
    and inp: "output_in_pool n input" and unspent: "\<not> image_spent L S n img"
    and outs: "transfer_outputs S D sender input recipient send fee = Inr outs"
    and txh: "txh = compute_canonical_tx_hash S outs fee ring img"
    and sg: "ring_sign S txh ring (draw_real_index D) priv (draw_alpha D) (draw_response D) = Inr sg"
    and img: "compute_key_image S priv (destination_one_time input) = Inr img"
    and ver: "ring_verify S txh sg = Inr True"
    and tx: "tx = \<lparr>tx_hash = txh, ring_sig = sg, tx_outputs = outs, public_fee = fee, tx_timestamp = transfer_timestamp\<rparr>"
    by (auto simp: prepare_transfer_def ebind_eq_Inr Let_def ring_def [symmetric] not_less
        split: if_splits option.splits)
  note signed = ring_signD [OF sg]
  have at: "ring ! draw_real_index D = destination_one_time input"
    using signed(1) nth_insert_at [of "draw_real_index D" ?decoys "destination_one_time input"]
    by (cases "draw_real_index D \<le> length ?decoys") (simp_all add: ring_def insert_at_def)
  have image: "sig_key_image sg = img"
    using signed(3) img by (simp add: at)
  have sum: "sum_outputs (Rejected Tx_zero_output) (Rejected Tx_amount_overflow) fee outs = Inr (out_amount input)"
    by (rule transfer_outputs_sum [OF outs assms(2) t])
  have "unat send \<le> unat t"
    using t(1) unat_safe_add [OF t(1)] by simp
  then have positive: "out_amount input > 0"
    using assms(2) t(2) by (simp add: word_le_nat_alt word_gt_0 unat_gt_0 [symmetric])
  note decoys = select_decoys_sound [OF positive assms(4), of "node_pool n" 5 "destination_one_time input"]
  have distinct: "\<not> ring_has_duplicates ring"
    using decoys by (auto simp: ring_has_duplicates ring_def distinct_insert_at)
  have "pool_amount (node_pool n) (destination_one_time input) = Some (out_amount input)"
    using inp pool_amount_distinct [OF assms(3)] unfolding output_in_pool_def list_ex_iff by metis
  then have "\<forall>pk \<in> set ring. pool_amount (node_pool n) pk = Some (out_amount input)"
    using decoys(2) pool_amount_distinct [OF assms(3)] by (auto simp: ring_def set_insert_at)
  then have den: "ring_denomination (Rejected Tx_ring_mixed) (Rejected Tx_ring_unknown) (node_pool n) None ring
      = Inr (Some (out_amount input))"
    using signed(1) by (intro ring_denomination_complete) auto
  show ?thesis
    using unspent ver distinct sum den
    by (simp add: check_tx_def throwing_def tx_hash_valid_def in_block_double_def tx signed(2) image txh assms(5,6))
qed

end
