(* ===== verification/Network.thy ===== *)
theory Network
  imports Peers
begin

text \<open>
  The properties of \<^verbatim>\<open>Node\<close> against the network, and the toy chain on which their witnesses
  compute.
\<close>

section \<open>A toy chain\<close>

text \<open>A node on the chain of one empty block, the only validator, that announces its blocks.\<close>

definition toy_node :: "(dbi \<Rightarrow> (bytes \<times> bytes) list) node" where
  "toy_node =
     \<lparr>node_db = one_block_db, node_vault = new_vault 50 50, node_ledger = {}, node_pool = [],
      node_history = [], node_callback_set = True, node_announced = [], node_validator_pub = point 1,
      node_validator_secret = point 1, node_has_validator_key = True, node_authorized = [point 1],
      node_threshold = 1\<rparr>"

definition toy_recipient :: stealth_address where
  "toy_recipient = \<lparr>addr_spend_public_key = point 2, addr_view_public_key = point 3\<rparr>"

text \<open>What it mines for a deposit of 1000 units.\<close>

definition toy_receipt :: deposit_receipt where
  "toy_receipt =
     \<lparr>dep_gross_usdt_deposited = 1000, dep_fee_to_pool = 5, dep_net_shielded_tokens_minted = 995,
      dep_tx_hash = ''0xab'', dep_recipient_view_pub = point 3, dep_recipient_spend_pub = point 2\<rparr>"

definition toy_utxo :: one_time_output where
  "toy_utxo = \<lparr>ephemeral_public_key = point 5, destination_one_time = point 6, out_amount = 995\<rparr>"

definition toy_vault :: vault where
  "toy_vault = \<lparr>total_collateral = 1000, circulating_supply = 995, fee_pool_reserve = 5,
     deposit_fee_bps = 50, withdraw_fee_bps = 50\<rparr>"

definition toy_mined :: block where
  "toy_mined =
     \<lparr>header = \<lparr>hdr_version = 3, hdr_height = 1, prev_block_hash = pad32 4, merkle_root = pad32 64,
        hdr_timestamp = 7, hdr_nonce = 0, validator_pubkey = point 1,
        validator_signature = pad32 83 @ replicate 32 0, quorum_pubkeys = [point 1],
        quorum_signatures = [pad32 83 @ replicate 32 0]\<rparr>,
      txs = [], deposits = [toy_receipt], withdrawals = [], deposit_outputs = [toy_utxo],
      withdrawal_outputs = []\<rparr>"

lemma toy_db_open: "db_env one_block_db \<noteq> None"
proof -
  have "\<not> Option.is_none (db_env one_block_db)"
    by code_simp
  then show ?thesis
    by (simp add: Option.is_none_def)
qed

lemma toy_mined_wire: "wire_block toy_sodium toy_mined" "hdr_version (header toy_mined) \<ge> 3"
  by (simp_all add: toy_mined_def toy_receipt_def toy_utxo_def wire_block_def wire_header_def wire_deposit_def
      wire_output_def output_ok_def MAX_BLOCK_DEPOSITS_def MAX_BLOCK_OUTPUTS_def
      MAX_SERIALIZED_STRING_BYTES_def)

lemma toy_deposit:
  "deposit (new_vault 50 50) 1000 ''0xab'' []
   = (toy_vault, Inr (toy_receipt\<lparr>dep_recipient_view_pub := zero_key, dep_recipient_spend_pub := zero_key\<rparr>))"
  by code_simp

lemma toy_output:
  "create_one_time_output toy_sodium toy_recipient 995
     (Some (generichash toy_sodium 32 (bytes_of_string ''0xab'') [])) [] = Inr toy_utxo"
  by code_simp

lemma toy_sealed:
  "seal_block toy_sodium (toy_node\<lparr>node_vault := v, node_pool := p\<rparr>)
     ((next_block (toy_node\<lparr>node_vault := v, node_pool := p\<rparr>) 7)\<lparr>deposits := [toy_receipt], deposit_outputs := [toy_utxo]\<rparr>)
   = Inr toy_mined"
proof -
  have "seal_block toy_sodium toy_node
     ((next_block toy_node 7)\<lparr>deposits := [toy_receipt], deposit_outputs := [toy_utxo]\<rparr>) = Inr toy_mined"
    by code_simp
  then show ?thesis
    by (simp add: seal_block_def next_block_def Let_def cong: if_cong)
qed

lemma toy_quorum: "verify_quorum toy_sodium (header toy_mined) [point 1] = 1"
  by code_simp

lemma toy_purchase:
  obtains n' where "buy_shielded toy_lmdb toy_sodium [] 7 toy_node 1000 toy_recipient ''0xab'' 0 [] = (n', Inr toy_receipt)"
    and "node_announced n' = [toy_mined]"
proof -
  obtain s where "db_env one_block_db = Some s"
    using toy_db_open by blast
  then obtain db where c: "commit_block toy_lmdb toy_sodium one_block_db toy_mined toy_vault [toy_utxo] [] = (db, Inr ())"
    using toy_commit [OF toy_mined_wire(1)] by metis
  have n: "node_db toy_node = one_block_db" "node_vault toy_node = new_vault 50 50" "node_pool toy_node = []"
    "node_callback_set toy_node" "node_announced toy_node = []" "node_authorized toy_node = [point 1]"
    "node_threshold toy_node = 1"
    by (simp_all add: toy_node_def required_quorum_def)
  have rc: "\<exists>n'. buy_shielded toy_lmdb toy_sodium [] 7 toy_node 1000 toy_recipient ''0xab'' 0 [] = (n', Inr toy_receipt)
      \<and> node_announced n' = [toy_mined]"
    using c toy_output toy_sealed [of "[toy_utxo]" toy_vault] toy_quorum
    by (simp add: buy_shielded_def n toy_deposit toy_receipt_def toy_recipient_def Let_def
        commit_or_recover_def required_quorum_def)
  show ?thesis
    using rc that by blast
qed

lemma toy_follows: "follows toy_node toy_node"
  using toy_db_open by (simp add: follows_def toy_node_def)

lemma toy_derivation: "derivation_ok toy_sodium toy_recipient ''0xab''"
  by code_simp

lemma toy_unprocessed: "\<not> is_deposit_tx_processed toy_lmdb one_block_db ''0xab''"
  by code_simp

lemma toy_accepts:
  obtains v db where "commit_block toy_lmdb toy_sodium one_block_db toy_mined v [toy_utxo] [] = (db, Inr ())"
    and "apply_remote_block toy_lmdb toy_sodium toy_node toy_mined = (after_block toy_sodium toy_node toy_mined v db, Accepted)"
proof -
  obtain n' where p: "buy_shielded toy_lmdb toy_sodium [] 7 toy_node 1000 toy_recipient ''0xab'' 0 [] = (n', Inr toy_receipt)"
    and a: "node_announced n' = [toy_mined]"
    by (rule toy_purchase)
  have n: "node_db toy_node = one_block_db" "node_callback_set toy_node" "node_authorized toy_node \<noteq> []"
    "audit_solvency (node_vault toy_node)" "node_announced toy_node = []"
    by (simp_all add: toy_node_def new_vault_def audit_solvency_def)
  have tx: "dep_tx_hash toy_receipt = ''0xab''"
    by (simp add: toy_receipt_def)
  obtain b db where b: "node_announced n' = node_announced toy_node @ [b]"
    and c: "commit_block toy_lmdb toy_sodium (node_db toy_node) b (node_vault n') (applied_outputs b) [] = (db, Inr ())"
    and r: "apply_remote_block toy_lmdb toy_sodium toy_node b
      = (after_block toy_sodium toy_node b (node_vault n') db, Accepted)"
    by (rule mined_deposit_peer [OF toy_lmdb_ok toy_lmdb_reliable p n(2-4) _ toy_follows])
       (use toy_derivation toy_unprocessed n(1) tx in simp_all)
  have "b = toy_mined" and "applied_outputs toy_mined = [toy_utxo]"
    using a b n(5) by (simp_all add: toy_mined_def applied_outputs_def)
  then show ?thesis
    using that [of "node_vault n'" db] c r n(1) by simp
qed

lemma toy_view:
  "chain_view_of toy_lmdb toy_sodium one_block_db
   = view_commit toy_sodium empty_block (new_vault 50 50) [] [] (chain_view_of toy_lmdb toy_sodium empty_db)"
proof -
  have wire0: "wire_block toy_sodium empty_block" "hdr_version (header empty_block) \<ge> 3"
    by (simp_all add: empty_block_def default_header_def wire_block_def wire_header_def PROTOCOL_VERSION_def)
  obtain d0 where c0: "commit_block toy_lmdb toy_sodium empty_db empty_block (new_vault 50 50) [] [] = (d0, Inr ())"
    using toy_commit [OF wire0(1), of empty_db "\<lambda>d. []"] by (metis chain_db.select_convs(1) empty_db_def)
  then have d0: "one_block_db = d0"
    by (simp add: one_block_db_def)
  show ?thesis
    unfolding d0 by (rule commit_block_view [OF toy_lmdb_ok wire0 _ c0]) simp
qed

lemma empty_view:
  "view_spent (chain_view_of toy_lmdb toy_sodium empty_db) = (\<lambda>c. False)"
  "view_output (chain_view_of toy_lmdb toy_sodium empty_db) = Map.empty"
  by (auto simp: chain_view_of_def view_of_tables_def snapshot_def empty_db_def) (simp_all add: toy_lmdb_def)

lemma toy_mirrors: "mirrors toy_lmdb toy_sodium toy_node"
  by (simp add: mirrors_def Let_def toy_node_def toy_view view_commit_def empty_view add_view_outputs_def)

lemma toy_sized: "points_sized toy_sodium"
  by (auto simp: points_sized_def)

lemma toy_top: "db_top_height one_block_db = 0" "db_top_hash one_block_db = block_hash toy_sodium empty_block"
    "get_block_by_height toy_lmdb toy_sodium one_block_db 0 = Some empty_block"
proof -
  have height0: "hdr_height (header empty_block) = 0"
    by (simp add: empty_block_def default_header_def)
  have "view_tip (chain_view_of toy_lmdb toy_sodium one_block_db) = (0, block_hash toy_sodium empty_block)"
    unfolding toy_view by (simp add: view_commit_def height0)
  then show "db_top_height one_block_db = 0" "db_top_hash one_block_db = block_hash toy_sodium empty_block"
    by (simp_all add: chain_view_of_def view_of_tables_def)
  show "get_block_by_height toy_lmdb toy_sodium one_block_db 0 = Some empty_block"
    unfolding get_block_by_height_view toy_view by (simp add: view_commit_def height0)
qed

section \<open>Properties\<close>

text \<open>
  C3: a node accepts a block from the network only if it is the block it already has at
  that height, or if, on its chain or on that chain without the local top block that the
  fork choice gave up, the block is admissible, meaning the next height and hash, the root of its
  contents, a quorum of authorised validators, deposits with the exact fee and the derived
  output, transactions and withdrawals that verify and balance, no image spent before or
  twice, and its vault operations replay to a solvent vault. Then the database commit
  succeeded and memory holds just the effects of the block.
\<close>

theorem accepted_block_admissible:
  assumes "apply_remote_block L S n b = (n', Accepted)"
  shows "(n' = n \<and> (\<exists>t. get_block_by_height L S (node_db n) (hdr_height (header b)) = Some t
            \<and> block_hash S b = block_hash S t))
    \<or> (\<exists>n0 tv db. (n0 = n \<or> (\<exists>t. reorganised L S n b t n0)) \<and> block_admissible L S n0 b
        \<and> replay_block (node_vault n0) b = Inr tv \<and> audit_solvency tv
        \<and> commit_block L S (node_db n0) b tv (applied_outputs b) (block_images b) = (db, Inr ())
        \<and> n' = after_block S n0 b tv db)"
  using assms by (rule accepted_cases)

theorem accepted_block_admissible_witness:
  "\<exists>n' tv. apply_remote_block toy_lmdb toy_sodium toy_node toy_mined = (n', Accepted)
    \<and> replay_block (new_vault 50 50) toy_mined = Inr tv \<and> node_vault n' = tv"
proof -
  obtain v db where r: "apply_remote_block toy_lmdb toy_sodium toy_node toy_mined
      = (after_block toy_sodium toy_node toy_mined v db, Accepted)"
    by (rule toy_accepts)
  have "after_block toy_sodium toy_node toy_mined v db \<noteq> toy_node"
    using arg_cong [of _ _ node_pool] by (auto simp: after_block_def toy_node_def applied_outputs_def toy_mined_def)
  moreover have "\<not> reorganised toy_lmdb toy_sodium toy_node toy_mined t n0" for t n0
    by (simp add: reorganised_def toy_node_def toy_top)
  ultimately obtain tv db' where "replay_block (node_vault toy_node) toy_mined = Inr tv"
    and "after_block toy_sodium toy_node toy_mined v db = after_block toy_sodium toy_node toy_mined tv db'"
    using accepted_block_admissible [OF r] by blast
  then show ?thesis
    using r by (auto simp: toy_node_def after_block_def)
qed

text \<open>
  C5: a block from the network creates no value: in a solvent vault, the circulating
  supply after the block plus what it spends, the amounts of the rings of its transactions and
  of the outputs burned by its withdrawals, is the circulating supply before plus all the
  outputs it adds and the public fees; nothing wrapped around, and the vault is solvent.
\<close>

theorem accepted_block_conserves_value:
  assumes "apply_on_top L S re sv n b = (n', Accepted)" and "solvent (node_vault n)"
  shows "solvent (node_vault n')
    \<and> unat (circulating_supply (node_vault n')) + sum_list (map (ring_amount n) (txs b))
        + sum_list (map (unat \<circ> burned_amount n) (withdrawals b))
      = unat (circulating_supply (node_vault n)) + sum_list (map (unat \<circ> out_amount) (applied_outputs b))
        + sum_list (map (unat \<circ> public_fee) (txs b))"
proof -
  obtain tv db where "block_admissible L S n b" and "replay_block (node_vault n) b = Inr tv"
    and "n' = after_block S n b tv db"
    by (rule apply_on_top_accepted [OF assms(1)])
  then show ?thesis
    using block_value [of L S n b tv] assms(2) by (simp add: after_block_def)
qed

theorem accepted_block_conserves_value_witness:
  "\<exists>n'. apply_on_top toy_lmdb toy_sodium None (node_vault toy_node) toy_node toy_mined = (n', Accepted)
    \<and> circulating_supply (node_vault n') = 995"
proof -
  obtain v db where r: "apply_remote_block toy_lmdb toy_sodium toy_node toy_mined
      = (after_block toy_sodium toy_node toy_mined v db, Accepted)"
    by (rule toy_accepts)
  then have a: "apply_on_top toy_lmdb toy_sodium None (node_vault toy_node) toy_node toy_mined
      = (after_block toy_sodium toy_node toy_mined v db, Accepted)"
    by (simp add: apply_remote_block_def toy_node_def toy_top)
  have "solvent (node_vault toy_node)"
    by (simp add: toy_node_def)
  from accepted_block_conserves_value [OF a this] have "unat (circulating_supply v) = 995"
    by (simp add: after_block_def toy_mined_def applied_outputs_def toy_utxo_def toy_node_def new_vault_def)
  then have "circulating_supply v = 995"
    by (simp add: word_unat_eq_iff)
  then show ?thesis
    using a by (auto simp: after_block_def)
qed


text \<open>A competitor of the mined block with a valid signature, a smaller hash and a wrong root.\<close>

definition toy_rival :: block where
  "toy_rival =
     toy_mined\<lparr>header := (header toy_mined)\<lparr>merkle_root := pad32 63,
       validator_signature := pad32 82 @ replicate 32 0,
       quorum_signatures := [pad32 82 @ replicate 32 0]\<rparr>\<rparr>"

lemma toy_rival_preferred:
  "remote_preferred toy_sodium [point 1] toy_rival toy_mined"
  "block_hash toy_sodium toy_rival \<noteq> block_hash toy_sodium toy_mined"
  by code_simp+

lemma toy_rival_root: "compute_merkle_root toy_sodium toy_rival \<noteq> Inr (merkle_root (header toy_rival))"
  by code_simp

lemma toy_mined_fresh: "fresh_block toy_sodium toy_mined (mdb_get toy_lmdb (the (db_env one_block_db)))"
  by code_simp

lemma toy_tip:
  assumes "commit_block toy_lmdb toy_sodium one_block_db toy_mined v [toy_utxo] [] = (db, Inr ())"
  shows "rewindable toy_lmdb toy_sodium db toy_mined"
    and "get_block_by_height toy_lmdb toy_sodium db 1 = Some toy_mined" and "db_top_height db = 1"
proof -
  obtain s where s: "db_env one_block_db = Some s"
    using toy_db_open by blast
  have parts: "block_outputs toy_mined = [toy_utxo]" "block_images toy_mined = []" "hdr_height (header toy_mined) = 1"
    by (simp_all add: toy_mined_def block_outputs_def block_images_def)
  have c: "commit_block toy_lmdb toy_sodium one_block_db toy_mined v [toy_utxo] (block_images toy_mined) = (db, Inr ())"
    using assms by (simp add: parts)
  show "rewindable toy_lmdb toy_sodium db toy_mined"
    unfolding rewindable_def
    by (intro conjI exI [of _ one_block_db] exI [of _ s] exI [of _ empty_block] exI [of _ v]
        exI [of _ "new_vault 50 50"] exI [of _ "[toy_utxo]"] toy_mined_wire)
       (use s c toy_mined_fresh in \<open>simp_all add: parts toy_top\<close>)
  have w: "list_all (wire_output toy_sodium) [toy_utxo]"
    using wire_block_outputs [OF toy_mined_wire(1)] by (simp add: parts)
  have v: "chain_view_of toy_lmdb toy_sodium db
      = view_commit toy_sodium toy_mined v [toy_utxo] [] (chain_view_of toy_lmdb toy_sodium one_block_db)"
    by (rule commit_block_view [OF toy_lmdb_ok toy_mined_wire w assms])
  then show "get_block_by_height toy_lmdb toy_sodium db 1 = Some toy_mined"
    by (simp add: get_block_by_height_view view_commit_def parts)
  from v have "view_tip (chain_view_of toy_lmdb toy_sodium db) = (1, block_hash toy_sodium toy_mined)"
    by (simp add: view_commit_def parts)
  then show "db_top_height db = 1"
    by (simp add: chain_view_of_def view_of_tables_def)
qed







text \<open>An owner with one output and one decoy of the same amount.\<close>

definition toy_input :: one_time_output where
  "toy_input = \<lparr>ephemeral_public_key = point 7, destination_one_time = point 1, out_amount = 100\<rparr>"

definition toy_owner :: "(dbi \<Rightarrow> (bytes \<times> bytes) list) node" where
  "toy_owner = toy_node\<lparr>node_pool := [toy_input\<lparr>destination_one_time := point 4\<rparr>, toy_input]\<rparr>"

definition toy_spend :: spend_draws where
  "toy_spend =
     \<lparr>draw_swap = (\<lambda>i. 0), draw_real_index = 1, draw_recipient_scalar = scalar 1,
      draw_change_scalar = scalar 2, draw_alpha = scalar 3, draw_response = (\<lambda>i. scalar 4), draw_order = []\<rparr>"

definition toy_tx :: shielded_transaction where
  "toy_tx =
     \<lparr>tx_hash = pad32 135,
      ring_sig = \<lparr>sig_key_image = point 6, sig_c0 = scalar 3, sig_responses = [scalar 4, scalar 10],
                  sig_ring_pubkeys = [point 4, point 1]\<rparr>,
      tx_outputs = [\<lparr>ephemeral_public_key = point 1, destination_one_time = point 7, out_amount = 60\<rparr>,
                    \<lparr>ephemeral_public_key = point 2, destination_one_time = point 2, out_amount = 35\<rparr>],
      public_fee = 5, tx_timestamp = transfer_timestamp\<rparr>"

lemma toy_prepared:
  "prepare_transfer toy_lmdb toy_sodium toy_spend toy_owner
     (generate_random_wallet toy_sodium (scalar 3) (scalar 5)) toy_input toy_recipient 60 5 = Inr toy_tx"
  by code_simp

lemma toy_submitted: "check_submitted toy_lmdb toy_sodium toy_owner toy_tx = Inr ()"
  by code_simp

lemma toy_settled:
  obtains n' where "settle_transaction toy_lmdb toy_sodium 7 toy_owner toy_tx = (n', Inr toy_tx)"
proof -
  obtain s where "db_env (node_db toy_owner) = Some s"
    using toy_db_open by (auto simp: toy_owner_def toy_node_def)
  moreover have "length (tx_timestamp toy_tx) \<le> 4294967295"
    by (simp add: toy_tx_def transfer_timestamp_def)
  ultimately show ?thesis
    using that settle_succeeds [OF toy_lmdb_ok toy_lmdb_reliable] by blast
qed

lemma toy_owner_facts:
  "node_callback_set toy_owner" "audit_solvency (node_vault toy_owner)" "follows toy_owner toy_owner"
  "distinct (map destination_one_time (node_pool toy_owner))" "node_announced toy_owner = []"
  using toy_db_open
  by (simp_all add: toy_owner_def toy_node_def new_vault_def audit_solvency_def follows_def toy_input_def)

lemma toy_ready: "validator_ready toy_sodium toy_owner"
  by (simp add: validator_ready_def toy_owner_def toy_node_def point_def) (simp add: pad32_def)


text \<open>
  Peers accept a transaction that a wallet signed itself: when
  \<open>submit_pre_signed_transaction\<close> returns, the transaction is announced in a block, and
  every peer at the same tip with the same vault, validators, pool and spent images accepts
  it.
\<close>

theorem submitted_tx_accepted_by_peers:
  assumes "lmdb_ok L" and "lmdb_reliable L"
    and "submit_pre_signed_transaction L S now n tx = (n', Inr tx')"
    and "node_callback_set n" and "validator_ready S n" and "audit_solvency (node_vault n)"
    and "follows n m" and "node_pool m = node_pool n" and "\<forall>img. image_spent L S m img = image_spent L S n img"
  shows "\<exists>b m'. node_announced n' = node_announced n @ [b] \<and> txs b = [tx]
    \<and> apply_remote_block L S m b = (m', Accepted)"
proof -
  have c: "check_submitted L S n tx = Inr ()" and s: "settle_transaction L S now n tx = (n', Inr tx')"
    using assms(3) by (auto simp: submit_pre_signed_transaction_def split: sum.splits)
  have "check_tx L S m h [] tx = Inr ()" for h
    using assms(9) by (intro check_submitted_tx [OF c assms(8)]) blast
  then show ?thesis
    by (rule_tac settled_tx_peer [OF assms(1,2) s assms(4-7)]) auto
qed

theorem submitted_tx_accepted_by_peers_witness:
  "\<exists>n' b m'. submit_pre_signed_transaction toy_lmdb toy_sodium 7 toy_owner toy_tx = (n', Inr toy_tx)
    \<and> node_announced n' = [b] \<and> apply_remote_block toy_lmdb toy_sodium toy_owner b = (m', Accepted)"
proof -
  obtain n' where "settle_transaction toy_lmdb toy_sodium 7 toy_owner toy_tx = (n', Inr toy_tx)"
    by (rule toy_settled)
  then have t: "submit_pre_signed_transaction toy_lmdb toy_sodium 7 toy_owner toy_tx = (n', Inr toy_tx)"
    by (simp add: submit_pre_signed_transaction_def toy_submitted)
  from submitted_tx_accepted_by_peers [OF toy_lmdb_ok toy_lmdb_reliable t toy_owner_facts(1) toy_ready
      toy_owner_facts(2,3)]
  show ?thesis
    using t toy_owner_facts(5) by auto
qed

end
