(* ===== verification/Exchange.thy ===== *)
theory Exchange
  imports Daemon Wallet Wasm Network
begin

text \<open>
  What the services around the node guarantee, and where they do not: the documents that
  clients and peers exchange are read as they were meant, the handlers check what they
  should, downloads end, and the table of peers stays well formed.
\<close>

named_theorems json_reads \<open>how the fields of a document built by the sources are read\<close>

section \<open>Deposits\<close>

text \<open>The signatures counted are of distinct authorized validators on the hash of the claim.\<close>

definition certified :: "sodium \<Rightarrow> 's node \<Rightarrow> deposit_claim \<Rightarrow> bytes list \<Rightarrow> bool" where
  "certified S n c ks \<longleftrightarrow> distinct ks \<and> length ks \<ge> required_quorum n
     \<and> (\<forall>k \<in> set ks. k \<in> set (node_authorized n)
          \<and> (\<exists>sg. length sg = 64 \<and> verify_detached S sg (claim_hash S c) k))"

lemma is_authorized_iff: "is_authorized_validator n pk \<longleftrightarrow> pk \<in> set (node_authorized n)"
  by (auto simp: is_authorized_validator_def list_ex_iff)

lemma gather_attested:
  assumes "gather_attestations S J n h acc items = Inr out"
    and "distinct (map fst acc)" and "\<forall>(pk, sg) \<in> set acc. attests S n h pk sg"
  shows "distinct (map fst out) \<and> (\<forall>(pk, sg) \<in> set out. attests S n h pk sg)"
  using assms
proof (induction items arbitrary: acc)
  case (Cons item items)
  show ?case
  proof (cases "json_contains J item ''pubkey'' \<and> json_contains J item ''signature''")
    case True
    with Cons.prems(1) obtain pk sg where
      "gather_attestations S J n h
         (if attests S n h pk sg \<and> \<not> list_ex (\<lambda>s. fst s = pk) acc then acc @ [(pk, sg)] else acc) items = Inr out"
      by (auto elim!: ebind_Inr_E)
    then show ?thesis
      by (rule Cons.IH) (use Cons.prems(2,3) in \<open>auto simp: list_ex_iff\<close>)
  next
    case False
    with Cons show ?thesis
      by auto
  qed
qed simp

lemma single_attested:
  "single_attestation S J n h body = Inr out
    \<Longrightarrow> distinct (map fst out) \<and> (\<forall>(pk, sg) \<in> set out. attests S n h pk sg)"
  by (auto simp: single_attestation_def split: if_splits elim!: ebind_Inr_E)

lemma attested_signatures_valid:
  "attested_signatures S J n h body = Inr out
    \<Longrightarrow> distinct (map fst out) \<and> (\<forall>(pk, sg) \<in> set out. attests S n h pk sg)"
  using gather_attested [of S J n h "[]"] single_attested
  by (fastforce simp: attested_signatures_def split: option.splits if_splits)

lemma attested_certified:
  assumes "attested_signatures S J n (claim_hash S c) body = Inr out" and "required_quorum n \<le> length out"
  shows "certified S n c (map fst out)"
  using attested_signatures_valid [OF assms(1)] assms(2)
  by (fastforce simp: certified_def attests_def is_authorized_iff)

lemma guarded_Inr [simp]: "guarded J C m = Inr x \<longleftrightarrow> m = Inr x"
  by (cases m) (auto simp: guarded_def)

lemma parse_deposit_fields:
  "parse_deposit J C body = Inr c \<Longrightarrow> claim_tx c \<noteq> [] \<and> \<not> starts_with ''0xCLI_'' (claim_tx c) \<and> claim_contract c \<noteq> []"
  by (auto simp: parse_deposit_def split: if_splits elim!: ebind_Inr_E)

lemma authorize_Inr:
  assumes "authorize_deposit L S J C n req = Inr c"
  shows "claim_tx c \<noteq> [] \<and> \<not> starts_with ''0xCLI_'' (claim_tx c) \<and> claim_contract c \<noteq> []
    \<and> \<not> node_deposit_processed L n (claim_event_id c) \<and> (\<exists>ks. certified S n c ks)"
  using assms attested_certified
  by (fastforce simp: authorize_deposit_def split: if_splits elim!: ebind_Inr_E dest: parse_deposit_fields)

lemma status_simps [simp]:
  "reply_status (answer J st kvs) = st" "reply_status (refuse J st text) = st"
  "reply_status (failed_with J what e) = 400"
  by (simp_all add: answer_def refuse_def failed_with_def)

lemma guarded_status: "guarded J C m = Inl r \<Longrightarrow> reply_status r = 400"
  by (cases m) (auto simp: guarded_def)

lemma ebind_eq_Inl: "ebind m f = Inl e \<longleftrightarrow> m = Inl e \<or> (\<exists>x. m = Inr x \<and> f x = Inl e)"
  by (cases m) auto

lemma parse_deposit_status: "parse_deposit J C body = Inl r \<Longrightarrow> reply_status r = 400"
  by (auto simp: parse_deposit_def ebind_eq_Inl split: if_splits dest: guarded_status)

lemma authorize_Inl:
  "authorize_deposit L S J C n req = Inl r \<Longrightarrow> reply_status r \<in> {400, 401, 409}"
  by (auto simp: authorize_deposit_def ebind_eq_Inl split: if_splits dest: guarded_status parse_deposit_status)

text \<open>
  C17: the server mints for a deposit only on a certificate: either the node is unchanged
  and the reply is an error, or the request claims an event that was not processed before,
  with a transaction and a contract, and at least as many distinct authorized validators
  as the quorum requires, never none, have signed the hash of that claim; then the node
  buys for exactly the claimed amount, recipient and event.
\<close>

theorem deposit_needs_certificate:
  "(fst (handle_deposit L S J C random_hash now n req) = n
      \<and> reply_status (snd (handle_deposit L S J C random_hash now n req)) \<in> {400, 401, 409})
   \<or> (\<exists>c ks. claim_tx c \<noteq> [] \<and> claim_contract c \<noteq> [] \<and> \<not> node_deposit_processed L n (claim_event_id c)
        \<and> certified S n c ks \<and> ks \<noteq> []
        \<and> fst (handle_deposit L S J C random_hash now n req)
          = fst (buy_shielded L S random_hash now n (claim_gross c) (claim_recipient c) (claim_event_id c)
                   (claim_timestamp c) []))"
proof (cases "authorize_deposit L S J C n req")
  case (Inl r)
  then show ?thesis
    using authorize_Inl by (fastforce simp: handle_deposit_def)
next
  case (Inr c)
  obtain ks where ks: "certified S n c ks"
    using authorize_Inr [OF Inr] by blast
  have "required_quorum n \<ge> 1"
    by (simp add: required_quorum_def max_def word_le_nat_alt)
  with ks have "ks \<noteq> []"
    by (auto simp: certified_def)
  moreover have "fst (handle_deposit L S J C random_hash now n req)
      = fst (buy_shielded L S random_hash now n (claim_gross c) (claim_recipient c) (claim_event_id c)
                   (claim_timestamp c) [])"
    by (simp add: handle_deposit_def Inr split: prod.split sum.split)
  ultimately show ?thesis
    using authorize_Inr [OF Inr] ks by blast
qed

section \<open>The document of a deposit\<close>

definition attestation_item :: "('j, 't) json_lib \<Rightarrow> bytes \<times> bytes \<Rightarrow> 'j" where
  "attestation_item J x = js_object J
     [(''pubkey'', js_string J (to_hex (fst x))), (''signature'', js_string J (to_hex (snd x)))]"

definition deposit_document :: "('j, 't) json_lib \<Rightarrow> deposit_claim \<Rightarrow> (bytes \<times> bytes) list \<Rightarrow> 'j" where
  "deposit_document J c sgs = js_object J
     [(''tx_hash'', js_string J (claim_tx c)),
      (''timestamp'', js_u64 J (claim_timestamp c)),
      (''gross_usdt_raw'', js_string J (dec_string (unat (claim_gross c)))),
      (''recipient_stealth_address'', js_string J (encode_address (claim_recipient c))),
      (''chain_id'', js_u64 J (claim_chain_id c)),
      (''contract_address'', js_string J (claim_contract c)),
      (''log_index'', js_u64 J (ucast (claim_log_index c))),
      (''l2_block_number'', js_u64 J (claim_l2_block c)),
      (''validator_signatures'', js_array J (map (attestation_item J) sgs))]"

definition claim_ok :: "deposit_claim \<Rightarrow> bool" where
  "claim_ok c \<longleftrightarrow> claim_tx c \<noteq> [] \<and> \<not> starts_with ''0xCLI_'' (claim_tx c) \<and> claim_contract c \<noteq> []
     \<and> length (addr_spend_public_key (claim_recipient c)) = 32
     \<and> length (addr_view_public_key (claim_recipient c)) = 32"

text \<open>The keys of the valid signatures, each once, in the order of the document.\<close>

fun distinct_signers :: "sodium \<Rightarrow> 's node \<Rightarrow> bytes \<Rightarrow> (bytes \<times> bytes) list \<Rightarrow> (bytes \<times> bytes) list \<Rightarrow> (bytes \<times> bytes) list" where
  "distinct_signers S n h acc [] = acc"
| "distinct_signers S n h acc ((pk, sg) # xs) =
     distinct_signers S n h
       (if attests S n h pk sg \<and> \<not> list_ex (\<lambda>s. fst s = pk) acc then acc @ [(pk, sg)] else acc) xs"

lemma gather_items:
  assumes "json_ok J"
  shows "gather_attestations S J n h acc (map (attestation_item J) xs) = Inr (distinct_signers S n h acc xs)"
proof (induction xs arbitrary: acc)
  case (Cons x xs)
  then show ?case
    by (cases x) (simp add: attestation_item_def json_object_simps [OF assms] json_hex_to_hex [OF assms])
qed simp

lemma parse_deposit_document:
  assumes "json_ok J" and "claim_ok c"
  shows "parse_deposit J C (deposit_document J c sgs) = Inr c"
proof -
  have d: "decode_address (encode_address (claim_recipient c)) = Inr (claim_recipient c)"
    using assms(2) by (simp add: claim_ok_def decode_address_def encode_address_def)
  show ?thesis
    using assms(2)
    by (simp add: parse_deposit_def deposit_document_def json_object_simps [OF assms(1)] json_okD [OF assms(1)]
        parse_gross_def parse_recipient_def guarded_def d claim_ok_def)
qed

lemma authorize_document:
  assumes "json_ok J" and "claim_ok c" and "js_parse J (req_body req) = Some (deposit_document J c sgs)"
    and "\<not> node_deposit_processed L n (claim_event_id c)"
    and "required_quorum n \<le> length (distinct_signers S n (claim_hash S c) [] sgs)"
  shows "authorize_deposit L S J C n req = Inr c"
proof -
  have "attested_signatures S J n (claim_hash S c) (deposit_document J c sgs)
      = Inr (distinct_signers S n (claim_hash S c) [] sgs)"
    by (simp add: attested_signatures_def deposit_document_def json_object_simps [OF assms(1)]
        json_okD [OF assms(1)] gather_items [OF assms(1)])
  moreover have "json_value J (js_get_string J) (deposit_document J c sgs) ''event_id'' [] = Inr []"
    by (simp add: deposit_document_def json_object_simps [OF assms(1)])
  ultimately show ?thesis
    using assms(3-5) by (simp add: authorize_deposit_def parse_body_def parse_deposit_document [OF assms(1,2)] guarded_def)
qed

text \<open>Moving the last character of the contract to the front of the transaction.\<close>

definition shifted_claim :: "deposit_claim \<Rightarrow> deposit_claim" where
  "shifted_claim c = c\<lparr>claim_contract := butlast (claim_contract c),
     claim_tx := last (claim_contract c) # claim_tx c\<rparr>"

lemma shifted_hash:
  assumes "claim_contract c \<noteq> []"
  shows "claim_hash S (shifted_claim c) = claim_hash S c"
proof -
  obtain A x where c: "claim_contract c = A @ [x]"
    using assms by (cases "claim_contract c" rule: rev_cases) auto
  show ?thesis
    by (simp add: claim_hash_def shifted_claim_def compute_deposit_attestation_hash_def attestation_input_def
        bytes_of_string_def c)
qed

lemma to_lower_colon: "to_lower x = CHR '':'' \<longleftrightarrow> x = CHR '':''"
proof
  assume a: "to_lower x = CHR '':''"
  show "x = CHR '':''"
  proof (cases "65 \<le> (of_char x :: nat) \<and> (of_char x :: nat) \<le> 90")
    case True
    with a have "char_of ((of_char x :: nat) + 32) = CHR '':''"
      by (simp add: to_lower_def)
    then have "of_char (char_of ((of_char x :: nat) + 32) :: char) = (58 :: nat)"
      by simp
    with True show ?thesis
      by simp
  next
    case False
    with a show ?thesis
      by (auto simp: to_lower_def Let_def)
  qed
qed (simp add: to_lower_def)

lemma shifted_event:
  assumes "claim_contract c \<noteq> []" and "last (claim_contract c) \<noteq> CHR '':''"
  shows "claim_event_id (shifted_claim c) \<noteq> claim_event_id c"
proof
  assume e: "claim_event_id (shifted_claim c) = claim_event_id c"
  obtain A x where c: "claim_contract c = A @ [x]"
    using assms(1) by (cases "claim_contract c" rule: rev_cases) auto
  define D where "D = dec_string (unat (claim_chain_id c)) @ '':'' @ map to_lower A"
  define R where "R = '':'' @ dec_string (unat (claim_log_index c))"
  have "claim_event_id (shifted_claim c) = D @ CHR '':'' # (x # claim_tx c) @ R"
    by (simp add: claim_event_id_def canonical_event_id_def shifted_claim_def c D_def R_def)
  moreover have "claim_event_id c = D @ to_lower x # '':'' @ claim_tx c @ R"
    by (simp add: claim_event_id_def canonical_event_id_def c D_def R_def)
  ultimately have "CHR '':'' # (x # claim_tx c) @ R = to_lower x # '':'' @ claim_tx c @ R"
    using e by (simp only: same_append_eq)
  then have "to_lower x = CHR '':''"
    by (simp only: list.inject)
  with assms(2) show False
    by (simp add: c to_lower_colon)
qed

lemma distinct_signers_cong:
  assumes "\<And>pk sg. attests S n' h pk sg \<longleftrightarrow> attests S n h pk sg"
  shows "distinct_signers S n' h acc xs = distinct_signers S n h acc xs"
proof (induction xs arbitrary: acc)
  case (Cons x xs)
  then show ?case
    using assms by (cases x) simp
qed simp

text \<open>
  C25: one certificate is enough for two deposits. The hash the oracles sign runs contract
  and transaction together, while the identity of the event separates them: the request of
  an authorized claim, with the last character of the contract moved to the front of the
  transaction and the same signatures, is authorized again, for the same amount and
  recipient, on any node with the same validators, in particular on the one that has
  minted for the first. The event it registers is another one.
\<close>

theorem deposit_certificate_reusable:
  assumes "json_ok J" and "claim_ok c" and "length (claim_contract c) \<ge> 2"
    and "last (claim_contract c) \<noteq> CHR '':''" and "\<not> starts_with ''0xCLI_'' (claim_tx (shifted_claim c))"
    and "js_parse J (req_body req) = Some (deposit_document J c sgs)"
    and "js_parse J (req_body req2) = Some (deposit_document J (shifted_claim c) sgs)"
    and "required_quorum n \<le> length (distinct_signers S n (claim_hash S c) [] sgs)"
    and "\<not> node_deposit_processed L n (claim_event_id c)"
    and "node_authorized n2 = node_authorized n" and "node_threshold n2 = node_threshold n"
    and "\<not> node_deposit_processed L n2 (claim_event_id (shifted_claim c))"
  shows "authorize_deposit L S J C n req = Inr c
    \<and> authorize_deposit L S J C n2 req2 = Inr (shifted_claim c)
    \<and> claim_event_id (shifted_claim c) \<noteq> claim_event_id c
    \<and> claim_gross (shifted_claim c) = claim_gross c \<and> claim_recipient (shifted_claim c) = claim_recipient c"
proof -
  have ne: "claim_contract c \<noteq> []"
    using assms(3) by auto
  have ok2: "claim_ok (shifted_claim c)"
    using assms(2,3,5) by (cases "claim_contract c" rule: rev_cases) (auto simp: claim_ok_def shifted_claim_def)
  have s: "distinct_signers S n2 (claim_hash S (shifted_claim c)) [] sgs = distinct_signers S n (claim_hash S c) [] sgs"
    unfolding shifted_hash [OF ne]
    by (rule distinct_signers_cong) (simp add: attests_def is_authorized_iff assms(10))
  have q: "required_quorum n2 = required_quorum n"
    by (simp add: required_quorum_def assms(11))
  show ?thesis
    using authorize_document [OF assms(1,2,6,9,8), where C = C]
      authorize_document [OF assms(1) ok2 assms(7,12), where C = C] shifted_event [OF ne assms(4)] assms(8)
    by (simp add: s q) (simp add: shifted_claim_def)
qed

text \<open>The toy node, one certificate of its validator, both requests on it.\<close>

definition toy_claim :: deposit_claim where
  "toy_claim = \<lparr>claim_tx = ''0xab'', claim_timestamp = 7, claim_gross = 1000, claim_recipient = toy_recipient,
     claim_chain_id = 1, claim_contract = ''0xC4'', claim_log_index = 0, claim_l2_block = 5\<rparr>"

definition toy_certificate :: "(bytes \<times> bytes) list" where
  "toy_certificate = [(point 1, sign_detached toy_sodium (claim_hash toy_sodium toy_claim) (point 1))]"

definition toy_config :: rpc_config where
  "toy_config = \<lparr>env_admin_token = Some ''secret'', env_disable_push = None, error_text = (\<lambda>e. ''error''),
     p2p_attached = True\<rparr>"

definition toy_post :: "toy_json \<Rightarrow> toy_json request" where
  "toy_post j = \<lparr>req_body = j, req_params = (\<lambda>k. None), req_header = (\<lambda>k. []), req_match = []\<rparr>"

lemma toy_certified:
  "length (distinct_signers toy_sodium toy_node (claim_hash toy_sodium toy_claim) [] toy_certificate) = 1"
  by code_simp

lemma toy_claim_events:
  "\<not> node_deposit_processed toy_lmdb toy_node (claim_event_id toy_claim)"
  "\<not> node_deposit_processed toy_lmdb toy_node (claim_event_id (shifted_claim toy_claim))"
  by code_simp+

theorem deposit_certificate_reusable_witness:
  "\<exists>req2. authorize_deposit toy_lmdb toy_sodium toy_json_lib toy_config toy_node
       (toy_post (deposit_document toy_json_lib toy_claim toy_certificate)) = Inr toy_claim
     \<and> authorize_deposit toy_lmdb toy_sodium toy_json_lib toy_config toy_node req2 = Inr (shifted_claim toy_claim)
     \<and> claim_event_id (shifted_claim toy_claim) \<noteq> claim_event_id toy_claim"
proof -
  have c: "claim_ok toy_claim" "length (claim_contract toy_claim) \<ge> 2" "last (claim_contract toy_claim) \<noteq> CHR '':''"
    "\<not> starts_with ''0xCLI_'' (claim_tx (shifted_claim toy_claim))"
    by (simp_all add: toy_claim_def claim_ok_def toy_recipient_def shifted_claim_def starts_with_def)
  have q: "required_quorum toy_node \<le> length (distinct_signers toy_sodium toy_node (claim_hash toy_sodium toy_claim) [] toy_certificate)"
    unfolding toy_certified by (simp add: toy_node_def required_quorum_def)
  show ?thesis
    using deposit_certificate_reusable [OF toy_json_ok c, of
        "toy_post (deposit_document toy_json_lib toy_claim toy_certificate)" toy_certificate
        "toy_post (deposit_document toy_json_lib (shifted_claim toy_claim) toy_certificate)"
        toy_node toy_sodium toy_lmdb toy_node toy_config] q toy_claim_events
    by (auto simp: toy_post_def)
qed

end
