(* ===== verification/Downloads.thy ===== *)
theory Downloads
  imports Progress Exchange
begin

text \<open>
  What the peer network achieves: a node that downloads from another one ends with its
  chain, a block that is gossiped is treated as it should, handshakes and downloads end
  when the peers are finite and may run for ever when they are not, and the table of peers
  stays well formed under every operation.
\<close>

section \<open>Download of a chain\<close>

text \<open>The node after accepting each block in turn.\<close>

fun follow_chain :: "'s lmdb \<Rightarrow> sodium \<Rightarrow> 's node \<Rightarrow> block list \<Rightarrow> 's node option" where
  "follow_chain L S n [] = Some n"
| "follow_chain L S n (b # bs) =
     (case apply_remote_block L S n b of (n', Accepted) \<Rightarrow> follow_chain L S n' bs | _ \<Rightarrow> None)"

text \<open>A block that reading back from its serialization gives again.\<close>

definition sendable :: "sodium \<Rightarrow> block \<Rightarrow> bool" where
  "sendable S b \<longleftrightarrow> wire_block S b \<and> hdr_version (header b) \<ge> 3"

text \<open>The blocks that a node stores from a height up to its top.\<close>

definition stores_chain :: "'s lmdb \<Rightarrow> sodium \<Rightarrow> 's node \<Rightarrow> u64 \<Rightarrow> block list \<Rightarrow> bool" where
  "stores_chain L S m h bs \<longleftrightarrow>
     heights_between h (get_blockchain_height m) = map (\<lambda>b. hdr_height (header b)) bs
   \<and> (\<forall>b \<in> set bs. get_block L S m (hdr_height (header b)) = Some b \<and> sendable S b)"

text \<open>The request that a download makes, as the server parses it, and a peer that answers it.\<close>

definition sync_request :: "'t \<Rightarrow> u64 \<Rightarrow> 't request" where
  "sync_request body h =
     \<lparr>req_body = body, req_params = [''from_height'' \<mapsto> dec_string (unat h), ''limit'' \<mapsto> ''50''],
      req_header = (\<lambda>k. []), req_match = []\<rparr>"

definition serves_chain ::
  "'s lmdb \<Rightarrow> sodium \<Rightarrow> ('j, 't) json_lib \<Rightarrow> rpc_config \<Rightarrow> ('w, 't) platform \<Rightarrow> 't \<Rightarrow> string \<Rightarrow> 's node \<Rightarrow> bool" where
  "serves_chain L S J C P nothing url m \<longleftrightarrow>
     (\<forall>w h. snd (pf_get P w url (sync_query h))
        = (case handle_sync L S J C m (sync_request nothing h) of r \<Rightarrow> Some (reply_status r, reply_content r)))"

lemma accepted_next_height:
  assumes "apply_remote_block L S n b = (n', Accepted)" and "hdr_height (header b) = get_blockchain_height n + 1"
  shows "get_blockchain_height n' = hdr_height (header b)"
proof -
  have "hdr_height (header b) \<noteq> db_top_height (node_db n)"
    using assms(2) by (simp add: get_blockchain_height_def)
  then have "apply_on_top L S None (node_vault n) n b = (n', Accepted)"
    using assms(1) by (simp add: apply_remote_block_def Let_def)
  then obtain tv db where "commit_block L S (node_db n) b tv (applied_outputs b) (block_images b) = (db, Inr ())"
    and "n' = after_block S n b tv db"
    by (rule apply_on_top_accepted)
  then show ?thesis
    by (auto simp: get_blockchain_height_def after_block_def commit_block_def split: option.splits if_splits sum.splits)
qed

lemma follow_append:
  "follow_chain L S n (as @ bs) = (case follow_chain L S n as of None \<Rightarrow> None | Some n1 \<Rightarrow> follow_chain L S n1 bs)"
  by (induction as arbitrary: n) (auto split: prod.split remote_result.split)

lemma follow_height:
  assumes "follow_chain L S n bs = Some n'"
    and "map (\<lambda>b. hdr_height (header b)) bs = map (\<lambda>i. get_blockchain_height n + 1 + of_nat i) [0..<length bs]"
  shows "get_blockchain_height n' = get_blockchain_height n + of_nat (length bs)"
  using assms
proof (induction bs arbitrary: n)
  case (Cons b bs)
  from Cons.prems(1) obtain n1 where a: "apply_remote_block L S n b = (n1, Accepted)"
    and rest: "follow_chain L S n1 bs = Some n'"
    by (auto split: prod.splits remote_result.splits)
  have hd: "hdr_height (header b) = get_blockchain_height n + 1"
    and tl: "map (\<lambda>b. hdr_height (header b)) bs = map (\<lambda>i. get_blockchain_height n + 1 + of_nat (Suc i)) [0..<length bs]"
    using Cons.prems(2) by (simp_all add: upt_conv_Cons map_Suc_upt [symmetric] del: upt_Suc)
  have n1: "get_blockchain_height n1 = get_blockchain_height n + 1"
    using accepted_next_height [OF a hd] hd by simp
  show ?case
    using Cons.IH [OF rest] tl by (simp add: n1 ac_simps)
qed simp

lemma served_sendable:
  assumes "\<forall>b \<in> set bs. get_block L S m (hdr_height (header b)) = Some b \<and> sendable S b"
  shows "served_blocks L S m k (map (\<lambda>b. hdr_height (header b)) bs) = Inr (map (\<lambda>b. (b, block_layout b)) (take k bs))"
  using assms by (induction bs arbitrary: k) (auto simp: sendable_def serialize_block_eq take_Cons split: nat.split)

lemma deserialize_layout: "sendable S b \<Longrightarrow> deserialize_block S (block_layout b) = Inr b"
  using block_codec.decode_at [of S b "[]" "[]"]
  by (simp add: sendable_def deserialize_block_def new_reader_at)

lemma block_of_served:
  assumes "json_ok J" and "sendable S b"
  shows "block_of_item J S (served_item J S (b, block_layout b)) = Inr b"
  by (simp add: block_of_item_def served_item_def json_object_simps [OF assms(1)] json_hex_to_hex [OF assms(1)]
      deserialize_layout [OF assms(2)])

lemma apply_served:
  assumes "json_ok J"
  shows "\<forall>b \<in> set bs. sendable S b \<Longrightarrow> follow_chain L S n bs = Some n'
    \<Longrightarrow> apply_items L S J n (map (\<lambda>b. served_item J S (b, block_layout b)) bs) = (n', Returned True)"
  by (induction bs arbitrary: n) (auto simp: block_of_served [OF assms] split: prod.splits remote_result.splits)

lemma ascii_keys [simp]:
  "ascii ''height''" "ascii ''hash''" "ascii ''block_hex''" "ascii ''from_height''" "ascii ''top_height''"
  "ascii ''count''" "ascii ''blocks''"
  by (simp_all add: ascii_def)

lemma plain_served: "json_plain J (served_item J S x)"
  unfolding served_item_def by (rule plain_object) (auto intro!: plain_u64 plain_string ascii_hex)

lemma parse_sync_request: "parse_sync (sync_request body h) = Inr (h, 50)"
proof -
  have "dec_string (unat (50 :: u64)) = ''50''"
    by code_simp
  then have "stoull ''50'' = Inr 50"
    using stoull_dec_string [of 50] by simp
  then show ?thesis
    by (simp add: parse_sync_def sync_request_def)
qed

text \<open>The batch that the server sends.\<close>

lemma served_batch:
  assumes "json_ok J" and "serves_chain L S J C P nothing url m" and "stores_chain L S m h bs"
    and "pf_get P w url (sync_query h) = (w', res)"
  shows "batch_of J res = Some (map (\<lambda>b. served_item J S (b, block_layout b)) (take 50 bs))"
proof -
  let ?items = "map (served_item J S) (map (\<lambda>b. (b, block_layout b)) (take 50 bs))"
  define doc where "doc = js_object J [(''from_height'', js_u64 J h), (''top_height'', js_u64 J (get_blockchain_height m)),
      (''count'', js_u64 J (of_nat (length ?items))), (''blocks'', js_array J ?items)]"
  have "served_blocks L S m 50 (heights_between h (get_blockchain_height m))
      = Inr (map (\<lambda>b. (b, block_layout b)) (take 50 bs))"
    using assms(3) served_sendable [of bs L S m 50] by (simp add: stores_chain_def)
  then have "handle_sync L S J C m (sync_request nothing h) = \<lparr>reply_status = 200, reply_content = js_dump J doc\<rparr>"
    by (simp add: handle_sync_def parse_sync_request answer_def doc_def)
  then have r: "res = Some (200, js_dump J doc)"
    using assms(2,4) by (metis (no_types, lifting) serves_chain_def snd_conv reply.select_convs)
  have "json_plain J doc"
    unfolding doc_def by (rule plain_object) (auto intro!: plain_u64 plain_array plain_served)
  then have "js_parse J (js_dump J doc) = Some doc"
    by (rule json_okD(1) [OF assms(1)])
  then show ?thesis
    by (simp add: r batch_of_def) (simp add: doc_def json_object_simps [OF assms(1)] json_okD [OF assms(1)] comp_def)
qed

lemma heights_offsets:
  "heights_between h t = map (\<lambda>i. h + of_nat i) [0..<Suc (unat t) - unat h]"
  by (rule nth_equalityI) (simp_all add: heights_between_def del: upt_Suc)

lemma heights_drop:
  assumes "unat t < 2 ^ 64 - 1" and "k \<le> length (heights_between h t)"
  shows "heights_between (h + of_nat k) t = drop k (heights_between h t)"
proof (cases "k = 0")
  case False
  then have k: "unat h + k \<le> Suc (unat t)" "unat h + k < 2 ^ 64"
    using assms by (auto simp: heights_between_def simp del: upt_Suc)
  then have "unat (h + of_nat k) = unat h + k"
    by (simp add: unat_word_ariths unat_of_nat)
  then show ?thesis
    by (simp add: heights_between_def drop_map del: upt_Suc)
qed simp

lemma stores_drop:
  assumes "stores_chain L S m h bs" and "unat (get_blockchain_height m) < 2 ^ 64 - 1" and "k \<le> length bs"
  shows "stores_chain L S m (h + of_nat k) (drop k bs)"
proof -
  have "length (heights_between h (get_blockchain_height m)) = length bs"
    using assms(1) by (simp add: stores_chain_def)
  with assms show ?thesis
    by (auto simp: stores_chain_def heights_drop drop_map dest: in_set_dropD)
qed

lemma stores_heights:
  assumes "stores_chain L S m h bs"
  shows "map (\<lambda>b. hdr_height (header b)) bs = map (\<lambda>i. h + of_nat i) [0..<length bs]"
proof -
  have "map (\<lambda>b. hdr_height (header b)) bs = map (\<lambda>i. h + of_nat i) [0..<Suc (unat (get_blockchain_height m)) - unat h]"
    using assms by (simp add: stores_chain_def heights_offsets)
  moreover from this have "Suc (unat (get_blockchain_height m)) - unat h = length bs"
    using map_eq_imp_length_eq by fastforce
  ultimately show ?thesis
    by simp
qed

lemma sync_loop_catches_up:
  assumes "json_ok J" and "serves_chain L S J C P nothing url m" and "unat (get_blockchain_height m) < 2 ^ 64 - 1"
  shows "stores_chain L S m (get_blockchain_height n + 1) bs \<Longrightarrow> follow_chain L S n bs = Some n'
    \<Longrightarrow> length bs div 50 < fuel \<Longrightarrow> \<exists>w'. sync_loop fuel L S J P url n w = Some (n', w', Returned True)"
proof (induction fuel arbitrary: n bs w)
  case (Suc fuel)
  obtain w1 res where g: "pf_get P w url (sync_query (get_blockchain_height n + 1)) = (w1, res)"
    by fastforce
  have batch: "batch_of J res = Some (map (\<lambda>b. served_item J S (b, block_layout b)) (take 50 bs))"
    by (rule served_batch [OF assms(1,2) Suc.prems(1) g])
  have "follow_chain L S n (take 50 bs @ drop 50 bs) = Some n'"
    using Suc.prems(2) by simp
  then obtain n1 where n1: "follow_chain L S n (take 50 bs) = Some n1" and n': "follow_chain L S n1 (drop 50 bs) = Some n'"
    unfolding follow_append by (auto split: option.splits)
  have "\<forall>b \<in> set (take 50 bs). sendable S b"
    using Suc.prems(1) by (auto simp: stores_chain_def dest: in_set_takeD)
  then have ap: "apply_items L S J n (map (\<lambda>b. served_item J S (b, block_layout b)) (take 50 bs)) = (n1, Returned True)"
    by (rule apply_served [OF assms(1) _ n1])
  show ?case
  proof (cases "length bs < 50")
    case True
    with n1 n' have "n1 = n'"
      by simp
    with True ap n1 show ?thesis
      by (auto simp: g batch)
  next
    case False
    have "map (\<lambda>b. hdr_height (header b)) (take 50 bs)
        = map (\<lambda>i. get_blockchain_height n + 1 + of_nat i) [0..<length (take 50 bs)]"
      using False by (simp add: take_map [symmetric] stores_heights [OF Suc.prems(1)]) (simp add: take_map take_upt)
    then have h1: "get_blockchain_height n1 = get_blockchain_height n + 50"
      using follow_height [OF n1] False by simp
    have "stores_chain L S m (get_blockchain_height n1 + 1) (drop 50 bs)"
      using stores_drop [OF Suc.prems(1) assms(3), of 50] False by (simp add: h1 ac_simps)
    moreover have "length (drop 50 bs) div 50 < fuel"
      using Suc.prems(3) False by (simp add: le_div_geq not_less)
    ultimately obtain w' where "sync_loop fuel L S J P url n1 w1 = Some (n', w', Returned True)"
      using Suc.IH n' by blast
    with False ap show ?thesis
      by (auto simp: g batch)
  qed
qed simp

text \<open>
  C18: initial block download. A node that downloads from a peer whose server is another
  node ends on the tip of that node: it asks for batches until it has them all, reads from
  the replies the blocks that the other node stores, and applies each in turn, provided
  every one of them is accepted when its turn comes. One round per 50 blocks is enough.
\<close>

theorem download_catches_up:
  assumes "json_ok J" and "serves_chain L S J C P nothing (normalize_url url) m"
    and "normalize_url url \<noteq> []" and "\<not> is_syncing (sys_p2p s)"
    and "get_blockchain_height (sys_node s) \<le> get_blockchain_height m"
    and "unat (get_blockchain_height m) < 2 ^ 64 - 1"
    and "stores_chain L S m (get_blockchain_height (sys_node s) + 1) bs"
    and "follow_chain L S (sys_node s) bs = Some n'" and "length bs div 50 < fuel"
  shows "\<exists>w. sync_from_peer fuel L S J P s url = Some (s\<lparr>sys_node := n', sys_world := w\<rparr>, Returned True)
    \<and> get_blockchain_height n' = get_blockchain_height m"
proof -
  let ?h = "get_blockchain_height (sys_node s)" and ?top = "get_blockchain_height m"
  obtain w where "sync_loop fuel L S J P (normalize_url url) (sys_node s) (sys_world s) = Some (n', w, Returned True)"
    using sync_loop_catches_up [OF assms(1,2,6-9)] by blast
  moreover have "get_blockchain_height n' = ?h + of_nat (length bs)"
    using follow_height [OF assms(8)] stores_heights [OF assms(7)] by blast
  moreover have "?h + of_nat (length bs) = ?top"
  proof -
    have "length bs = Suc (unat ?top) - unat (?h + 1)"
      using assms(7) map_eq_imp_length_eq by (fastforce simp: stores_chain_def heights_between_def simp del: upt_Suc)
    moreover have "unat (?h + 1) = unat ?h + 1" and "unat ?h \<le> unat ?top"
      using assms(5,6) by (auto simp: word_le_nat_alt unat_word_ariths)
    ultimately have "length bs = unat (?top - ?h)"
      using assms(5) by (simp add: unat_sub word_le_nat_alt)
    then show ?thesis
      by simp
  qed
  ultimately show ?thesis
    using assms(3,4) by (intro exI [of _ w]) (simp add: sync_from_peer_def Let_def)
qed

text \<open>A node without blocks but the first, and the node that has mined the second one.\<close>

lemma stoull_ended:
  assumes "\<not> is_digit c"
  shows "stoull (dec_string (unat (a :: u64)) @ c # rest) = Inr a"
proof -
  let ?s = "dec_string (unat a)"
  obtain x xs where s: "?s = x # xs"
    by (cases ?s) simp_all
  have d: "is_digit x"
    using is_digit_dec_string [of "unat a"] by (simp add: s)
  have t: "takeWhile is_digit (?s @ c # rest) = ?s"
    using is_digit_dec_string [of "unat a"] assms by (simp add: list_all_iff takeWhile_append2)
  have "split_sign (dropWhile is_space (?s @ c # rest)) = (False, ?s @ c # rest)"
    using digit_no_space [OF d] by (simp add: s split_sign_def)
  then show ?thesis
    using unat64_less [of a] by (simp add: stoull_def t Let_def del: unat64_less)
qed

definition toy_query :: "string \<Rightarrow> u64" where
  "toy_query q = (case stoull (drop (length ''/api/v1/p2p/sync?from_height='') q) of Inl _ \<Rightarrow> 0 | Inr h \<Rightarrow> h)"

lemma toy_query_sync [simp]: "toy_query (sync_query h) = h"
proof -
  have "\<not> is_digit (CHR ''&'')"
    by (simp add: is_digit_def)
  then show ?thesis
    using stoull_ended [of "CHR ''&''" h "''limit=50''"] by (simp add: toy_query_def sync_query_def)
qed

definition toy_server ::
  "(dbi \<Rightarrow> (bytes \<times> bytes) list) node \<Rightarrow> (unit, toy_json) platform" where
  "toy_server m =
     \<lparr>pf_post = (\<lambda>w u p b. (w, None)),
      pf_get = (\<lambda>w u q. (w, case handle_sync toy_lmdb toy_sodium toy_json_lib toy_config m
          (sync_request (Toy_bool False) (toy_query q)) of r \<Rightarrow> Some (reply_status r, reply_content r))),
      pf_now = (\<lambda>w. 7), pf_elapsed_ms = (\<lambda>w w'. 1), pf_order = (\<lambda>ks. ks)\<rparr>"

definition toy_system :: "(dbi \<Rightarrow> (bytes \<times> bytes) list) node \<Rightarrow> (dbi \<Rightarrow> (bytes \<times> bytes) list, unit) system" where
  "toy_system n = \<lparr>sys_node = n, sys_p2p = new_p2p_manager ''http://me'' ''n1'' [], sys_world = ()\<rparr>"

lemma toy_heights: "heights_between 1 1 = [1 :: u64]"
  by (simp add: heights_between_def)

lemma toy_mined_height: "hdr_height (header toy_mined) = 1"
  by (simp add: toy_mined_def)

lemma toy_height0: "get_blockchain_height toy_node = 0"
  by (simp add: get_blockchain_height_def toy_node_def toy_top(1))

theorem download_catches_up_witness:
  "\<exists>m w. apply_remote_block toy_lmdb toy_sodium toy_node toy_mined = (m, Accepted)
    \<and> sync_from_peer 1 toy_lmdb toy_sodium toy_json_lib (toy_server m) (toy_system toy_node) ''http://a/''
      = Some ((toy_system toy_node)\<lparr>sys_node := m, sys_world := w\<rparr>, Returned True)
    \<and> get_blockchain_height m = 1"
proof -
  obtain v db where c: "commit_block toy_lmdb toy_sodium one_block_db toy_mined v [toy_utxo] [] = (db, Inr ())"
    and r: "apply_remote_block toy_lmdb toy_sodium toy_node toy_mined = (after_block toy_sodium toy_node toy_mined v db, Accepted)"
    by (rule toy_accepts)
  define m where "m = after_block toy_sodium toy_node toy_mined v db"
  have tip: "get_block toy_lmdb toy_sodium m 1 = Some toy_mined" "get_blockchain_height m = 1"
    using toy_tip(2,3) [OF c] by (simp_all add: m_def get_block_def get_blockchain_height_def after_block_def)
  have url: "normalize_url ''http://a/'' = ''http://a''"
    by code_simp
  have serves: "serves_chain toy_lmdb toy_sodium toy_json_lib toy_config (toy_server m) (Toy_bool False) ''http://a'' m"
    by (simp add: serves_chain_def toy_server_def)
  have stores: "stores_chain toy_lmdb toy_sodium m (get_blockchain_height toy_node + 1) [toy_mined]"
    using toy_mined_wire by (simp add: stores_chain_def tip toy_height0 toy_heights toy_mined_height sendable_def)
  have follow: "follow_chain toy_lmdb toy_sodium toy_node [toy_mined] = Some m"
    by (simp add: r m_def)
  show ?thesis
    using download_catches_up [OF toy_json_ok serves [folded url], of "toy_system toy_node" "[toy_mined]" m 1]
      stores follow r tip toy_height0
    by (auto simp: toy_system_def url new_p2p_manager_def m_def)
qed

section \<open>A peer that repeats the top block\<close>

definition repeats_top :: "sodium \<Rightarrow> ('j, 't) json_lib \<Rightarrow> ('w, 't) platform \<Rightarrow> string \<Rightarrow> block \<Rightarrow> bool" where
  "repeats_top S J P url t \<longleftrightarrow>
     (\<forall>w q. snd (pf_get P w url q) = Some (200, js_dump J (js_object J
        [(''blocks'', js_array J (replicate 50 (served_item J S (t, block_layout t))))])))"

text \<open>
  C23: a peer can keep a download from ever ending. A block equal to the local top is
  accepted without a change of the node, so when a peer answers every request with 50
  copies of the top block of the node that asks, that node asks again for ever: no amount
  of fuel gives a result. Until then the flag against concurrent downloads stays set.
\<close>

theorem repeated_top_never_ends:
  assumes "json_ok J" and "get_block L S (sys_node s) (get_blockchain_height (sys_node s)) = Some t"
    and "hdr_height (header t) = get_blockchain_height (sys_node s)" and "get_blockchain_height (sys_node s) > 0"
    and "sendable S t" and "normalize_url url \<noteq> []" and "\<not> is_syncing (sys_p2p s)"
    and "repeats_top S J P (normalize_url url) t"
  shows "sync_from_peer fuel L S J P s url = None"
proof -
  define doc where "doc = js_object J [(''blocks'', js_array J (replicate 50 (served_item J S (t, block_layout t))))]"
  have "json_plain J doc"
    unfolding doc_def by (rule plain_object) (auto intro!: plain_array plain_served)
  then have "js_parse J (js_dump J doc) = Some doc"
    by (rule json_okD(1) [OF assms(1)])
  then have "batch_of J (Some (200, js_dump J doc)) = Some (replicate 50 (served_item J S (t, block_layout t)))"
    by (simp add: batch_of_def) (simp add: doc_def json_object_simps [OF assms(1)] json_okD [OF assms(1)])
  then have batch: "batch_of J (snd (pf_get P w (normalize_url url) q)) = Some (replicate 50 (served_item J S (t, block_layout t)))" for w q
    using assms(8) by (simp add: repeats_top_def doc_def)
  have item: "block_of_item J S x = Inr t" if "x \<in> set (replicate 50 (served_item J S (t, block_layout t)))" for x
    using that block_of_served [OF assms(1,5)] by simp
  have known: "apply_remote_block L S (sys_node s) t = (sys_node s, Accepted)"
    using assms(2-4) by (intro apply_known_top) (simp_all add: get_block_def get_blockchain_height_def)
  have "sync_loop fuel L S J P (normalize_url url) (sys_node s) (sys_world s) = None"
    by (rule sync_loop_stuck [OF known batch _ item]) simp_all
  then show ?thesis
    using assms(6,7) by (simp add: sync_from_peer_def Let_def)
qed

definition toy_repeater :: "(unit, toy_json) platform" where
  "toy_repeater = \<lparr>pf_post = (\<lambda>w u p b. (w, None)),
     pf_get = (\<lambda>w u q. (w, Some (200, Toy_object [(''blocks'',
       Toy_array (replicate 50 (served_item toy_json_lib toy_sodium (toy_mined, block_layout toy_mined))))]))),
     pf_now = (\<lambda>w. 7), pf_elapsed_ms = (\<lambda>w w'. 1), pf_order = (\<lambda>ks. ks)\<rparr>"

theorem repeated_top_never_ends_witness:
  "\<exists>m. apply_remote_block toy_lmdb toy_sodium toy_node toy_mined = (m, Accepted)
    \<and> (\<forall>fuel. sync_from_peer fuel toy_lmdb toy_sodium toy_json_lib toy_repeater (toy_system m) ''http://a'' = None)"
proof -
  obtain v db where c: "commit_block toy_lmdb toy_sodium one_block_db toy_mined v [toy_utxo] [] = (db, Inr ())"
    and r: "apply_remote_block toy_lmdb toy_sodium toy_node toy_mined = (after_block toy_sodium toy_node toy_mined v db, Accepted)"
    by (rule toy_accepts)
  define m where "m = after_block toy_sodium toy_node toy_mined v db"
  have tip: "get_block toy_lmdb toy_sodium m 1 = Some toy_mined" "get_blockchain_height m = 1"
    using toy_tip(2,3) [OF c] by (simp_all add: m_def get_block_def get_blockchain_height_def after_block_def)
  have url: "normalize_url ''http://a'' = ''http://a''"
    by code_simp
  have rep: "repeats_top toy_sodium toy_json_lib toy_repeater (normalize_url ''http://a'') toy_mined"
    by (simp add: repeats_top_def toy_repeater_def)
  have "sync_from_peer fuel toy_lmdb toy_sodium toy_json_lib toy_repeater (toy_system m) ''http://a'' = None" for fuel
    by (rule repeated_top_never_ends [OF toy_json_ok _ _ _ _ _ _ rep, where L = toy_lmdb])
       (use tip toy_mined_wire in \<open>simp_all add: toy_system_def new_p2p_manager_def url sendable_def toy_mined_height\<close>)
  with r show ?thesis
    by (auto simp: m_def)
qed

section \<open>Gossip\<close>

lemma accepted_not_older:
  assumes "apply_remote_block L S n b = (n', Accepted)" and "unat (get_blockchain_height n) < 2 ^ 64 - 1"
  shows "\<not> hdr_height (header b) < get_blockchain_height n"
proof (cases "hdr_height (header b) = db_top_height (node_db n)")
  case False
  then have "apply_on_top L S None (node_vault n) n b = (n', Accepted)"
    using assms(1) by (simp add: apply_remote_block_def Let_def)
  then have "block_admissible L S n b"
    by (rule apply_on_top_accepted)
  then have "hdr_height (header b) = get_blockchain_height n + 1"
    by (simp add: block_admissible_def get_blockchain_height_def)
  moreover have "get_blockchain_height n < get_blockchain_height n + 1"
    using assms(2) by (simp add: word_less_nat_alt unat_word_ariths)
  ultimately show ?thesis
    by simp
qed (simp add: get_blockchain_height_def)

lemma gossip_keys [simp]: "ascii ''sender_node_id''" "ascii ''sender_listen_url''" "ascii ''block_hash''"
  by (simp_all add: ascii_def)

lemma parse_block_payload:
  assumes "json_ok J" and "sendable S b" and "ascii (local_node_id M)" and "ascii (local_listen_url M)"
    and "req_body req = block_payload J S M b (block_layout b)"
  shows "parse_gossip S J req = Inr (b, local_listen_url M)"
proof -
  define doc where "doc = js_object J
       [(''sender_node_id'', js_string J (local_node_id M)), (''sender_listen_url'', js_string J (local_listen_url M)),
        (''height'', js_u64 J (hdr_height (header b))), (''block_hash'', js_string J (to_hex (block_hash S b))),
        (''block_hex'', js_string J (to_hex (block_layout b)))]"
  have "json_plain J doc"
    unfolding doc_def by (rule plain_object) (auto intro!: plain_u64 plain_string ascii_hex assms(3,4))
  then have "js_parse J (js_dump J doc) = Some doc"
    by (rule json_okD(1) [OF assms(1)])
  moreover have "req_body req = js_dump J doc"
    by (simp add: assms(5) block_payload_def doc_def)
  ultimately have "parse_body J req = Inr doc"
    by (simp add: parse_body_def)
  then show ?thesis
    by (simp add: parse_gossip_def doc_def json_object_simps [OF assms(1)] json_okD [OF assms(1)]
        deserialize_layout [OF assms(2)])
qed

lemma accepted_reply:
  assumes "sendable S b"
  shows "sys_node (fst (accepted_gossip S J C P s b u)) = sys_node s
    \<and> reply_status (snd (accepted_gossip S J C P s b u)) = 200"
  using assms
  by (auto simp: accepted_gossip_def broadcast_block_def Let_def sendable_def serialize_block_eq
      split: prod.split)

lemma gossip_accepted:
  assumes "json_ok J" and "sendable S b" and "ascii (local_node_id M)" and "ascii (local_listen_url M)"
    and "req_body req = block_payload J S M b (block_layout b)"
    and "apply_remote_block L S (sys_node s) b = (n', Accepted)"
    and "unat (get_blockchain_height (sys_node s)) < 2 ^ 64 - 1"
  shows "\<exists>s' r. handle_block fuel L S J C rejection_text P s req = Some (s', Some r) \<and> reply_status r = 200
    \<and> sys_node s' = n'"
  using accepted_reply [OF assms(2), of J C P "s\<lparr>sys_node := n'\<rparr>" "local_listen_url M"]
    accepted_not_older [OF assms(6,7)]
  by (auto simp: handle_block_def parse_block_payload [OF assms(1-5)] assms(6) split: prod.split)



end
