(* ===== verification/Contacts.thy ===== *)
theory Contacts
  imports Downloads Daemon
begin

text \<open>
  Handshakes: they end when finitely many addresses are advertised, may recurse for ever
  when a peer invents addresses, and with every other operation they keep the table of
  peers well formed.
\<close>

section \<open>Termination\<close>

text \<open>
  C22: a handshake returns. When the peers advertise addresses of a finite set only, and
  the outside world can send only so many full batches of blocks (\<open>rank\<close> falls with each
  and never rises), a handshake, with all handshakes and downloads that it starts, has one
  result, and a depth of recursion above the number of addresses not yet known plus the
  batches left is enough to reach it.
\<close>

theorem handshake_terminates:
  assumes "finite U" and "advertised_within U J P" and "quiet rank P" and "full_batches_rank rank J P"
  shows "\<exists>r. \<forall>fuel. contacts_left U rank s + 1 < fuel \<longrightarrow> handshake_with_peer fuel L S J P s u = Some r"
proof -
  let ?enough = "contacts_left U rank s + 2"
  obtain r where r: "handshake_with_peer ?enough L S J P s u = Some r"
    using handshake_returns [OF assms, of s ?enough] by fastforce
  have "handshake_with_peer fuel L S J P s u = Some r" if "contacts_left U rank s + 1 < fuel" for fuel
    by (rule handshake_fuel [OF _ r]) (use that in simp)
  then show ?thesis
    by blast
qed

lemma known_urls_keys: "known_urls s = fst ` set (peers (sys_p2p s))"
proof -
  have "find_peer (sys_p2p s) = map_of (peers (sys_p2p s))"
    by (rule ext) (simp add: find_peer_def)
  then show ?thesis
    by (simp add: known_urls_def dom_map_of_conv_image_fst)
qed

lemma toy_known: "known_urls (toy_system n) = {}"
  by (simp add: known_urls_keys toy_system_def new_p2p_manager_def)

text \<open>Two peers that advertise each other and have no blocks.\<close>

definition toy_mesh :: "(unit, toy_json) platform" where
  "toy_mesh = \<lparr>pf_post = (\<lambda>w u p b. (w, Some (200, Toy_object
       [(''known_peers'', Toy_array [Toy_string ''http://a'', Toy_string ''http://b''])]))),
     pf_get = (\<lambda>w u q. (w, None)), pf_now = (\<lambda>w. 7), pf_elapsed_ms = (\<lambda>w w'. 1), pf_order = (\<lambda>ks. ks)\<rparr>"

theorem handshake_terminates_witness:
  "\<exists>r. \<forall>fuel > 3. handshake_with_peer fuel toy_lmdb toy_sodium toy_json_lib toy_mesh (toy_system toy_node) ''http://a'' = Some r"
proof -
  let ?U = "{''http://a'', ''http://b''}"
  have a: "normalize_url ''http://a'' = ''http://a''"
    by code_simp
  have b: "normalize_url ''http://b'' = ''http://b''"
    by code_simp
  have "known_peers toy_json_lib (Toy_object [(''known_peers'', Toy_array [Toy_string ''http://a'', Toy_string ''http://b''])])
      = [Toy_string ''http://a'', Toy_string ''http://b'']"
    by (simp add: known_peers_def json_contains_def)
  then have "advertised_within ?U toy_json_lib toy_mesh"
    unfolding advertised_within_def toy_mesh_def using a b by (simp add: ball_Un)
  moreover have "full_batches_rank (\<lambda>w. 0) toy_json_lib toy_mesh"
    by (simp add: full_batches_rank_def toy_mesh_def batch_of_def)
  moreover have "contacts_left ?U (\<lambda>w. 0) (toy_system toy_node) = 2"
    by (simp add: contacts_left_def toy_known)
  ultimately show ?thesis
    using handshake_terminates [of ?U toy_json_lib toy_mesh "\<lambda>w. 0" "toy_system toy_node"] by simp
qed

section \<open>A peer that invents addresses\<close>

text \<open>A host that answers every handshake, at whatever address, with one address more.\<close>

definition invents_addresses :: "('j, 't) json_lib \<Rightarrow> ('w, 't) platform \<Rightarrow> bool" where
  "invents_addresses J P \<longleftrightarrow>
     (\<forall>w url p b. \<exists>w' body. pf_post P w url p b = (w', Some (200, body))
        \<and> js_parse J body = Some (js_object J [(''known_peers'', js_array J [js_string J (url @ ''x'')])]))"

lemma normalize_longer:
  assumes "normalize_url u = u" and "u \<noteq> []"
  shows "normalize_url (u @ ''x'') = u @ ''x''"
proof -
  have s: "starts_with ''http://'' u \<or> starts_with ''https://'' u"
    using assms by (auto simp: normalize_url_def split: if_splits)
  have longer: "starts_with p (u @ ''x'')" if "starts_with p u" for p
    using that by (auto elim!: starts_withE)
  have "u = (if last u = CHR ''/'' then butlast u else u)" and "\<not> list_ex bad_url_char u"
    using assms s by (auto simp: normalize_url_def Let_def split: if_splits)
  moreover have "\<not> bad_url_char (CHR ''x'')"
    by (simp add: bad_url_char_def)
  ultimately show ?thesis
    using s longer by (auto simp: normalize_url_def Let_def)
qed

lemma record_invented:
  assumes "json_ok J"
  shows "\<exists>p. record_peer J P before s c (js_object J [(''known_peers'', x)]) = (s\<lparr>sys_p2p := set_peer c p (sys_p2p s)\<rparr>, Inr 0)"
  by (auto simp: record_peer_def json_object_simps [OF assms] Let_def)

text \<open>
  A host can make a handshake recurse for ever. If it answers a handshake at any of
  its addresses with one more address, longer than all the others known, then the node
  registers that and starts a handshake with it inside the first one, and so on: no depth
  of recursion is enough.
\<close>

theorem invented_addresses_never_end:
  assumes "json_ok J" and "invents_addresses J P" and "normalize_url u = u" and "u \<noteq> []"
    and "\<forall>url \<in> known_urls s. length url \<le> length u" and "length (local_listen_url (sys_p2p s)) \<le> length u"
    and "u \<noteq> local_listen_url (sys_p2p s)"
  shows "handshake_with_peer fuel L S J P s u = None"
  using assms(3-)
proof (induction fuel arbitrary: s u)
  case (Suc fuel)
  obtain w body where post: "pf_post P (sys_world s) u ''/api/v1/p2p/handshake'' (handshake_request J s) = (w, Some (200, body))"
    and parse: "js_parse J body = Some (js_object J [(''known_peers'', js_array J [js_string J (u @ ''x'')])])"
    using assms(2) unfolding invents_addresses_def by blast
  obtain p where rec: "record_peer J P (sys_world s) (s\<lparr>sys_world := w\<rparr>) u
      (js_object J [(''known_peers'', js_array J [js_string J (u @ ''x'')])])
      = (s\<lparr>sys_world := w, sys_p2p := set_peer u p (sys_p2p s)\<rparr>, Inr 0)"
    using record_invented [OF assms(1), of P "sys_world s" "s\<lparr>sys_world := w\<rparr>" u] by auto
  let ?s = "s\<lparr>sys_world := w, sys_p2p := set_peer u p (sys_p2p s)\<rparr>" and ?v = "u @ ''x''"
  have known: "known_peers J (js_object J [(''known_peers'', js_array J [js_string J ?v])]) = [js_string J ?v]"
    by (simp add: known_peers_def json_object_simps [OF assms(1)] json_okD [OF assms(1)])
  have v: "normalize_url ?v = ?v"
    by (rule normalize_longer [OF Suc.prems(1,2)])
  have other: "?v \<noteq> local_listen_url (sys_p2p s)"
    using Suc.prems(4) by (metis length_append_singleton not_less_eq_eq order_refl)
  have fresh: "find_peer (sys_p2p ?s) ?v = None"
  proof (rule ccontr)
    assume "find_peer (sys_p2p ?s) ?v \<noteq> None"
    then have "?v \<in> known_urls s"
      by (auto simp: known_urls_def split: if_splits)
    with Suc.prems(3) show False
      by fastforce
  qed
  have "handshake_with_peer fuel L S J P (?s\<lparr>sys_p2p := set_peer ?v (new_peer\<lparr>peer_address := ?v\<rparr>) (sys_p2p ?s)\<rparr>) ?v = None"
  proof (rule Suc.IH [OF v])
    show "\<forall>url \<in> known_urls (?s\<lparr>sys_p2p := set_peer ?v (new_peer\<lparr>peer_address := ?v\<rparr>) (sys_p2p ?s)\<rparr>). length url \<le> length ?v"
    proof
      fix url
      assume "url \<in> known_urls (?s\<lparr>sys_p2p := set_peer ?v (new_peer\<lparr>peer_address := ?v\<rparr>) (sys_p2p ?s)\<rparr>)"
      then have "url = ?v \<or> url = u \<or> url \<in> known_urls s"
        by (auto simp: known_urls_def split: if_splits)
      with Suc.prems(3) show "length url \<le> length ?v"
        by auto
    qed
  qed (use Suc.prems(4) other in simp_all)
  then have "add_peer_with (handshake_with_peer fuel L S J P) ?s ?v = None"
    using v fresh other by (simp add: add_peer_with_def)
  with other have ex: "exchange_peers (handshake_with_peer fuel L S J P) J u ?s [js_string J ?v] = None"
    by (simp add: json_okD [OF assms(1)])
  show ?case
    using Suc.prems(1,2,5)
    by (simp add: handshake_step_def post parse rec known ex Let_def del: exchange_peers.simps)
qed simp

definition toy_inventor :: "(unit, toy_json) platform" where
  "toy_inventor = \<lparr>pf_post = (\<lambda>w u p b. (w, Some (200, Toy_object
       [(''known_peers'', Toy_array [Toy_string (u @ ''x'')])]))),
     pf_get = (\<lambda>w u q. (w, None)), pf_now = (\<lambda>w. 7), pf_elapsed_ms = (\<lambda>w w'. 1), pf_order = (\<lambda>ks. ks)\<rparr>"

theorem invented_addresses_never_end_witness:
  "\<forall>fuel. handshake_with_peer fuel toy_lmdb toy_sodium toy_json_lib toy_inventor (toy_system toy_node) ''http://evil'' = None"
proof -
  have u: "normalize_url ''http://evil'' = ''http://evil''"
    by code_simp
  have me: "local_listen_url (sys_p2p (toy_system toy_node)) = ''http://me''"
    by code_simp
  have "invents_addresses toy_json_lib toy_inventor"
    by (simp add: invents_addresses_def toy_inventor_def)
  from invented_addresses_never_end [OF toy_json_ok this u, of "toy_system toy_node"] show ?thesis
    by (simp add: toy_known me)
qed

section \<open>The table of peers\<close>

text \<open>The operations of the manager and of the handlers that reach it, and all that happens
  beside them; the result of a node operation has no influence.\<close>

inductive p2p_step ::
  "'s lmdb \<Rightarrow> sodium \<Rightarrow> ('j, 't) json_lib \<Rightarrow> ('w, 't) platform \<Rightarrow> ('s, 'w) system \<Rightarrow> ('s, 'w) system \<Rightarrow> bool"
  for L S J P where
  step_start: "p2p_step L S J P s (s\<lparr>sys_p2p := start_p2p (sys_p2p s)\<rparr>)"
| step_stop: "p2p_step L S J P s (s\<lparr>sys_p2p := stop_p2p (sys_p2p s)\<rparr>)"
| step_remove: "p2p_step L S J P s (s\<lparr>sys_p2p := remove_peer (sys_p2p s) url\<rparr>)"
| step_add: "add_peer fuel L S J P s url = Some (s', v) \<Longrightarrow> p2p_step L S J P s s'"
| step_handshake: "handshake_with_peer fuel L S J P s url = Some (s', v) \<Longrightarrow> p2p_step L S J P s s'"
| step_heartbeat: "background_round fuel L S J P s = Some (s', v) \<Longrightarrow> p2p_step L S J P s s'"
| step_download: "sync_from_peer fuel L S J P s url = Some (s', v) \<Longrightarrow> p2p_step L S J P s s'"
| step_push: "p2p_step L S J P s (fst (push_blocks_to_peer L S J P s url h))"
| step_mining: "mining J S P (operation :: 's node \<Rightarrow> 's node \<times> unit) s = (s', r) \<Longrightarrow> p2p_step L S J P s s'"
| step_handshake_request: "p2p_step L S J P s (fst (handle_handshake J C P s req))"
| step_peer_request: "handle_add_peer fuel L S J C P s req = Some (s', r) \<Longrightarrow> p2p_step L S J P s s'"
| step_block_request: "handle_block fuel L S J C rejection_text P s req = Some (s', r) \<Longrightarrow> p2p_step L S J P s s'"
| step_outside: "p2p_step L S J P s (s\<lparr>sys_node := n, sys_world := w\<rparr>)"

text \<open>What a step keeps: the identity of the manager, and a well-formed table.\<close>

definition keeps_table :: "('s, 'w) system \<Rightarrow> ('s, 'w) system \<Rightarrow> bool" where
  "keeps_table s s' \<longleftrightarrow>
     local_listen_url (sys_p2p s') = local_listen_url (sys_p2p s) \<and> local_node_id (sys_p2p s') = local_node_id (sys_p2p s)
   \<and> (peers_ok (sys_p2p s) \<longrightarrow> peers_ok (sys_p2p s'))"

lemma keeps_table_trans: "keeps_table s1 s2 \<Longrightarrow> keeps_table s2 s3 \<Longrightarrow> keeps_table s1 s3"
  by (simp add: keeps_table_def)

lemma evolves_keeps_table: "evolves (\<lambda>w. 0) s s' \<Longrightarrow> keeps_table s s'"
  by (simp add: evolves_def keeps_table_def)

lemma keeps_same_peers: "sys_p2p s' = sys_p2p s \<Longrightarrow> keeps_table s s'"
  by (simp add: keeps_table_def)

text \<open>Gossip only updates entries.\<close>

definition same_table :: "p2p_manager \<Rightarrow> p2p_manager \<Rightarrow> bool" where
  "same_table M M' \<longleftrightarrow> local_listen_url M' = local_listen_url M \<and> local_node_id M' = local_node_id M
     \<and> (peers_ok M \<longrightarrow> peers_ok M')"

lemma gossip_to_table:
  assumes "hashes_32 S"
  shows "same_table (fst mw) (fst (gossip_to S P b payload mw url))"
proof -
  have "length (block_hash S b) = 32"
    using assms by (simp add: hashes_32_def block_hash_def header_hash_def)
  then show ?thesis
    by (auto simp: gossip_to_def same_table_def split: prod.split option.split intro!: peers_ok_update_peer)
qed

lemma gossip_table:
  assumes "hashes_32 S"
  shows "same_table (fst mw) (fst (foldl (gossip_to S P b payload) mw urls))"
proof (induction urls arbitrary: mw)
  case (Cons url urls)
  show ?case
    using Cons [of "gossip_to S P b payload mw url"] gossip_to_table [OF assms, of mw P b payload url]
    by (simp add: same_table_def)
qed (simp add: same_table_def)

lemma broadcast_table:
  assumes "hashes_32 S" and "broadcast_block J S P M w b skip = ((M', w'), r)"
  shows "same_table M M'"
  using assms(2) gossip_table [OF assms(1), of "(M, w)" P b "block_payload J S M b raw" for raw]
  by (auto simp: broadcast_block_def Let_def same_table_def split: if_splits sum.splits)
     (metis fst_conv)+

lemma mined_table:
  assumes "hashes_32 S"
  shows "same_table (fst mw) (fst (gossip_mined J S P mined mw))"
proof (induction mined arbitrary: mw)
  case (Cons b mined)
  obtain M' w' r where b: "broadcast_block J S P (fst mw) (snd mw) b [] = ((M', w'), r)"
    by (metis prod.collapse)
  show ?case
    using Cons [of "(M', w')"] broadcast_table [OF assms b] by (simp add: gossip_mined_def b same_table_def)
qed (simp add: gossip_mined_def same_table_def)

lemma received_block_table:
  assumes "hashes_32 S" and "handle_block fuel L S J C rejection_text P s req = Some (s', r)"
  shows "keeps_table s s'"
proof -
  have sync: "keeps_table s1 s2" if "sync_from_peer fuel L S J P s1 u = Some (s2, v)" for s1 s2 u v
    using that by (auto simp: sync_from_peer_def Let_def split: if_splits option.splits intro!: keeps_same_peers)
  have refused: "keeps_table s1 s2"
    if "refused_gossip fuel L S J C rejection_text P s1 blk u why = Some (s2, r2)" for s1 s2 blk u why r2
    using that by (auto simp: refused_gossip_def split: if_splits option.splits prod.splits verdict.splits
        dest: sync intro: keeps_same_peers)
  have accepted: "keeps_table s1 (fst (accepted_gossip S J C P s1 blk u))" for s1 blk u
  proof (cases "p2p_attached C")
    case True
    obtain M' w' e where b: "broadcast_block J S P (sys_p2p s1) (sys_world s1) blk u = ((M', w'), e)"
      by (metis prod.collapse)
    show ?thesis
      using broadcast_table [OF assms(1) b]
      by (auto simp: accepted_gossip_def True b keeps_table_def same_table_def split: sum.split)
  qed (simp add: accepted_gossip_def keeps_table_def)
  have node: "keeps_table (s\<lparr>sys_node := n\<rparr>) s2 \<Longrightarrow> keeps_table s s2" for n s2
    by (simp add: keeps_table_def)
  have acc: "keeps_table s s2" if "accepted_gossip S J C P (s\<lparr>sys_node := n\<rparr>) blk u = (s2, r2)" for n blk u s2 r2
    using accepted [of "s\<lparr>sys_node := n\<rparr>" blk u] that node by simp
  show ?thesis
    using assms(2) node [OF refused] acc
    by (auto simp: handle_block_def intro: keeps_same_peers
        split: sum.splits prod.splits if_splits remote_result.splits stop.splits)
qed

lemma handshake_request_table: "keeps_table s (fst (handle_handshake J C P s req))"
proof -
  have "length (key_array bs) = 32" for bs
    by (simp add: key_array_def zero_key_def)
  moreover have "local_listen_url (register_incoming_peer now M u i h t) = local_listen_url M"
    "local_node_id (register_incoming_peer now M u i h t) = local_node_id M" for now M u i h t
    by (simp_all add: register_incoming_peer_def Let_def)
  ultimately show ?thesis
    by (auto simp: handle_handshake_def keeps_table_def Let_def ebind_eq_Inr zero_key_def
        split: sum.split if_splits prod.splits intro!: peers_ok_register)
qed

lemma peers_ok_running: "peers_ok (M\<lparr>is_running := r\<rparr>) = peers_ok M"
  by (simp add: peers_ok_def find_peer_def)

lemma keeps_running:
  "keeps_table s (s\<lparr>sys_p2p := start_p2p (sys_p2p s)\<rparr>)" "keeps_table s (s\<lparr>sys_p2p := stop_p2p (sys_p2p s)\<rparr>)"
  by (simp_all add: keeps_table_def start_p2p_def stop_p2p_def peers_ok_running)

lemma keeps_remove: "keeps_table s (s\<lparr>sys_p2p := remove_peer (sys_p2p s) url\<rparr>)"
  by (simp add: keeps_table_def peers_ok_remove) (simp add: remove_peer_def)

lemma push_table: "sys_p2p (fst (push_blocks_to_peer L S J P s u h)) = sys_p2p s"
  by (simp add: push_blocks_to_peer_def Let_def split: prod.split)

lemma mining_table: "hashes_32 S \<Longrightarrow> mining J S P operation s = (s', r) \<Longrightarrow> keeps_table s s'"
  using mined_table [of S "(sys_p2p s, sys_world s)" J P mined for mined]
  by (auto simp: mining_def keeps_table_def same_table_def split: prod.splits) (metis fst_conv)+

lemma p2p_step_keeps_table:
  assumes "hashes_32 S"
  shows "p2p_step L S J P s s' \<Longrightarrow> keeps_table s s'"
proof (induction rule: p2p_step.induct)
  case (step_add fuel s url s' v)
  then show ?case
    by (auto simp: add_peer_def intro: evolves_keeps_table contact.add_peer_rel)
next
  case (step_handshake fuel s url s' v)
  then show ?case
    by (auto intro: evolves_keeps_table handshake_evolves [OF quiet_zero])
next
  case (step_heartbeat fuel s s' v)
  then show ?case
    by (auto simp: background_round_def intro: evolves_keeps_table contact.heartbeat_rel)
next
  case (step_peer_request fuel C s req s' r)
  have "keeps_table s s1" if "add_peer fuel L S J P s u = Some (s1, v)" for u s1 v
    using that by (auto simp: add_peer_def intro: evolves_keeps_table contact.add_peer_rel)
  with step_peer_request show ?case
    by (auto simp: handle_add_peer_def keeps_same_peers split: sum.splits option.splits if_splits verdict.splits)
next
  case (step_download fuel s url s' v)
  then show ?case
    by (auto simp: sync_from_peer_def Let_def split: if_splits option.splits intro!: keeps_same_peers)
qed (use assms in \<open>auto simp: push_table intro: keeps_running keeps_remove mining_table handshake_request_table
       received_block_table keeps_same_peers\<close>)

text \<open>
  C21: the table of peers is well typed in every reachable state. From a new manager,
  whatever operations, requests, replies and changes of the node follow, every registered
  address is printable text of one of the two schemes and not the address of the node,
  stands for one entry, which repeats it and has a top hash of 32 bytes; and the identity
  of the manager stays.
\<close>

theorem peer_table_well_formed:
  assumes "hashes_32 S" and "rtranclp (p2p_step L S J P) s s'"
    and "sys_p2p s = new_p2p_manager listen_url node_id rand_id"
  shows "peers_ok (sys_p2p s') \<and> local_listen_url (sys_p2p s') = normalize_url listen_url
    \<and> local_node_id (sys_p2p s') = local_node_id (sys_p2p s)"
proof -
  have "keeps_table s s'"
    using assms(2)
  proof (induction rule: rtranclp_induct)
    case (step s1 s2)
    then show ?case
      using p2p_step_keeps_table [OF assms(1)] keeps_table_trans by blast
  qed (simp add: keeps_table_def)
  then show ?thesis
    using peers_ok_new [of listen_url node_id rand_id] by (simp add: keeps_table_def assms(3)) (simp add: new_p2p_manager_def)
qed

text \<open>A peer that cannot be reached stays registered.\<close>

theorem peer_table_well_formed_witness:
  "\<exists>s'. add_peer 1 toy_lmdb toy_sodium toy_json_lib (toy_server toy_node) (toy_system toy_node) ''http://a/'' = Some (s', Returned False)
    \<and> known_urls s' = {''http://a''} \<and> peers_ok (sys_p2p s')"
proof -
  have url: "normalize_url ''http://a/'' = ''http://a''" "normalize_url ''http://a'' = ''http://a''"
    by code_simp+
  have me: "normalize_url ''http://me'' = ''http://me''"
    by code_simp
  obtain s' where s': "add_peer 1 toy_lmdb toy_sodium toy_json_lib (toy_server toy_node) (toy_system toy_node) ''http://a/'' = Some (s', Returned False)"
    and known: "known_urls s' = {''http://a''}"
    by (auto simp: add_peer_def add_peer_with_def url me toy_system_def new_p2p_manager_def find_peer_def
        handshake_step_def toy_server_def known_urls_keys mark_disconnected_def update_peer_def set_peer_def Let_def)
  have "p2p_step toy_lmdb toy_sodium toy_json_lib (toy_server toy_node) (toy_system toy_node) s'"
    by (rule step_add [OF s'])
  moreover have "hashes_32 toy_sodium"
    by (simp add: hashes_32_def)
  moreover have "sys_p2p (toy_system toy_node) = new_p2p_manager ''http://me'' ''n1'' []"
    by (simp add: toy_system_def)
  ultimately have "peers_ok (sys_p2p s')"
    using peer_table_well_formed by blast
  with s' known show ?thesis
    by blast
qed

end
