(* ===== verification/Http.thy ===== *)
theory Http
  imports Services
begin

text \<open>
  The parts of the vendored \<^verbatim>\<open>include/httplib.h\<close> that decide which handler of the server sees
  what: percent encoding, query parameters, the request line, and which files a mounted
  directory serves. Connections, headers, compression and the transport are not modelled.
\<close>

section \<open>Percent encoding\<close>

definition is_hex :: "char \<Rightarrow> nat option" where
  "is_hex c = (let k = (of_char c :: nat) in
     if 48 \<le> k \<and> k \<le> 57 then Some (k - 48)
     else if 65 \<le> k \<and> k \<le> 70 then Some (k - 65 + 10)
     else if 97 \<le> k \<and> k \<le> 102 then Some (k - 97 + 10)
     else None)"

text \<open>The text from the index on; its end reads as a character that is no digit.\<close>

fun from_hex_to_i :: "nat \<Rightarrow> nat \<Rightarrow> string \<Rightarrow> nat option" where
  "from_hex_to_i 0 val s = Some val"
| "from_hex_to_i (Suc cnt) val [] = None"
| "from_hex_to_i (Suc cnt) val (c # s) =
     (case is_hex c of None \<Rightarrow> None | Some v \<Rightarrow> from_hex_to_i cnt (val * 16 + v) s)"

definition to_utf8 :: "nat \<Rightarrow> string" where
  "to_utf8 code =
     (if code < 128 then [char_of code]
      else if code < 2048 then [char_of (192 + code div 64 mod 32), char_of (128 + code mod 64)]
      else if code < 55296
      then [char_of (224 + code div 4096 mod 16), char_of (128 + code div 64 mod 64), char_of (128 + code mod 64)]
      else if code < 57344 then []
      else if code < 65536
      then [char_of (224 + code div 4096 mod 16), char_of (128 + code div 64 mod 64), char_of (128 + code mod 64)]
      else if code < 1114112
      then [char_of (240 + code div 262144 mod 8), char_of (128 + code div 4096 mod 64),
            char_of (128 + code div 64 mod 64), char_of (128 + code mod 64)]
      else [])"

function decode_url :: "bool \<Rightarrow> string \<Rightarrow> string" where
  "decode_url spaces [] = []"
| "decode_url spaces (c # s) =
     (if c = CHR ''%'' \<and> s \<noteq> [] then
        if hd s = CHR ''u'' then
          (case from_hex_to_i 4 0 (tl s) of
             Some val \<Rightarrow> to_utf8 val @ decode_url spaces (drop 5 s)
           | None \<Rightarrow> c # decode_url spaces s)
        else
          (case from_hex_to_i 2 0 s of
             Some val \<Rightarrow> char_of val # decode_url spaces (drop 2 s)
           | None \<Rightarrow> c # decode_url spaces s)
      else if spaces \<and> c = CHR ''+'' then CHR '' '' # decode_url spaces s
      else c # decode_url spaces s)"
  by pat_completeness auto

termination
  by (relation "measure (length \<circ> snd)") auto

definition upper_hex :: "nat \<Rightarrow> char" where
  "upper_hex n = (if n < 10 then char_of (48 + n) else char_of (55 + n))"

definition percent :: "char \<Rightarrow> string" where
  "percent c = (let k = (of_char c :: nat) in [CHR ''%'', upper_hex (k div 16), upper_hex (k mod 16)])"

definition is_alnum :: "char \<Rightarrow> bool" where
  "is_alnum c = (let k = (of_char c :: nat) in
     48 \<le> k \<and> k \<le> 57 \<or> 65 \<le> k \<and> k \<le> 90 \<or> 97 \<le> k \<and> k \<le> 122)"

definition unreserved :: "char \<Rightarrow> bool" where
  "unreserved c \<longleftrightarrow> is_alnum c \<or> list_ex (\<lambda>d. d = c) [CHR ''-'', CHR ''_'', CHR ''.'', CHR ''!'', CHR ''~'', CHR ''*'', CHR 0x27, CHR ''('', CHR '')'']"

definition encode_query_param :: "string \<Rightarrow> string" where
  "encode_query_param value = concat (map (\<lambda>c. if unreserved c then [c] else percent c) value)"

text \<open>The encoding of a whole address leaves the percent sign alone and ends at a zero character.\<close>

definition escaped_in_url :: "char \<Rightarrow> bool" where
  "escaped_in_url c \<longleftrightarrow> list_ex (\<lambda>d. d = c) [CHR '' '', CHR ''+'', CHR 0x0D, CHR 0x0A, CHR 0x27, CHR '','', CHR '';'']
     \<or> (of_char c :: nat) \<ge> 128"

definition encode_url :: "string \<Rightarrow> string" where
  "encode_url s = concat (map (\<lambda>c. if escaped_in_url c then percent c else [c]) (takeWhile (\<lambda>c. c \<noteq> CHR 0x00) s))"

section \<open>Splitting text\<close>

definition is_space_or_tab :: "char \<Rightarrow> bool" where
  "is_space_or_tab c \<longleftrightarrow> c = CHR '' '' \<or> c = CHR 0x09"

definition trim_copy :: "string \<Rightarrow> string" where
  "trim_copy s = rev (dropWhile is_space_or_tab (rev (dropWhile is_space_or_tab s)))"

definition divide_at :: "char \<Rightarrow> string \<Rightarrow> string \<times> string" where
  "divide_at d s = (takeWhile (\<lambda>c. c \<noteq> d) s, drop 1 (dropWhile (\<lambda>c. c \<noteq> d) s))"

fun pieces :: "char \<Rightarrow> string \<Rightarrow> string list" where
  "pieces d [] = [[]]"
| "pieces d (c # s) = (if c = d then [] # pieces d s else case pieces d s of [] \<Rightarrow> [[c]] | t # ts \<Rightarrow> (c # t) # ts)"

text \<open>The pieces between separators, without blanks around them, those that are not empty.\<close>

definition split_at :: "char \<Rightarrow> string \<Rightarrow> string list" where
  "split_at d s = filter (\<lambda>t. t \<noteq> []) (map trim_copy (pieces d s))"

section \<open>Query parameters and the request line\<close>

text \<open>Pairs in the order of their first occurrence; a lookup gives the first value of a name.\<close>

definition parse_query_text :: "string \<Rightarrow> (string \<times> string) list" where
  "parse_query_text s =
     map (\<lambda>(k, v). (decode_url True k, decode_url True v))
       (filter (\<lambda>kv. fst kv \<noteq> []) (map (divide_at (CHR ''='')) (rev (remdups (rev (split_at (CHR ''&'') s))))))"

definition http_methods :: "string list" where
  "http_methods = [''GET'', ''HEAD'', ''POST'', ''PUT'', ''DELETE'', ''CONNECT'', ''OPTIONS'', ''TRACE'', ''PATCH'', ''PRI'']"

text \<open>Method, path and parameters.\<close>

definition parse_request_line :: "string \<Rightarrow> (string \<times> string \<times> (string \<times> string) list) option" where
  "parse_request_line line =
     (let s = takeWhile (\<lambda>c. c \<noteq> CHR 0x00) line in
      if length s < 2 \<or> last (butlast s) \<noteq> CHR 0x0D \<or> last s \<noteq> CHR 0x0A then None
      else case split_at (CHR '' '') (butlast (butlast s)) of
        [method, target, version] \<Rightarrow>
          if \<not> list_ex (\<lambda>m. m = method) http_methods \<or> version \<noteq> ''HTTP/1.1'' \<and> version \<noteq> ''HTTP/1.0'' then None
          else (case divide_at (CHR ''?'') (takeWhile (\<lambda>c. c \<noteq> CHR ''#'') target) of
                  (path, query) \<Rightarrow> Some (method, decode_url False path, parse_query_text query))
      | _ \<Rightarrow> None)"

text \<open>The line a client writes.\<close>

definition write_request_line :: "string \<Rightarrow> string \<Rightarrow> string" where
  "write_request_line method path = method @ '' '' @ encode_url path @ '' HTTP/1.1'' @ [CHR 0x0D, CHR 0x0A]"

text \<open>The query that a client writes for its parameters.\<close>

fun params_to_query_str :: "(string \<times> string) list \<Rightarrow> string" where
  "params_to_query_str [] = []"
| "params_to_query_str [(k, v)] = k @ ''='' @ encode_query_param v"
| "params_to_query_str ((k, v) # kv # params) = k @ ''='' @ encode_query_param v @ ''&'' @ params_to_query_str (kv # params)"

section \<open>Mounted files\<close>

fun valid_components :: "nat \<Rightarrow> string list \<Rightarrow> bool" where
  "valid_components level [] = True"
| "valid_components level (c # cs) =
     (if list_ex (\<lambda>x. x = CHR 0x00 \<or> x = CHR 0x5C) c then False
      else if c = ''.'' then valid_components level cs
      else if c = ''..'' then level \<noteq> 0 \<and> valid_components (level - 1) cs
      else valid_components (level + 1) cs)"

definition path_components :: "string \<Rightarrow> string list" where
  "path_components path = filter (\<lambda>c. c \<noteq> []) (pieces (CHR ''/'') path)"

definition is_valid_path :: "string \<Rightarrow> bool" where
  "is_valid_path path = valid_components 0 (path_components path)"

text \<open>What the file system has at a path: a regular file may not open.\<close>

datatype 't path_stat = Absent | Directory | Regular "'t option"

text \<open>One directory mounted at \<^verbatim>\<open>/\<close>; \<open>None\<close> when the request goes on to the handlers.\<close>

definition handle_file_request ::
  "(string \<Rightarrow> 't path_stat) \<Rightarrow> 't \<Rightarrow> string option \<Rightarrow> string \<Rightarrow> 't reply option" where
  "handle_file_request stat nothing base_dir path =
     (case base_dir of None \<Rightarrow> None
      | Some dir \<Rightarrow>
          if take 1 path \<noteq> ''/'' then None
          else let sub_path = ''/'' @ drop 1 path in
            if \<not> is_valid_path sub_path then None
            else (case stat (dir @ sub_path @ (if last sub_path = CHR ''/'' then ''index.html'' else [])) of
                Absent \<Rightarrow> None
              | Directory \<Rightarrow> Some \<lparr>reply_status = 301, reply_content = nothing\<rparr>
              | Regular None \<Rightarrow> None
              | Regular (Some content) \<Rightarrow> Some \<lparr>reply_status = 200, reply_content = content\<rparr>))"

section \<open>Lemmas\<close>

lemma upper_hex_value: "n < 16 \<Longrightarrow> is_hex (upper_hex n) = Some n"
  by (auto simp: upper_hex_def is_hex_def Let_def)

lemma upper_hex_not_u: "n < 16 \<Longrightarrow> upper_hex n \<noteq> CHR ''u''"
  using upper_hex_value [of n] by (auto simp: is_hex_def)

lemma of_char_less [simp]: "(of_char (c :: char) :: nat) < 256"
  by (metis of_char_mod_256 mod_less_divisor zero_less_numeral)

lemma decode_percent: "decode_url spaces (percent c @ s) = c # decode_url spaces s"
proof -
  let ?k = "of_char c :: nat"
  have d: "?k div 16 < 16" "?k mod 16 < 16"
    using of_char_less [of c] by (auto simp: less_mult_imp_div_less)
  have "?k div 16 * 16 + ?k mod 16 = ?k"
    by simp
  then have "char_of (?k div 16 * 16 + ?k mod 16) = c"
    by (simp only: char_of_char)
  then show ?thesis
    using d by (simp add: percent_def Let_def upper_hex_not_u upper_hex_value numeral_2_eq_2)
qed

lemma decode_plain: "c \<noteq> CHR ''%'' \<Longrightarrow> \<not> (spaces \<and> c = CHR ''+'') \<Longrightarrow> decode_url spaces (c # s) = c # decode_url spaces s"
  by simp

declare decode_url.simps(2) [simp del]

lemma decode_encoded:
  assumes "\<forall>c \<in> set s. \<not> f c \<longrightarrow> c \<noteq> CHR ''%'' \<and> \<not> (spaces \<and> c = CHR ''+'')"
  shows "decode_url spaces (concat (map (\<lambda>c. if f c then percent c else [c]) s) @ t) = s @ decode_url spaces t"
  using assms by (induction s) (simp_all add: decode_percent decode_plain)

end
