(* ===== verification/NumberText.thy ===== *)
theory NumberText
  imports Rpc Http
begin

text \<open>
  \<^verbatim>\<open>std::stod\<close>, with which the command line wallet reads amounts: decimal and hexadecimal
  numbers, infinities and not-a-numbers of the locale \<^verbatim>\<open>C\<close>, correctly rounded. The main
  lemma says that a typed amount with up to six decimals arrives as exactly that amount.
\<close>

section \<open>Rounding a quotient\<close>

text \<open>
  The double nearest to \<open>p / q\<close>, for \<open>0 < q\<close>. The quotient is computed to 55 or 56 bits,
  and a last bit tells whether there is a remainder. A magnitude of at least \<open>2 ^ 1024\<close>
  and an inexact one below the normal numbers set \<^verbatim>\<open>errno\<close>, which \<^verbatim>\<open>std::stod\<close> throws as
  \<^verbatim>\<open>std::out_of_range\<close>.
\<close>

definition nearest_double :: "bool \<Rightarrow> nat \<Rightarrow> nat \<Rightarrow> error + double" where
  "nearest_double negative p q =
     (if p = 0 then Inr (Finite negative 0 0)
      else
        let e = int (bit_length p) - int (bit_length q) - 55;
            (p', q') = (if e \<ge> 0 then (p, q * 2 ^ nat e) else (p * 2 ^ nat (- e), q));
            n = 2 * (p' div q') + (if p' mod q' = 0 then 0 else 1);
            d = max (bit_length n - 53) (nat (- 1074 - (e - 1)));
            r = round_half_even n d;
            tiny = (case to_binary64 (n, e - 1) of (m', e') \<Rightarrow> int (bit_length m') + e' \<le> - 1022)
        in if int (bit_length r) + (e - 1 + int d) > 1024 then Inl (Service_error Number_out_of_range)
           else if tiny \<and> n mod 2 ^ d \<noteq> 0 then Inl (Service_error Number_out_of_range)
           else (case lowest_terms (r, e - 1 + int d) of (m, e') \<Rightarrow> Inr (Finite negative m e')))"

section \<open>Reading a number\<close>

text \<open>The digits before and after a point, and what follows.\<close>

definition mantissa :: "(char \<Rightarrow> bool) \<Rightarrow> string \<Rightarrow> string \<times> string \<times> string" where
  "mantissa digit s =
     (let whole = takeWhile digit s in
      case dropWhile digit s of
        [] \<Rightarrow> (whole, [], [])
      | c # rest \<Rightarrow> if c = CHR ''.'' then (whole, takeWhile digit rest, dropWhile digit rest)
                    else (whole, [], c # rest))"

text \<open>An exponent after its mark; without digits it is not part of the number.\<close>

definition exponent_after :: "char \<Rightarrow> string \<Rightarrow> int" where
  "exponent_after mark s =
     (case s of [] \<Rightarrow> 0
      | c # rest \<Rightarrow>
          if to_lower c \<noteq> mark then 0
          else (case split_sign rest of (negative, rest) \<Rightarrow>
            let v = int (dec_value (takeWhile is_digit rest)) in if negative then - v else v))"

definition scaled :: "bool \<Rightarrow> nat \<Rightarrow> nat \<Rightarrow> int \<Rightarrow> error + double" where
  "scaled negative m base k =
     (if k \<ge> 0 then nearest_double negative (m * base ^ nat k) 1 else nearest_double negative m (base ^ nat (- k)))"

definition hex_digits_value :: "string \<Rightarrow> nat" where
  "hex_digits_value s = foldl (\<lambda>v c. 16 * v + the (is_hex c)) 0 s"

definition hex_float :: "bool \<Rightarrow> string \<Rightarrow> error + double" where
  "hex_float negative s =
     (case mantissa (\<lambda>c. is_hex c \<noteq> None) s of (whole, decimals, rest) \<Rightarrow>
        if whole = [] \<and> decimals = [] then Inr (Finite negative 0 0)
        else scaled negative (hex_digits_value (whole @ decimals)) 2
               (exponent_after (CHR ''p'') rest - 4 * int (length decimals)))"

definition decimal_float :: "bool \<Rightarrow> string \<Rightarrow> error + double" where
  "decimal_float negative s =
     (case mantissa is_digit s of (whole, decimals, rest) \<Rightarrow>
        if whole = [] \<and> decimals = [] then Inl (Service_error Number_missing)
        else scaled negative (dec_value (whole @ decimals)) 10
               (exponent_after (CHR ''e'') rest - int (length decimals)))"

definition stod :: "string \<Rightarrow> error + double" where
  "stod s =
     (case split_sign (dropWhile is_space s) of (negative, rest) \<Rightarrow>
        let low = map to_lower rest
        in if starts_with ''inf'' low then Inr (Infinite negative)
           else if starts_with ''nan'' low then Inr Not_a_number
           else if starts_with ''0x'' low then hex_float negative (drop 2 rest)
           else decimal_float negative rest)"

section \<open>Typed amounts\<close>

text \<open>The quotient before its rounding.\<close>

lemma sticky_quotient:
  fixes P Q :: nat
  assumes "0 < Q"
  shows "\<bar>real (2 * (P div Q) + (if P mod Q = 0 then 0 else 1)) - 2 * (real P / real Q)\<bar> \<le> 1"
proof -
  define q r where "q = P div Q" and "r = P mod Q"
  have "P = q * Q + r" and r: "r < Q"
    using assms by (simp_all add: q_def r_def)
  then have "real P / real Q = real q + real r / real Q"
    using assms by (simp add: field_simps)
  moreover have "0 \<le> real r / real Q" "real r / real Q < 1"
    using r by simp_all
  ultimately show ?thesis
    unfolding q_def [symmetric] r_def [symmetric] by (auto simp: abs_le_iff)
qed

lemma bit_length_real: "0 < m \<Longrightarrow> real m < 2 powi int (bit_length m) \<and> 2 powi (int (bit_length m) - 1) \<le> real m"
proof -
  assume "0 < m"
  then have b: "m < 2 ^ bit_length m" "2 ^ (bit_length m - 1) \<le> m"
    using bit_length_bounds by blast+
  have "bit_length m \<noteq> 0"
    using \<open>0 < m\<close> by (subst bit_length.simps) simp
  then have "int (bit_length m) - 1 = int (bit_length m - 1)"
    by simp
  then have "2 powi (int (bit_length m) - 1) = real (2 ^ (bit_length m - 1))"
    by (simp only: power_int_of_nat) simp
  moreover have "2 powi int (bit_length m) = real (2 ^ bit_length m)"
    by (simp only: power_int_of_nat) simp
  ultimately show ?thesis
    using b by (simp only: of_nat_less_iff of_nat_le_iff)
qed

lemma powi_div: "2 powi (a - b) = (2 powi a / 2 powi b :: real)"
  by (rule power_int_diff) simp

lemma bit_length_scaled:
  assumes "0 < r" and "real r * 2 powi k < 2 powi l"
  shows "int (bit_length r) + k \<le> l"
proof -
  have "(2 :: real) powi (int (bit_length r) - 1) * 2 powi k \<le> real r * 2 powi k"
    using bit_length_real [OF assms(1)] by (intro mult_right_mono) auto
  also note assms(2)
  finally have "(2 :: real) powi (int (bit_length r) - 1 + k) < 2 powi l"
    by (simp add: power_int_add)
  then have "int (bit_length r) - 1 + k < l"
    by (metis less_le_not_le linorder_le_less_linear one_le_numeral power_int_increasing)
  then show ?thesis
    by simp
qed

text \<open>
  On numbers of 64 bits there is neither overflow nor underflow, and the error is the half
  of a unit in the last place.
\<close>

lemma nearest_double_near:
  assumes "0 < p" and "0 < q" and "p < 2 ^ 64" and "q < 2 ^ 64"
  shows "\<exists>m e. nearest_double negative p q = Inr (Finite negative m e)
    \<and> \<bar>magnitude_value (m, e) - real p / real q\<bar>
        \<le> real p / real q / 2 ^ 55 + (real p / real q + real p / real q / 2 ^ 55) / 2 ^ 53"
proof -
  let ?x = "real p / real q"
  define e where "e = int (bit_length p) - int (bit_length q) - 55"
  define P Q where "P = (if e \<ge> 0 then p else p * 2 ^ nat (- e))" and "Q = (if e \<ge> 0 then q * 2 ^ nat e else q)"
  define n where "n = 2 * (P div Q) + (if P mod Q = 0 then 0 else 1)"
  have bl: "0 < bit_length p" "0 < bit_length q" "bit_length p \<le> 64" "bit_length q \<le> 64"
    using assms bit_length_le [of p 64] bit_length_le [of q 64] by (simp_all add: bit_length.simps [of p] bit_length.simps [of q])
  then have e: "- 118 \<le> e" "e \<le> 8"
    by (simp_all add: e_def)
  have Q: "0 < Q"
    using assms(2) by (simp add: Q_def)
  have x: "0 < ?x"
    using assms by simp
  have scale: "real P / real Q = ?x / 2 powi e"
  proof (cases "e \<ge> 0")
    case True
    then have "(2 :: real) powi e = 2 ^ nat e"
      by (simp add: power_int_def)
    with True show ?thesis
      by (simp add: P_def Q_def)
  next
    case False
    then have "(2 :: real) powi e = inverse (2 ^ nat (- e))"
      by (simp add: power_int_def power_one_over inverse_eq_divide)
    with False show ?thesis
      by (simp add: P_def Q_def divide_inverse)
  qed
  have range: "2 powi (e + 54) \<le> ?x" "?x < 2 powi (e + 56)"
  proof -
    note p = bit_length_real [OF assms(1)] and q = bit_length_real [OF assms(2)]
    have "2 powi (e + 54) = 2 powi (int (bit_length p) - 1) / (2 powi int (bit_length q) :: real)"
      using powi_div [of "int (bit_length p) - 1" "int (bit_length q)"] by (simp add: e_def algebra_simps)
    also have "\<dots> \<le> ?x"
      using p q assms(2) by (intro frac_le) auto
    finally show "2 powi (e + 54) \<le> ?x" .
    have "?x < 2 powi int (bit_length p) / 2 powi (int (bit_length q) - 1)"
      using p q assms(2) by (intro frac_less) auto
    also have "\<dots> = (2 powi (e + 56) :: real)"
      using powi_div [of "int (bit_length p)" "int (bit_length q) - 1"] by (simp add: e_def algebra_simps)
    finally show "?x < 2 powi (e + 56)" .
  qed
  have n: "\<bar>real n - 2 * (?x / 2 powi e)\<bar> \<le> 1"
    using sticky_quotient [OF Q, of P] by (simp add: n_def scale)
  have half: "(2 :: real) powi (e - 1) = 2 powi e / 2"
    by (simp add: powi_div)
  have near: "\<bar>magnitude_value (n, e - 1) - ?x\<bar> \<le> ?x / 2 ^ 55"
  proof -
    have "magnitude_value (n, e - 1) - ?x = (real n - 2 * (?x / 2 powi e)) * (2 powi e / 2)"
      by (simp add: magnitude_value_def half field_simps)
    then have "\<bar>magnitude_value (n, e - 1) - ?x\<bar> = \<bar>real n - 2 * (?x / 2 powi e)\<bar> * (2 powi e / 2)"
      by (simp only: abs_mult) simp
    also have "\<dots> \<le> 1 * (2 powi e / 2)"
      by (rule mult_right_mono [OF n]) simp
    finally have "\<bar>magnitude_value (n, e - 1) - ?x\<bar> \<le> 2 powi e / 2"
      by simp
    also have "\<dots> \<le> ?x / 2 ^ 55"
      using range(1) by (simp add: power_int_add)
    finally show ?thesis .
  qed
  define d where "d = bit_length n - 53"
  define r where "r = round_half_even n d"
  have b: "to_binary64 (n, e - 1) = (r, e - 1 + int d)"
    by (simp add: to_binary64_def r_def d_def Let_def)
  have result: "\<bar>magnitude_value (r, e - 1 + int d) - ?x\<bar> \<le> ?x / 2 ^ 55 + (?x + ?x / 2 ^ 55) / 2 ^ 53"
    using to_binary64_near [OF near] by (simp add: b)
  also have "\<dots> < ?x"
    using x by (simp add: field_simps)
  finally have "\<bar>magnitude_value (r, e - 1 + int d) - ?x\<bar> < ?x" .
  then have v: "0 < magnitude_value (r, e - 1 + int d)" "magnitude_value (r, e - 1 + int d) < 2 * ?x"
    by linarith+
  then have r: "0 < r"
    by (auto simp: magnitude_value_def intro: gr0I)
  have "real r * 2 powi (e - 1 + int d) < 2 powi (e + 57)"
    using v(2) range(2) by (simp add: magnitude_value_def power_int_add)
  then have top: "int (bit_length r) + (e - 1 + int d) \<le> e + 57"
    by (rule bit_length_scaled [OF r])
  have low: "\<not> int (bit_length r) + (e - 1 + int d) \<le> - 1022"
    using e by simp
  have d: "max (bit_length n - 53) (nat (- 1074 - (e - 1))) = d"
    using e by (simp add: d_def)
  have PQ: "(if e \<ge> 0 then (p, q * 2 ^ nat e) else (p * 2 ^ nat (- e), q)) = (P, Q)"
    by (simp add: P_def Q_def)
  obtain m e' where t: "lowest_terms (r, e - 1 + int d) = (m, e')"
    by fastforce
  have "nearest_double negative p q = Inr (Finite negative m e')"
    unfolding nearest_double_def Let_def e_def [symmetric] PQ prod.case n_def [symmetric] d r_def [symmetric] b t
    using assms(1) top low e by simp
  moreover have "magnitude_value (m, e') = magnitude_value (r, e - 1 + int d)"
    using lowest_terms_value [of "(r, e - 1 + int d)"] by (simp add: t)
  ultimately show ?thesis
    using result by auto
qed

lemma dec_value_append: "dec_value (w @ d) = dec_value w * 10 ^ length d + dec_value d"
proof (induction d rule: rev_induct)
  case (snoc c d)
  have "dec_value (v @ [c]) = 10 * dec_value v + (of_char c - 48)" for v
    by (simp add: dec_value_def)
  from this [of "w @ d"] this [of d] snoc show ?case
    by (simp add: algebra_simps)
qed (simp add: dec_value_def)

text \<open>A plain decimal number, with or without a point.\<close>

definition plain_decimal :: "string \<Rightarrow> string \<Rightarrow> string \<Rightarrow> bool" where
  "plain_decimal t w d \<longleftrightarrow>
     list_all is_digit w \<and> list_all is_digit d \<and> (w \<noteq> [] \<or> d \<noteq> []) \<and> (t = w @ ''.'' @ d \<or> d = [] \<and> t = w)"

lemma takeWhile_digits: "list_all is_digit w \<Longrightarrow> takeWhile is_digit (w @ s) = w @ takeWhile is_digit s"
  "list_all is_digit w \<Longrightarrow> dropWhile is_digit (w @ s) = dropWhile is_digit s"
  by (induction w) simp_all

lemma point_no_digit: "\<not> is_digit (CHR ''.'')"
  by code_simp

lemma plain_chars:
  assumes "plain_decimal t w d" and "c \<in> set t"
  shows "to_lower c = c" and "\<not> is_space c" and "c \<noteq> CHR ''-''" and "c \<noteq> CHR ''+''"
    and "c \<noteq> CHR ''i''" and "c \<noteq> CHR ''n''" and "c \<noteq> CHR ''x''"
proof -
  have "is_digit c \<or> c = CHR ''.''"
    using assms by (auto simp: plain_decimal_def list_all_iff)
  then have "to_lower c = c \<and> \<not> is_space c \<and> c \<noteq> CHR ''-'' \<and> c \<noteq> CHR ''+''
      \<and> c \<noteq> CHR ''i'' \<and> c \<noteq> CHR ''n'' \<and> c \<noteq> CHR ''x''"
    by (auto simp: is_digit_def to_lower_def is_space_def Let_def)
  then show "to_lower c = c" "\<not> is_space c" "c \<noteq> CHR ''-''" "c \<noteq> CHR ''+''"
    "c \<noteq> CHR ''i''" "c \<noteq> CHR ''n''" "c \<noteq> CHR ''x''"
    by blast+
qed

lemma all_digits: "list_all is_digit w \<Longrightarrow> takeWhile is_digit w = w" "list_all is_digit w \<Longrightarrow> dropWhile is_digit w = []"
  using takeWhile_digits [of w "[]"] by simp_all

lemma plain_mantissa: "plain_decimal t w d \<Longrightarrow> mantissa is_digit t = (w, d, [])"
  by (auto simp: plain_decimal_def mantissa_def Let_def takeWhile_digits all_digits point_no_digit)

lemma stod_plain:
  assumes "plain_decimal t w d"
  shows "stod t = nearest_double False (dec_value w * 10 ^ length d + dec_value d) (10 ^ length d)"
proof -
  obtain c t' where t: "t = c # t'"
    using assms by (cases t) (auto simp: plain_decimal_def)
  note c = plain_chars [OF assms, of c, unfolded t, simplified]
  have low: "map to_lower t = t"
    using plain_chars(1) [OF assms] by (simp add: map_idI)
  have no: "\<not> starts_with p t" if "x \<in> set p" "x = CHR ''n'' \<or> x = CHR ''x''" for p x
  proof
    assume "starts_with p t"
    then have "x \<in> set t"
      using that(1) by (metis in_set_takeD starts_with_def)
    with that(2) show False
      using plain_chars(6,7) [OF assms] by blast
  qed
  have "dropWhile is_space t = t" "split_sign t = (False, t)"
    using c by (simp_all add: t split_sign_def)
  then have "stod t = decimal_float False t"
    using no [of "CHR ''n''" "''inf''"] no [of "CHR ''n''" "''nan''"] no [of "CHR ''x''" "''0x''"]
    by (simp add: stod_def low)
  also have "\<dots> = scaled False (dec_value (w @ d)) 10 (- int (length d))"
    using assms by (auto simp: decimal_float_def plain_mantissa [OF assms] exponent_after_def plain_decimal_def)
  finally show ?thesis
    by (simp add: dec_value_append scaled_def)
qed

lemma typed_amount:
  assumes "plain_decimal t w d" and "length d \<le> 6"
    and "dec_value w * 1000000 + dec_value d * 10 ^ (6 - length d) \<le> 100000000000000" (is "?a \<le> _")
  shows "ebind (stod t) parse_usdt = Inr (of_nat (dec_value w * 1000000 + dec_value d * 10 ^ (6 - length d)))"
proof -
  define p q :: nat where "p = dec_value w * 10 ^ length d + dec_value d" and "q = 10 ^ length d"
  have split: "(1000000 :: nat) = 10 ^ length d * 10 ^ (6 - length d)"
    using assms(2) by (simp flip: power_add)
  then have a: "?a = p * 10 ^ (6 - length d)"
    by (simp add: p_def algebra_simps)
  have t: "stod t = nearest_double False p q"
    using stod_plain [OF assms(1)] by (simp add: p_def q_def)
  have "(1000000 :: real) = 10 ^ length d * 10 ^ (6 - length d)"
    using assms(2) by (simp flip: power_add)
  then have "real ?a / 1000000 = real p * 10 ^ (6 - length d) / (10 ^ length d * 10 ^ (6 - length d))"
    by (simp only: a of_nat_mult of_nat_power of_nat_numeral)
  then have x: "real p / real q = real ?a / 1000000"
    by (simp add: q_def)
  show ?thesis
  proof (cases "p = 0")
    case True
    then have "magnitude_value (0, 0) = real ?a / 1000000"
      by (simp add: a magnitude_value_def)
    then have "parse_usdt (Finite False 0 0) = Inr (of_nat ?a)"
      by (intro parse_usdt_near [OF assms(3)]) (simp only: diff_self abs_zero)
    with True show ?thesis
      by (simp add: t nearest_double_def)
  next
    case False
    have p0: "0 < p" and q0: "0 < q"
      using False by (simp_all add: q_def)
    have "p \<le> ?a"
      by (simp only: a) simp
    with assms(3) have p: "p < 2 ^ 64"
      by simp
    have "q \<le> 10 ^ 6"
      unfolding q_def using assms(2) by (intro power_increasing) auto
    then have q: "q < 2 ^ 64"
      by simp
    obtain m e where d: "nearest_double False p q = Inr (Finite False m e)"
      and v: "\<bar>magnitude_value (m, e) - real ?a / 1000000\<bar>
        \<le> real ?a / 1000000 / 2 ^ 55 + (real ?a / 1000000 + real ?a / 1000000 / 2 ^ 55) / 2 ^ 53"
      using nearest_double_near [OF p0 q0 p q, of False] unfolding x by blast
    have "real ?a \<le> 100000000000000"
      using assms(3) by (metis of_nat_le_iff of_nat_numeral)
    then have "real ?a / 1000000 / 2 ^ 55 + (real ?a / 1000000 + real ?a / 1000000 / 2 ^ 55) / 2 ^ 53 \<le> 2 / 100000000"
      by (simp add: field_simps)
    with v have "\<bar>magnitude_value (m, e) - real ?a / 1000000\<bar> \<le> 2 / 100000000"
      by linarith
    from parse_usdt_near [OF assms(3) this] show ?thesis
      by (simp add: t d)
  qed
qed

end
