(* ===== verification/Cli.thy ===== *)
theory Cli
  imports NumberText Wallet
begin

text \<open>
  Model of \<^verbatim>\<open>src/wallet_cli.cpp\<close>, the wallet of the terminal: its options, the commands and
  the loop that reads them. A session holds the wallet manager, the outside world, the file
  system, and the random draws still to come. What is printed is a list of notices with the
  texts, numbers and documents they show; colours and the wording are left out. Typed text
  is UTF-8, which the JSON library can write.
\<close>

section \<open>What is printed\<close>

text \<open>The sentences of the program, by a short name.\<close>

type_synonym notice = string

datatype ('j, 't) shown =
    Say notice
  | Say_text notice string
  | Say_flag notice bool
  | Say_json notice "'j option"
  | Say_body notice 't
  | Say_error notice error
  | Phrase_words "string list"
  | Phrase_past_end "string list"
  | Prompt "(string \<times> string) option"

text \<open>
  Output up to the first exception; what the handler prints. A missing key that was read
  with \<^verbatim>\<open>[]\<close> is \<open>None\<close>, a null.
\<close>

fun shown_until :: "(error + 'x) list \<Rightarrow> 'x list \<times> error option" where
  "shown_until [] = ([], None)"
| "shown_until (Inl e # rest) = ([], Some e)"
| "shown_until (Inr x # rest) = (case shown_until rest of (xs, r) \<Rightarrow> (x # xs, r))"

definition attempt :: "(error \<Rightarrow> ('j, 't) shown) \<Rightarrow> (error + ('j, 't) shown) list \<Rightarrow> ('j, 't) shown list" where
  "attempt handler items =
     (case shown_until items of (xs, None) \<Rightarrow> xs | (xs, Some e) \<Rightarrow> xs @ [handler e])"

text \<open>More of the JSON library than the other components use.\<close>

record 'j json_values =
  jv_null :: "'j \<Rightarrow> bool"
  jv_bool :: "'j \<Rightarrow> bool option"
  jv_int :: "'j \<Rightarrow> int option"

text \<open>\<^verbatim>\<open>operator[]\<close> on a mutable value, which a null turns into an object.\<close>

definition json_slot :: "('j, 't) json_lib \<Rightarrow> 'j json_values \<Rightarrow> 'j option \<Rightarrow> string \<Rightarrow> error + 'j option" where
  "json_slot J X v k =
     (case v of None \<Rightarrow> Inr None
      | Some j \<Rightarrow> if js_is_object J j then Inr (js_find J j k)
                  else if jv_null X j then Inr None else Inl (Service_error Json_failed))"

definition slot_json :: "('j, 't) json_lib \<Rightarrow> 'j json_values \<Rightarrow> notice \<Rightarrow> 'j option \<Rightarrow> string \<Rightarrow> error + ('j, 't) shown" where
  "slot_json J X n v k = ebind (json_slot J X v k) (\<lambda>x. Inr (Say_json n x))"

definition slot_text :: "('j, 't) json_lib \<Rightarrow> 'j json_values \<Rightarrow> notice \<Rightarrow> 'j option \<Rightarrow> string \<Rightarrow> error + ('j, 't) shown" where
  "slot_text J X n v k =
     ebind (json_slot J X v k) (\<lambda>x. ebind (json_some (Option.bind x (js_get_string J))) (\<lambda>t. Inr (Say_text n t)))"

definition slot_flag :: "('j, 't) json_lib \<Rightarrow> 'j json_values \<Rightarrow> notice \<Rightarrow> 'j option \<Rightarrow> string \<Rightarrow> error + ('j, 't) shown" where
  "slot_flag J X n v k =
     ebind (json_slot J X v k) (\<lambda>x. ebind (json_some (Option.bind x (jv_bool X))) (\<lambda>b. Inr (Say_flag n b)))"

text \<open>A field of \<^verbatim>\<open>j["vault"]\<close>.\<close>

definition vault_slot :: "('j option \<Rightarrow> string \<Rightarrow> error + ('j, 't) shown) \<Rightarrow> ('j, 't) json_lib \<Rightarrow> 'j json_values
     \<Rightarrow> 'j \<Rightarrow> string \<Rightarrow> error + ('j, 't) shown" where
  "vault_slot shows J X j k = ebind (json_slot J X (Some j) ''vault'') (\<lambda>v. shows v k)"

section \<open>Sessions\<close>

record ('w, 'f) session =
  ses_manager :: wallet_manager
  ses_world :: 'w
  ses_files :: 'f
  ses_entropy :: "nat \<Rightarrow> bytes"

datatype ending = Goes_on | Quits | Terminates error

definition parse_tokens :: "string \<Rightarrow> string list" where
  "parse_tokens line = split_from [] line"

text \<open>
  The box of the phrase shows the first 24 words. Fewer words are read past the end of the
  vector, which the model marks.
\<close>

definition display_mnemonic_box :: "string \<Rightarrow> ('j, 't) shown list" where
  "display_mnemonic_box mnemonic =
     (let words = split_words mnemonic in
      [Say ''phrase header'',
       if length words < 24 then Phrase_past_end words else Phrase_words (take 24 words),
       Say ''phrase warning''])"

definition has_wallet :: "wallet_manager \<Rightarrow> bool" where
  "has_wallet W = wm_loaded W"

definition balance_text :: "('w, 'f) session \<Rightarrow> string" where
  "balance_text s = format_usdt (wm_balance (ses_manager s))"

definition prompt :: "('w, 'f) session \<Rightarrow> ('j, 't) shown" where
  "prompt s = Prompt (if has_wallet (ses_manager s) then Some (wm_name (ses_manager s), balance_text s) else None)"

definition sync_session ::
  "('j, 't) json_lib \<Rightarrow> ('w, 't) platform \<Rightarrow> ('w, 'f) session \<Rightarrow> ('w, 'f) session \<times> bool" where
  "sync_session J P s =
     (case wallet_sync J P (ses_world s) (ses_manager s) of
        (W, w, ok) \<Rightarrow> (s\<lparr>ses_manager := W, ses_world := w\<rparr>, ok))"

definition address_text :: "('w, 'f) session \<Rightarrow> error + string" where
  "address_text s = ebind (get_address (ses_manager s)) (\<lambda>a. Inr (encode_address a))"

section \<open>Commands on the daemon\<close>

text \<open>\<^verbatim>\<open>host:port\<close>, or a host alone.\<close>

definition parse_endpoint :: "int \<Rightarrow> string \<Rightarrow> error + string \<times> int" where
  "parse_endpoint port ep =
     (case dropWhile (\<lambda>c. c \<noteq> CHR '':'') ep of
        [] \<Rightarrow> Inr (ep, port)
      | c # rest \<Rightarrow> ebind (stoi rest) (\<lambda>p. Inr (takeWhile (\<lambda>c. c \<noteq> CHR '':'') ep, p)))"

definition cmd_daemon :: "('w, 'f) session \<Rightarrow> string list \<Rightarrow> ('w, 'f) session \<times> ('j, 't) shown list \<times> ending" where
  "cmd_daemon s args =
     (case args of
        [] \<Rightarrow> (s, [Say_text ''daemon shown'' (daemon_url (ses_manager s))], Goes_on)
      | ep # _ \<Rightarrow>
          (case parse_endpoint 8080 ep of
             Inl e \<Rightarrow> (s, [], Terminates e)
           | Inr (h, p) \<Rightarrow>
               let W = set_daemon (ses_manager s) h p
               in (s\<lparr>ses_manager := W\<rparr>, [Say_text ''daemon changed'' (daemon_url W)], Goes_on)))"

definition status_items :: "('j, 't) json_lib \<Rightarrow> 'j json_values \<Rightarrow> string \<Rightarrow> 'j \<Rightarrow> (error + ('j, 't) shown) list" where
  "status_items J X url j =
     [Inr (Say_text ''status endpoint'' url),
      slot_json J X ''status height'' (Some j) ''blockchain_height'',
      slot_json J X ''status database'' (Some j) ''database_path'',
      slot_json J X ''status outputs'' (Some j) ''utxo_pool_count'',
      vault_slot (slot_text J X ''status collateral'') J X j ''total_collateral_usdt'',
      vault_slot (slot_text J X ''status supply'') J X j ''circulating_shielded_supply'',
      vault_slot (slot_text J X ''status reserve'') J X j ''fee_pool_reserve_usdt'',
      vault_slot (slot_flag J X ''status solvent'') J X j ''is_solvent_1_to_1'']"

definition cmd_status ::
  "('j, 't) json_lib \<Rightarrow> 'j json_values \<Rightarrow> ('w, 't) platform \<Rightarrow> ('w, 'f) session
     \<Rightarrow> ('w, 'f) session \<times> ('j, 't) shown list" where
  "cmd_status J X P s =
     (case get_node_status P (ses_world s) (ses_manager s) of
        (w, None) \<Rightarrow> (s\<lparr>ses_world := w\<rparr>, [Say ''status unavailable''])
      | (w, Some raw) \<Rightarrow>
          (s\<lparr>ses_world := w\<rparr>,
           case js_parse J raw of
             None \<Rightarrow> [Say_error ''status unreadable'' (Service_error Json_failed)]
           | Some j \<Rightarrow> attempt (Say_error ''status unreadable'') (status_items J X (daemon_url (ses_manager s)) j)))"

text \<open>A row of the table of peers.\<close>

definition peer_items :: "('j, 't) json_lib \<Rightarrow> 'j json_values \<Rightarrow> nat \<Rightarrow> 'j \<Rightarrow> (error + ('j, 't) shown) list" where
  "peer_items J X idx p =
     (let online = json_value J (jv_bool X) p ''is_connected'' False in
      [ebind online (\<lambda>_. Inr (Say_text ''peers row'' (dec_string idx))),
       ebind (json_value J (js_get_string J) p ''address'' []) (\<lambda>t. Inr (Say_text ''peers address'' t)),
       ebind (json_value J (js_get_u64 J) p ''height'' 0) (\<lambda>h. Inr (Say_text ''peers height'' (dec_string (unat h)))),
       ebind (json_value J (jv_int X) p ''latency_ms'' 0) (\<lambda>i. Inr (Say_text ''peers latency'' (int_string i @ ''ms''))),
       ebind online (\<lambda>b. Inr (Say_flag ''peers state'' b)),
       ebind (json_value J (js_get_string J) p ''node_id'' []) (\<lambda>t. Inr (Say_text ''peers remote'' (take 16 t)))])"

definition peers_items :: "('j, 't) json_lib \<Rightarrow> 'j json_values \<Rightarrow> 'j \<Rightarrow> (error + ('j, 't) shown) list" where
  "peers_items J X j =
     [ebind (json_value J (js_get_string J) j ''node_id'' ''desconocido'') (\<lambda>t. Inr (Say_text ''peers identity'' t)),
      ebind (json_value J (js_get_string J) j ''listen_url'' []) (\<lambda>t. Inr (Say_text ''peers url'' t)),
      ebind (json_value J (jv_int X) j ''peer_count'' 0) (\<lambda>i. Inr (Say_text ''peers count'' (int_string i)))]
     @ (case (if js_is_object J j then js_find J j ''peers'' else None) of
          Some ps \<Rightarrow>
            if js_is_array J ps \<and> js_items J ps \<noteq> [] then
              [Inr (Say ''peers header'')]
              @ concat (map (\<lambda>(i, p). peer_items J X i p) (enumerate 1 (js_items J ps)))
              @ [Inr (Say ''peers end'')]
            else [Inr (Say ''peers none'')]
        | None \<Rightarrow> [Inr (Say ''peers none'')])"

definition cmd_peers ::
  "('j, 't) json_lib \<Rightarrow> 'j json_values \<Rightarrow> ('w, 't) platform \<Rightarrow> ('w, 'f) session
     \<Rightarrow> ('w, 'f) session \<times> ('j, 't) shown list" where
  "cmd_peers J X P s =
     (case pf_get P (ses_world s) (daemon_url (ses_manager s)) ''/api/v1/p2p/status'' of
        (w, None) \<Rightarrow> (s\<lparr>ses_world := w\<rparr>, [Say ''peers unavailable''])
      | (w, Some (status, body)) \<Rightarrow>
          (s\<lparr>ses_world := w\<rparr>,
           if status \<noteq> 200 then [Say ''peers unavailable'']
           else case js_parse J body of
             None \<Rightarrow> [Say_error ''command failed'' (Service_error Json_failed)]
           | Some j \<Rightarrow> attempt (Say_error ''command failed'') (peers_items J X j)))"

definition cmd_addpeer ::
  "('j, 't) json_lib \<Rightarrow> ('w, 't) platform \<Rightarrow> ('w, 'f) session \<Rightarrow> string list
     \<Rightarrow> ('w, 'f) session \<times> ('j, 't) shown list" where
  "cmd_addpeer J P s args =
     (case args of
        [] \<Rightarrow> (s, [Say ''addpeer usage''])
      | peer_url # _ \<Rightarrow>
          (case pf_post P (ses_world s) (daemon_url (ses_manager s)) ''/api/v1/p2p/peers''
                  (js_dump J (js_object J [(''peer_url'', js_string J peer_url)])) of
             (w, None) \<Rightarrow> (s\<lparr>ses_world := w\<rparr>, [Say ''addpeer failed'', Say ''no answer''])
           | (w, Some (status, body)) \<Rightarrow>
               (s\<lparr>ses_world := w\<rparr>,
                if status = 200 then [Say_text ''addpeer done'' peer_url] else [Say_body ''addpeer failed'' body])))"

section \<open>Commands on the wallet\<close>

text \<open>A new wallet is written to its file at once, over any file of that name.\<close>

definition cmd_create ::
  "sodium \<Rightarrow> ('j, 't) json_lib \<Rightarrow> ('w, 't) platform \<Rightarrow> ('f, 't) file_system \<Rightarrow> ('w, 'f) session \<Rightarrow> string list
     \<Rightarrow> ('w, 'f) session \<times> ('j, 't) shown list" where
  "cmd_create S J P F s args =
     (case args of
        [] \<Rightarrow> (s, [Say ''create usage''])
      | name # _ \<Rightarrow>
          (case create_wallet S (ses_entropy s 0) (ses_manager s) name of
             (W, r) \<Rightarrow>
               let s = s\<lparr>ses_manager := W, ses_entropy := \<lambda>i. ses_entropy s (Suc i)\<rparr> in
               case r of
                 Inl e \<Rightarrow> (s, [Say_error ''command failed'' e])
               | Inr mnemonic \<Rightarrow>
                   let out = display_mnemonic_box mnemonic @ [Say_text ''wallet created'' name] in
                   case address_text s of
                     Inl e \<Rightarrow> (s, out @ [Say_error ''command failed'' e])
                   | Inr address \<Rightarrow>
                       let out = out @ [Say_text ''address shown'' address]; default_file = name @ ''.wallet'' in
                       case save_wallet J F (ses_files s) W default_file of
                         (f, Inl e) \<Rightarrow> (s\<lparr>ses_files := f\<rparr>, out @ [Say_error ''command failed'' e])
                       | (f, Inr _) \<Rightarrow>
                           (fst (sync_session J P (s\<lparr>ses_files := f\<rparr>)), out @ [Say_text ''wallet copied'' default_file])))"

text \<open>The phrase is the next line, or empty at the end of the input.\<close>

definition cmd_restore ::
  "sodium \<Rightarrow> ('j, 't) json_lib \<Rightarrow> ('w, 't) platform \<Rightarrow> string \<Rightarrow> ('w, 'f) session \<Rightarrow> string list
     \<Rightarrow> ('w, 'f) session \<times> ('j, 't) shown list" where
  "cmd_restore S J P input_phrase s args =
     (case args of
        [] \<Rightarrow> (s, [Say ''restore usage''])
      | name # _ \<Rightarrow>
          (case restore_wallet S (ses_manager s) name input_phrase of
             (W, Inl e) \<Rightarrow> (s\<lparr>ses_manager := W\<rparr>, [Say ''restore prompt'', Say_error ''restore failed'' e])
           | (W, Inr _) \<Rightarrow>
               let s = s\<lparr>ses_manager := W\<rparr>; out = [Say ''restore prompt'', Say_text ''wallet restored'' name] in
               case address_text s of
                 Inl e \<Rightarrow> (s, out @ [Say_error ''restore failed'' e])
               | Inr address \<Rightarrow>
                   let out = out @ [Say_text ''address shown'' address, Say ''scanning''] in
                   case sync_session J P s of
                     (s, True) \<Rightarrow> (s, out @ [Say_text ''sync done'' (balance_text s)])
                   | (s, False) \<Rightarrow> (s, out @ [Say ''sync failed''])))"

definition cmd_open ::
  "sodium \<Rightarrow> ('j, 't) json_lib \<Rightarrow> ('w, 't) platform \<Rightarrow> ('f, 't) file_system \<Rightarrow> ('w, 'f) session \<Rightarrow> string list
     \<Rightarrow> ('w, 'f) session \<times> ('j, 't) shown list" where
  "cmd_open S J P F s args =
     (case args of
        [] \<Rightarrow> (s, [Say ''open usage''])
      | path # _ \<Rightarrow>
          (case load_wallet S J F (ses_files s) (ses_manager s) path of
             (W, Inl e) \<Rightarrow> (s\<lparr>ses_manager := W\<rparr>, [Say_error ''open failed'' e])
           | (W, Inr _) \<Rightarrow>
               let s = s\<lparr>ses_manager := W\<rparr>; out = [Say_text ''wallet opened'' (wm_name W), Say_text ''opened from'' path] in
               case address_text s of
                 Inl e \<Rightarrow> (s, out @ [Say_error ''open failed'' e])
               | Inr address \<Rightarrow>
                   let out = out @ [Say_text ''address shown'' address] in
                   case sync_session J P s of
                     (s, True) \<Rightarrow> (s, out @ [Say_text ''sync done'' (balance_text s)])
                   | (s, False) \<Rightarrow> (s, out @ [Say ''sync failed''])))"

definition cmd_save ::
  "('j, 't) json_lib \<Rightarrow> ('f, 't) file_system \<Rightarrow> ('w, 'f) session \<Rightarrow> string list
     \<Rightarrow> ('w, 'f) session \<times> ('j, 't) shown list" where
  "cmd_save J F s args =
     (let W = ses_manager s in
      if \<not> has_wallet W then (s, [Say ''nothing to save''])
      else let path = (case args of [] \<Rightarrow> wm_name W @ ''.wallet'' | p # _ \<Rightarrow> p) in
        case save_wallet J F (ses_files s) W path of
          (f, Inl e) \<Rightarrow> (s\<lparr>ses_files := f\<rparr>, [Say_error ''save failed'' e])
        | (f, Inr _) \<Rightarrow> (s\<lparr>ses_files := f\<rparr>, [Say_text ''wallet saved'' path]))"

definition cmd_close :: "('w, 'f) session \<Rightarrow> ('w, 'f) session \<times> ('j, 't) shown list" where
  "cmd_close s =
     (let W = ses_manager s in
      if \<not> has_wallet W then (s, [Say ''nothing to close''])
      else (s\<lparr>ses_manager := close_wallet W\<rparr>, [Say_text ''wallet closed'' (wm_name W)]))"

text \<open>Commands that need a wallet.\<close>

definition with_wallet ::
  "('w, 'f) session \<Rightarrow> ('w, 'f) session \<times> ('j, 't) shown list \<Rightarrow> ('w, 'f) session \<times> ('j, 't) shown list" where
  "with_wallet s action = (if has_wallet (ses_manager s) then action else (s, [Say ''no wallet'']))"

text \<open>The address is read outside a handler.\<close>

definition cmd_address :: "('w, 'f) session \<Rightarrow> ('w, 'f) session \<times> ('j, 't) shown list \<times> ending" where
  "cmd_address s =
     (if \<not> has_wallet (ses_manager s) then (s, [Say ''no wallet''], Goes_on)
      else case get_address (ses_manager s) of
        Inl e \<Rightarrow> (s, [], Terminates e)
      | Inr addr \<Rightarrow>
          (s, [Say_text ''address shown'' (encode_address addr),
               Say_text ''spend key'' (to_hex (addr_spend_public_key addr)),
               Say_text ''view key'' (to_hex (addr_view_public_key addr))], Goes_on))"

definition cmd_seed :: "('w, 'f) session \<Rightarrow> ('w, 'f) session \<times> ('j, 't) shown list" where
  "cmd_seed s = with_wallet s ((s, display_mnemonic_box (wm_mnemonic (ses_manager s))))"

definition balance_rows :: "one_time_output list \<Rightarrow> ('j, 't) shown list" where
  "balance_rows us = concat (map (\<lambda>(i, u).
     [Say_text ''balance row'' (dec_string i), Say_text ''balance amount'' (format_usdt (out_amount u)),
      Say_text ''balance key'' (take 32 (to_hex (destination_one_time u))),
      Say_text ''balance key'' (take 32 (to_hex (ephemeral_public_key u)))]) (enumerate 1 us))"

definition cmd_balance ::
  "('j, 't) json_lib \<Rightarrow> ('w, 't) platform \<Rightarrow> ('w, 'f) session \<Rightarrow> ('w, 'f) session \<times> ('j, 't) shown list" where
  "cmd_balance J P s = with_wallet s (
     case sync_session J P s of (s, _) \<Rightarrow>
       let W = ses_manager s; us = wm_utxos W in
       (s, [Say_text ''balance amount'' (balance_text s), Say_text ''balance units'' (dec_string (unat (wm_balance W))),
            Say_text ''balance count'' (dec_string (length us))]
           @ (if us = [] then [Say ''balance empty'']
              else [Say ''balance header''] @ balance_rows us @ [Say ''balance end''])))"

definition cmd_sync ::
  "('j, 't) json_lib \<Rightarrow> ('w, 't) platform \<Rightarrow> ('w, 'f) session \<Rightarrow> ('w, 'f) session \<times> ('j, 't) shown list" where
  "cmd_sync J P s = with_wallet s (
     let out = [Say_text ''scanning'' (daemon_url (ses_manager s))] in
     case sync_session J P s of
       (s, True) \<Rightarrow> (s, out @ [Say_text ''sync done'' (balance_text s),
                               Say_text ''balance count'' (dec_string (length (wm_utxos (ses_manager s))))])
     | (s, False) \<Rightarrow> (s, out @ [Say ''sync failed'']))"

section \<open>Payments\<close>

definition typed_usdt :: "string \<Rightarrow> error + amount" where
  "typed_usdt t = ebind (stod t) parse_usdt"

definition cmd_deposit :: "('w, 'f) session \<Rightarrow> string list \<Rightarrow> ('w, 'f) session \<times> ('j, 't) shown list" where
  "cmd_deposit s args = with_wallet s (
     case args of
       [] \<Rightarrow> (s, [Say ''deposit usage''])
     | t # _ \<Rightarrow>
         (case typed_usdt t of
            Inl e \<Rightarrow> (s, [Say_error ''amount refused'' e])
          | Inr amt \<Rightarrow>
              let out = [Say_text ''depositing'' (format_usdt amt)] in
              case wallet_deposit (ses_manager s) amt of
                (W, Some hash) \<Rightarrow>
                  let s = s\<lparr>ses_manager := W\<rparr>
                  in (s, out @ [Say ''deposit done'', Say_text ''transaction'' hash, Say_text ''balance amount'' (balance_text s)])
              | (W, None) \<Rightarrow> (s\<lparr>ses_manager := W\<rparr>, out @ [Say ''deposit failed''])))"

definition cmd_transfer ::
  "('j, 't) json_lib \<Rightarrow> ('w, 't) platform \<Rightarrow> ('w, 'f) session \<Rightarrow> string list
     \<Rightarrow> ('w, 'f) session \<times> ('j, 't) shown list" where
  "cmd_transfer J P s args = with_wallet s (
     case args of
       recipient # t # _ \<Rightarrow>
         (case typed_usdt t of
            Inl e \<Rightarrow> (s, [Say_error ''transfer refused'' e])
          | Inr amt \<Rightarrow>
              (case wallet_transfer J P (ses_world s) (ses_manager s) recipient amt of
                 (W, w, r) \<Rightarrow>
                   let s = s\<lparr>ses_manager := W, ses_world := w\<rparr> in
                   (s, Say ''transferring'' #
                      (case r of
                         Some hash \<Rightarrow> [Say ''transfer done'', Say_text ''transaction'' hash, Say_text ''sent'' (format_usdt amt),
                                           Say_text ''balance amount'' (balance_text s)]
                       | None \<Rightarrow> [Say ''transfer failed'']))))
     | _ \<Rightarrow> (s, [Say ''transfer usage'']))"

definition cmd_withdraw ::
  "('j, 't) json_lib \<Rightarrow> ('w, 't) platform \<Rightarrow> ('w, 'f) session \<Rightarrow> string list
     \<Rightarrow> ('w, 'f) session \<times> ('j, 't) shown list" where
  "cmd_withdraw J P s args = with_wallet s (
     case args of
       t # public_dest # _ \<Rightarrow>
         (case typed_usdt t of
            Inl e \<Rightarrow> (s, [Say_error ''command failed'' e])
          | Inr amt \<Rightarrow>
              (case wallet_withdraw J P (ses_world s) (ses_manager s) amt public_dest of
                 (W, w, r) \<Rightarrow>
                   let s = s\<lparr>ses_manager := W, ses_world := w\<rparr> in
                   (s, Say ''withdrawing'' #
                      (case r of
                         Some (order, pieces_sent) \<Rightarrow>
                           [Say ''withdraw done'', Say_text ''transaction'' order,
                            Say_text ''withdraw fragments'' (dec_string (unat pieces_sent)),
                            Say_text ''withdraw target'' public_dest, Say_text ''balance amount'' (balance_text s)]
                       | None \<Rightarrow> [Say ''withdraw failed'']))))
     | _ \<Rightarrow> (s, [Say ''withdraw usage'']))"

text \<open>The request of \<^verbatim>\<open>claimfees\<close> has no header with a token.\<close>

definition claim_document :: "('j, 't) json_lib \<Rightarrow> double \<Rightarrow> string \<Rightarrow> 'j" where
  "claim_document J val treasury_dest =
     js_object J [(''amount_usdt'', js_double J val), (''treasury_address'', js_string J treasury_dest)]"

definition claim_message :: "('j, 't) json_lib \<Rightarrow> 't \<Rightarrow> ('j, 't) shown" where
  "claim_message J body =
     (case js_parse J body of
        None \<Rightarrow> Say_body ''claim failed'' body
      | Some j \<Rightarrow>
          (case (if js_is_object J j then js_find J j ''error'' else None) of
             None \<Rightarrow> Say_body ''claim failed'' body
           | Some x \<Rightarrow> (case js_get_string J x of
                 None \<Rightarrow> Say_error ''command failed'' (Service_error Json_failed)
               | Some t \<Rightarrow> Say_text ''claim failed'' t)))"

definition claim_items :: "('j, 't) json_lib \<Rightarrow> 'j json_values \<Rightarrow> 'j \<Rightarrow> (error + ('j, 't) shown) list" where
  "claim_items J X j =
     [Inr (Say ''claim done''),
      slot_text J X ''sent'' (Some j) ''amount_claimed_usdt'',
      slot_text J X ''claim rest'' (Some j) ''remaining_fee_pool_usdt'',
      slot_text J X ''claim target'' (Some j) ''destination_address'',
      slot_text J X ''claim hash'' (Some j) ''tx_hash'',
      slot_flag J X ''claim audit'' (Some j) ''is_solvent_1_to_1'']"

definition cmd_claimfees ::
  "('j, 't) json_lib \<Rightarrow> 'j json_values \<Rightarrow> ('w, 't) platform \<Rightarrow> ('w, 'f) session \<Rightarrow> string list
     \<Rightarrow> ('w, 'f) session \<times> ('j, 't) shown list" where
  "cmd_claimfees J X P s args =
     (case args of
        t # treasury_dest # _ \<Rightarrow>
          (case stod t of
             Inl e \<Rightarrow> (s, [Say_error ''command failed'' e])
           | Inr val \<Rightarrow>
               (case pf_post P (ses_world s) (daemon_url (ses_manager s)) ''/api/v1/vault/claim-fees''
                       (js_dump J (claim_document J val treasury_dest)) of
                  (w, None) \<Rightarrow>
                    (s\<lparr>ses_world := w\<rparr>, [Say ''claiming'', Say_text ''claim unavailable'' (daemon_url (ses_manager s))])
                | (w, Some (status, body)) \<Rightarrow>
                    (s\<lparr>ses_world := w\<rparr>,
                     Say ''claiming'' #
                       (if status \<noteq> 200 then [claim_message J body]
                        else case js_parse J body of
                          None \<Rightarrow> [Say_error ''command failed'' (Service_error Json_failed)]
                        | Some j \<Rightarrow> attempt (Say_error ''command failed'') (claim_items J X j)))))
      | _ \<Rightarrow> (s, [Say ''claim usage'']))"

section \<open>The loop\<close>

definition goes_on :: "'s \<times> 'x list \<Rightarrow> 's \<times> 'x list \<times> ending" where
  "goes_on r = (fst r, snd r, Goes_on)"

definition run_command ::
  "sodium \<Rightarrow> ('j, 't) json_lib \<Rightarrow> 'j json_values \<Rightarrow> ('w, 't) platform \<Rightarrow> ('f, 't) file_system \<Rightarrow> string
     \<Rightarrow> ('w, 'f) session \<Rightarrow> string \<Rightarrow> string list \<Rightarrow> ('w, 'f) session \<times> ('j, 't) shown list \<times> ending" where
  "run_command S J X P F next_line s cmd args =
     (if cmd = ''exit'' \<or> cmd = ''quit'' then (s, [Say ''goodbye''], Quits)
      else if cmd = ''help'' then (s, [Say ''help page''], Goes_on)
      else if cmd = ''clear'' then (s, [Say ''screen cleared''], Goes_on)
      else if cmd = ''daemon'' then cmd_daemon s args
      else if cmd = ''status'' then goes_on (cmd_status J X P s)
      else if cmd = ''peers'' then goes_on (cmd_peers J X P s)
      else if cmd = ''addpeer'' then goes_on (cmd_addpeer J P s args)
      else if cmd = ''create'' then goes_on (cmd_create S J P F s args)
      else if cmd = ''restore'' then goes_on (cmd_restore S J P next_line s args)
      else if cmd = ''open'' then goes_on (cmd_open S J P F s args)
      else if cmd = ''save'' then goes_on (cmd_save J F s args)
      else if cmd = ''close'' then goes_on (cmd_close s)
      else if cmd = ''address'' then cmd_address s
      else if cmd = ''seed'' then goes_on (cmd_seed s)
      else if cmd = ''balance'' then goes_on (cmd_balance J P s)
      else if cmd = ''sync'' then goes_on (cmd_sync J P s)
      else if cmd = ''deposit'' then goes_on (cmd_deposit s args)
      else if cmd = ''transfer'' then goes_on (cmd_transfer J P s args)
      else if cmd = ''withdraw'' then goes_on (cmd_withdraw J P s args)
      else if cmd = ''claimfees'' then goes_on (cmd_claimfees J X P s args)
      else (s, [Say_text ''unknown command'' cmd], Goes_on))"

text \<open>Only \<^verbatim>\<open>restore\<close> with a name reads one more line.\<close>

definition lines_read :: "string \<Rightarrow> string list \<Rightarrow> nat" where
  "lines_read cmd args = (if cmd = ''restore'' \<and> args \<noteq> [] then 1 else 0)"

function run_lines ::
  "sodium \<Rightarrow> ('j, 't) json_lib \<Rightarrow> 'j json_values \<Rightarrow> ('w, 't) platform \<Rightarrow> ('f, 't) file_system
     \<Rightarrow> ('w, 'f) session \<Rightarrow> string list \<Rightarrow> ('w, 'f) session \<times> ('j, 't) shown list \<times> ending" where
  "run_lines S J X P F s [] = (s, [prompt s], Quits)"
| "run_lines S J X P F s (line # rest) =
     (case parse_tokens line of
        [] \<Rightarrow> (case run_lines S J X P F s rest of (s', out, end') \<Rightarrow> (s', prompt s # out, end'))
      | cmd # args \<Rightarrow>
          (case run_command S J X P F (case rest of [] \<Rightarrow> [] | l # _ \<Rightarrow> l) s cmd args of
             (s1, out1, end1) \<Rightarrow>
               if end1 \<noteq> Goes_on then (s1, prompt s # out1, end1)
               else (case run_lines S J X P F s1 (drop (lines_read cmd args) rest) of
                       (s', out, end') \<Rightarrow> (s', prompt s # out1 @ out, end'))))"
  by pat_completeness auto

termination
  by (relation "measure (\<lambda>(S, J, X, P, F, s, ls). length ls)") auto

section \<open>Start\<close>

record cli_options =
  opt_host :: string
  opt_port :: int
  opt_wallet :: string

definition default_options :: cli_options where
  "default_options = \<lparr>opt_host = ''127.0.0.1'', opt_port = 8080, opt_wallet = []\<rparr>"

text \<open>\<open>None\<close> after \<^verbatim>\<open>--help\<close>.\<close>

fun read_options :: "cli_options \<Rightarrow> string list \<Rightarrow> error + cli_options option" where
  "read_options opt [] = Inr (Some opt)"
| "read_options opt (arg # rest) =
     (if arg = ''--daemon'' \<and> rest \<noteq> [] then
        ebind (parse_endpoint (opt_port opt) (hd rest)) (\<lambda>(h, p). read_options (opt\<lparr>opt_host := h, opt_port := p\<rparr>) (tl rest))
      else if arg = ''--wallet'' \<and> rest \<noteq> [] then read_options (opt\<lparr>opt_wallet := hd rest\<rparr>) (tl rest)
      else if arg = ''--help'' \<or> arg = ''-h'' then Inr None
      else read_options opt rest)"

definition connect_items :: "('j, 't) json_lib \<Rightarrow> 'j json_values \<Rightarrow> 'j \<Rightarrow> (error + ('j, 't) shown) list" where
  "connect_items J X j =
     [slot_json J X ''node height'' (Some j) ''blockchain_height'',
      vault_slot (slot_flag J X ''node solvent'') J X j ''is_solvent_1_to_1'',
      vault_slot (slot_text J X ''node collateral'') J X j ''total_collateral_usdt'']"

definition connect_cli ::
  "('j, 't) json_lib \<Rightarrow> 'j json_values \<Rightarrow> ('w, 't) platform \<Rightarrow> ('w, 'f) session
     \<Rightarrow> ('w, 'f) session \<times> ('j, 't) shown list" where
  "connect_cli J X P s =
     (case get_node_status P (ses_world s) (ses_manager s) of
        (w, None) \<Rightarrow> (s\<lparr>ses_world := w\<rparr>, [Say_text ''node unavailable'' (daemon_url (ses_manager s))])
      | (w, Some raw) \<Rightarrow>
          (s\<lparr>ses_world := w\<rparr>,
           case js_parse J raw of
             None \<Rightarrow> [Say ''node unrecognised'']
           | Some j \<Rightarrow> attempt (\<lambda>_. Say ''node unrecognised'') (connect_items J X j)))"

definition open_initial ::
  "sodium \<Rightarrow> ('j, 't) json_lib \<Rightarrow> ('w, 't) platform \<Rightarrow> ('f, 't) file_system \<Rightarrow> ('w, 'f) session \<Rightarrow> string
     \<Rightarrow> ('w, 'f) session \<times> ('j, 't) shown list" where
  "open_initial S J P F s path =
     (if path = [] then (s, [])
      else case load_wallet S J F (ses_files s) (ses_manager s) path of
        (W, Inl e) \<Rightarrow> (s\<lparr>ses_manager := W\<rparr>, [Say_error ''open failed'' e])
      | (W, Inr _) \<Rightarrow>
          let out = [Say_text ''wallet opened'' (wm_name W), Say_text ''opened from'' path] in
          case sync_session J P (s\<lparr>ses_manager := W\<rparr>) of
            (s, ok) \<Rightarrow> (s, out @ (if ok then [Say_text ''sync done'' (balance_text s)] else [])))"

text \<open>\<^verbatim>\<open>main\<close>, with the lines typed; an exception of the options or a command ends the process.\<close>

definition wallet_cli ::
  "sodium \<Rightarrow> ('j, 't) json_lib \<Rightarrow> 'j json_values \<Rightarrow> ('w, 't) platform \<Rightarrow> ('f, 't) file_system
     \<Rightarrow> 'w \<Rightarrow> 'f \<Rightarrow> (nat \<Rightarrow> bytes) \<Rightarrow> string list \<Rightarrow> string list
     \<Rightarrow> ('w, 'f) session option \<times> ('j, 't) shown list \<times> ending" where
  "wallet_cli S J X P F w f entropy argv input =
     (case read_options default_options argv of
        Inl e \<Rightarrow> (None, [], Terminates e)
      | Inr None \<Rightarrow> (None, [Say ''usage''], Quits)
      | Inr (Some opt) \<Rightarrow>
          let s = \<lparr>ses_manager = new_wallet_manager (opt_host opt) (opt_port opt), ses_world = w, ses_files = f,
                   ses_entropy = entropy\<rparr> in
          case connect_cli J X P s of (s1, out1) \<Rightarrow>
          case open_initial S J P F s1 (opt_wallet opt) of (s2, out2) \<Rightarrow>
          case run_lines S J X P F s2 input of (s3, out3, e) \<Rightarrow>
            (Some s3, [Say ''banner'', Say_text ''connecting'' (daemon_url (ses_manager s))] @ out1 @ out2 @ [Say ''help hint''] @ out3, e))"

end
