(* ===== verification/Clients.thy ===== *)
theory Clients
  imports Exchange
begin

text \<open>
  Clients of the server: the documents that the wallet, the browser and the operator of the
  treasury send are read as they were meant, and what the wallet sees and does when it
  talks to a node is composed from both sides.
\<close>

section \<open>Treasury\<close>

text \<open>
  C24: fees of the treasury are claimed only with the configured token: either the node is
  unchanged and the reply is an error, or the environment has a token that is not empty,
  the request presents exactly it, and the node claims some amount for an address that is
  an EVM address.
\<close>

theorem claim_needs_token:
  "(fst (handle_claim_fees L J C tx_bytes n req) = n
      \<and> reply_status (snd (handle_claim_fees L J C tx_bytes n req)) \<in> {400, 401})
   \<or> (\<exists>token amt addr. env_admin_token C = Some token \<and> token \<noteq> [] \<and> presented_token req = token
        \<and> is_valid_evm_address addr
        \<and> fst (handle_claim_fees L J C tx_bytes n req) = fst (claim_treasury_fees L tx_bytes n amt addr))"
proof (cases "expected_admin C = [] \<or> presented_token req \<noteq> expected_admin C")
  case True
  then show ?thesis
    by (simp add: handle_claim_fees_def)
next
  case False
  then have token: "env_admin_token C = Some (expected_admin C)"
    by (auto simp: expected_admin_def split: option.splits)
  show ?thesis
  proof (cases "ebind (guarded J C (parse_body J req)) (parse_claim J C)")
    case (Inl r)
    then have "reply_status r = 400"
      by (auto simp: ebind_eq_Inl parse_claim_def split: if_splits dest: guarded_status)
    with False Inl show ?thesis
      by (simp add: handle_claim_fees_def)
  next
    case (Inr x)
    obtain amt addr where x: "x = (amt, addr)"
      by fastforce
    have "is_valid_evm_address addr"
      using Inr by (auto simp: x ebind_eq_Inr parse_claim_def split: if_splits)
    moreover have "fst (handle_claim_fees L J C tx_bytes n req) = fst (claim_treasury_fees L tx_bytes n amt addr)"
      using False Inr by (simp add: handle_claim_fees_def x split: prod.split sum.split)
    ultimately show ?thesis
      using False token by metis
  qed
qed

section \<open>Text\<close>

lemma ascii_append [simp]: "ascii (s @ t) \<longleftrightarrow> ascii s \<and> ascii t"
  by (simp add: ascii_def)

lemma ascii_simps [simp]: "ascii []" "ascii (c # s) \<longleftrightarrow> (of_char c :: nat) < 128 \<and> ascii s"
  by (simp_all add: ascii_def)

lemma ascii_dec: "ascii (dec_string n)"
  using dec_string_digits [of n] by (force simp: ascii_def list_all_iff)

lemma ascii_format: "ascii (format_usdt a)"
proof -
  have "ascii (replicate k (CHR ''0''))" for k
    by (induction k) simp_all
  then show ?thesis
    by (simp add: format_usdt_def set_width_def ascii_dec Let_def)
qed

lemma ascii_address: "ascii (encode_address a)"
  by (simp add: encode_address_def ascii_hex)

lemma client_keys [simp]:
  "ascii ''view_private_key''" "ascii ''spend_public_key''" "ascii ''destination_one_time''"
  "ascii ''ephemeral_public_key''" "ascii ''amount_usdt''" "ascii ''amount_units''" "ascii ''is_spent''"
  "ascii ''total_balance_usdt''" "ascii ''total_balance_units''" "ascii ''outputs_count''" "ascii ''outputs''"
  "ascii ''spent_outputs_count''" "ascii ''spent_outputs''" "ascii ''is_watch_only''"
  "ascii ''sender_spend_private_key''" "ascii ''sender_view_private_key''" "ascii ''input_utxo_pubkey''"
  "ascii ''recipient_stealth_address''" "ascii ''tx_fee_usdt''" "ascii ''success''" "ascii ''block_height''"
  "ascii ''tx_hash''" "ascii ''key_image''" "ascii ''ring_size''" "ascii ''sent_amount''" "ascii ''fee''"
  by (simp_all add: ascii_def)

section \<open>Scanning the pool\<close>

text \<open>The reply to a scan without the spending key.\<close>

definition sized_output :: "one_time_output \<Rightarrow> bool" where
  "sized_output u \<longleftrightarrow> length (ephemeral_public_key u) = 32 \<and> length (destination_one_time u) = 32"

definition pool_balance :: "one_time_output list \<Rightarrow> amount" where
  "pool_balance us = foldl (\<lambda>s u. s + out_amount u) 0 us"

definition scan_document :: "('j, 't) json_lib \<Rightarrow> one_time_output list \<Rightarrow> 'j" where
  "scan_document J us = js_object J
     [(''total_balance_usdt'', js_string J (format_usdt (pool_balance us))),
      (''total_balance_units'', js_u64 J (pool_balance us)),
      (''outputs_count'', js_u64 J (of_nat (length us))),
      (''outputs'', js_array J (map (scan_item J False) us)),
      (''spent_outputs_count'', js_u64 J (of_nat (length ([] :: one_time_output list)))),
      (''spent_outputs'', js_array J (map (scan_item J True) [])),
      (''is_watch_only'', js_bool J True)]"

lemma plain_scan_item: "json_plain J (scan_item J gone u)"
  unfolding scan_item_def by (rule plain_object) (auto intro!: plain_string plain_u64 plain_bool ascii_hex ascii_format)

lemma plain_scan: "json_plain J (scan_document J us)"
  unfolding scan_document_def
  by (rule plain_object) (auto intro!: plain_string plain_u64 plain_bool plain_array plain_scan_item ascii_format)

lemma scan_watch_only: "scan_pool L S n w False us = Inr (filter (scan_output S w) us, [])"
  by (induction us) (simp_all add: scan_spent_def)

lemma scan_same_keys:
  assumes "view_private_key w' = view_private_key w" and "spend_public_key w' = spend_public_key w"
  shows "scan_output S w' = scan_output S w"
  unfolding scan_output_def assms ..

definition scan_post :: "'t \<Rightarrow> 't request" where
  "scan_post body = \<lparr>req_body = body, req_params = (\<lambda>k. None), req_header = (\<lambda>k. []), req_match = []\<rparr>"

lemma handle_scan_request:
  assumes "json_ok J" and "length (view_private_key w) = 32" and "length (spend_public_key w) = 32"
  shows "handle_scan L S J C n (scan_post (scan_request J w))
    = \<lparr>reply_status = 200, reply_content = js_dump J (scan_document J (filter (scan_output S w) (node_pool n)))\<rparr>"
proof -
  define doc where "doc = js_object J
     [(''view_private_key'', js_string J (to_hex (view_private_key w))),
      (''spend_public_key'', js_string J (to_hex (spend_public_key w)))]"
  let ?w = "\<lparr>spend_private_key = zero_key, spend_public_key = spend_public_key w,
    view_private_key = view_private_key w, view_public_key = zero_key\<rparr>"
  have "json_plain J doc"
    unfolding doc_def by (rule plain_object) (auto intro!: plain_string ascii_hex)
  then have "parse_body J (scan_post (scan_request J w)) = Inr doc"
    using json_okD(1) [OF assms(1)] by (simp add: parse_body_def scan_post_def scan_request_def doc_def)
  moreover have "scan_wallet J doc = Inr (?w, False)"
    by (simp add: scan_wallet_def scan_spend_key_def doc_def json_object_simps [OF assms(1)] json_okD [OF assms(1)] assms(2,3))
  moreover have "scan_output S ?w = scan_output S w"
    by (rule scan_same_keys) simp_all
  ultimately show ?thesis
    by (simp add: handle_scan_def scan_watch_only scan_result_def scan_document_def answer_def pool_balance_def Let_def)
qed

lemma listed_scan_item:
  assumes "json_ok J" and "sized_output u"
  shows "listed_output J (scan_item J gone u) = Inr u"
  using assms(2)
  by (simp add: listed_output_def scan_item_def json_const_at_def json_okD [OF assms(1)] json_hex_to_hex [OF assms(1)]
      copy_key_def sized_output_def)

lemma listed_scan_items:
  assumes "json_ok J"
  shows "\<forall>u \<in> set us. sized_output u \<Longrightarrow> listed_outputs J (map (scan_item J gone) us) = (us, True)"
  by (induction us) (simp_all add: listed_scan_item [OF assms])

text \<open>The wallet after a synchronization with a node.\<close>

definition synced :: "sodium \<Rightarrow> wallet_manager \<Rightarrow> stealth_wallet \<Rightarrow> 's node \<Rightarrow> wallet_manager" where
  "synced S W w n =
     (let us = filter (scan_output S w) (node_pool n) in W\<lparr>wm_balance := pool_balance us, wm_utxos := us\<rparr>)"

lemma apply_scan_document:
  assumes "json_ok J" and "\<forall>u \<in> set us. sized_output u"
  shows "apply_scan J W (scan_document J us) = (W\<lparr>wm_balance := pool_balance us, wm_utxos := us\<rparr>, True)"
  by (simp add: apply_scan_def scan_document_def json_object_simps [OF assms(1)] json_okD [OF assms(1)]
      listed_scan_items [OF assms] del: listed_outputs.simps)

section \<open>A payment of the wallet\<close>

text \<open>The outside world of the wallet is the node behind the server.\<close>

definition served_node ::
  "'s lmdb \<Rightarrow> sodium \<Rightarrow> ('j, 't) json_lib \<Rightarrow> rpc_config \<Rightarrow> spend_draws \<Rightarrow> u64 \<Rightarrow> ('s node, 't) platform" where
  "served_node L S J C D now =
     \<lparr>pf_post = (\<lambda>n url path body.
        if path = ''/api/v1/wallet/scan''
        then (n, case handle_scan L S J C n (scan_post body) of r \<Rightarrow> Some (reply_status r, reply_content r))
        else if path = ''/api/v1/tx/transfer''
        then (case handle_transfer L S J C D now n (scan_post body) of
                (n, r) \<Rightarrow> (n, Some (reply_status r, reply_content r)))
        else (n, None)),
      pf_get = (\<lambda>n url path. (n, None)), pf_now = (\<lambda>n. now), pf_elapsed_ms = (\<lambda>n n'. 0), pf_order = (\<lambda>ks. ks)\<rparr>"

lemma sync_with_node:
  assumes "json_ok J" and "active_wallet W = Some w" and "length (view_private_key w) = 32"
    and "length (spend_public_key w) = 32" and "\<forall>u \<in> set (node_pool n). sized_output u"
  shows "wallet_sync J (served_node L S J C D now) n W = (synced S W w n, n, True)"
proof -
  let ?us = "filter (scan_output S w) (node_pool n)"
  have "ok_document J (Some (200, js_dump J (scan_document J ?us))) = Some (scan_document J ?us)"
    using json_okD(1) [OF assms(1) plain_scan] by (simp add: ok_document_def)
  moreover have "apply_scan J W (scan_document J ?us) = (W\<lparr>wm_balance := pool_balance ?us, wm_utxos := ?us\<rparr>, True)"
    using assms(5) by (intro apply_scan_document [OF assms(1)]) simp
  ultimately show ?thesis
    by (simp add: wallet_sync_def assms(2) served_node_def handle_scan_request [OF assms(1,3,4)] synced_def Let_def)
qed

lemma parse_zero_fee: "parse_usdt (Finite False 0 0) = Inr 0"
  by (simp add: parse_usdt_def magnitude_exceeds_def times_million_def plus_half_def to_binary64_exact magnitude_floor_def)

text \<open>A wallet whose public keys belong to its private keys, all of 32 bytes.\<close>

definition paying_wallet :: "sodium \<Rightarrow> stealth_wallet \<Rightarrow> bool" where
  "paying_wallet S w \<longleftrightarrow> length (spend_private_key w) = 32 \<and> length (view_private_key w) = 32
     \<and> spend_public_key w = base_point S (spend_private_key w) \<and> length (spend_public_key w) = 32
     \<and> view_public_key w = base_point S (view_private_key w)"

lemma select_utxo_mem: "select_utxo us amt = Some u \<Longrightarrow> u \<in> set us \<and> out_amount u \<ge> amt"
  unfolding select_utxo_def by (induction us) (auto split: if_splits)

lemma usdt_double_allowed:
  assumes "a \<le> MAX_TRANSACTION_AMOUNT"
  obtains m e where "usdt_double a = Finite False m e" and "is_binary64 (usdt_double a)"
proof -
  have "unat a \<le> 100000000000000"
    using assms by (simp add: MAX_TRANSACTION_AMOUNT_def word_le_nat_alt)
  then have "unat a < 2 ^ 53"
    by simp
  then show ?thesis
    by (rule usdt_double_form) (rule that)
qed

lemma find_same_key:
  assumes "distinct (map destination_one_time pool)" and "u \<in> set pool"
  shows "find (\<lambda>v. destination_one_time v = destination_one_time u) pool = Some u"
  using assms by (induction pool) (auto simp: image_iff)

lemma parse_transfer_request:
  assumes "json_ok J" and "paying_wallet S w" and "u \<in> set pool" and "sized_output u"
    and "distinct (map destination_one_time pool)" and "amt \<le> MAX_TRANSACTION_AMOUNT"
    and "length (addr_spend_public_key r) = 32" and "length (addr_view_public_key r) = 32"
  shows "ebind (parse_body J (scan_post (transfer_request J w u (encode_address r) amt))) (parse_transfer S J pool)
    = Inr (w, u, r, amt, 0)"
proof -
  define doc where "doc = js_object J
     [(''sender_spend_private_key'', js_string J (to_hex (spend_private_key w))),
      (''sender_view_private_key'', js_string J (to_hex (view_private_key w))),
      (''input_utxo_pubkey'', js_string J (to_hex (destination_one_time u))),
      (''recipient_stealth_address'', js_string J (encode_address r)),
      (''amount_usdt'', js_double J (usdt_double amt)),
      (''tx_fee_usdt'', js_double J (Finite False 0 0))]"
  obtain m e where d: "usdt_double amt = Finite False m e" and b: "is_binary64 (usdt_double amt)"
    by (rule usdt_double_allowed [OF assms(6)])
  have z: "is_binary64 (Finite False 0 0)"
    by (simp add: is_binary64_def)
  have "json_plain J doc"
    unfolding doc_def by (rule plain_object)
      (use b z in \<open>auto intro!: plain_string plain_double ascii_hex ascii_address simp: d\<close>)
  then have "parse_body J (scan_post (transfer_request J w u (encode_address r) amt)) = Inr doc"
    using json_okD(1) [OF assms(1)] by (simp add: parse_body_def scan_post_def transfer_request_def doc_def)
  moreover have a: "decode_address (encode_address r) = Inr r"
    using assms(7,8) by (simp add: decode_address_def encode_address_def)
  moreover have "find_input Transfer_input_not_found pool (destination_one_time u) = Inr u"
    using assms(4) find_same_key [OF assms(5,3)] by (simp add: find_input_def sized_output_def)
  moreover have "wallet_of_private_keys S (spend_private_key w) (view_private_key w) = w"
    using assms(2) by (simp add: wallet_of_private_keys_def paying_wallet_def)
  ultimately show ?thesis
    using assms(2) parse_usdt_double [OF assms(6)] parse_zero_fee
    by (simp add: parse_transfer_def doc_def json_object_simps [OF assms(1)] json_okD [OF assms(1)] b z paying_wallet_def)
qed

definition transfer_document :: "('j, 't) json_lib \<Rightarrow> 's node \<Rightarrow> shielded_transaction \<Rightarrow> amount \<Rightarrow> amount \<Rightarrow> 'j" where
  "transfer_document J n tx send_amount tx_fee = js_object J
          [(''success'', js_bool J True),
           (''block_height'', js_u64 J (get_blockchain_height n)),
           (''tx_hash'', js_string J (to_hex (tx_hash tx))),
           (''key_image'', js_string J (to_hex (sig_key_image (ring_sig tx)))),
           (''ring_size'', js_u64 J (of_nat (length (sig_ring_pubkeys (ring_sig tx))))),
           (''sent_amount'', js_string J (format_usdt send_amount)),
           (''fee'', js_string J (format_usdt tx_fee))]"

lemma plain_transfer: "json_plain J (transfer_document J n tx send_amount tx_fee)"
  unfolding transfer_document_def
  by (rule plain_object) (auto intro!: plain_string plain_u64 plain_bool ascii_hex ascii_format)

text \<open>What a transfer adds to the pool.\<close>

lemma transfer_pool:
  assumes "transfer_shielded L S D now n w u r amt fee = (n', Inr tx)"
    and "points_sized S" and "\<forall>s. length (base_point S s) = 32"
  shows "node_pool n' = node_pool n @ tx_outputs tx \<and> (\<forall>v \<in> set (tx_outputs tx). sized_output v)
    \<and> node_ledger n' = fst (register_key_image S (node_ledger n) (sig_key_image (ring_sig tx)))"
proof -
  obtain tx0 where p: "prepare_transfer L S D n w u r amt fee = Inr tx0" and s: "settle_transaction L S now n tx0 = (n', Inr tx)"
    using assms(1) by (auto simp: transfer_shielded_def split: sum.splits)
  have made: "sized_output v" if "create_one_time_output S a b c d = Inr v" for a b c d v
    using that assms(2,3) by (auto simp: create_one_time_output_def sized_output_def points_sized_def ebind_eq_Inr Let_def
        base_point_def split: option.splits prod.splits if_splits)
  have outs: "transfer_outputs S D w u r amt fee = Inr (tx_outputs tx0)"
    using p by (auto simp: prepare_transfer_def ebind_eq_Inr Let_def split: if_splits option.splits)
  have "\<forall>v \<in> set vs. sized_output v" if "transfer_outputs S D w u r amt fee = Inr vs" for vs
    using that by (auto simp: transfer_outputs_def ebind_eq_Inr Let_def made split: if_splits)
  from this [OF outs] have "\<forall>v \<in> set (tx_outputs tx0). sized_output v" .
  moreover have "tx = tx0" and "node_pool n' = node_pool n @ tx_outputs tx0"
    and "node_ledger n' = fst (register_key_image S (node_ledger n) (sig_key_image (ring_sig tx0)))"
    using s by (auto simp: settle_transaction_def commit_or_recover_def Let_def split: sum.splits prod.splits)
  ultimately show ?thesis
    by simp
qed

lemma prepare_transfer_image:
  assumes "prepare_transfer L S D n sender input recipient send fee = Inr tx"
  shows "\<exists>priv img. derive_one_time_private_key S sender input = Inr priv
    \<and> compute_key_image S priv (destination_one_time input) = Inr img \<and> sig_key_image (ring_sig tx) = img"
proof -
  let ?decoys = "select_decoys (draw_swap D) (node_pool n) 5 (destination_one_time input) (out_amount input)"
  define ring where "ring = insert_at (draw_real_index D) (destination_one_time input) ?decoys"
  from assms obtain img sg txh priv where priv: "derive_one_time_private_key S sender input = Inr priv"
    and img: "compute_key_image S priv (destination_one_time input) = Inr img"
    and sg: "ring_sign S txh ring (draw_real_index D) priv (draw_alpha D) (draw_response D) = Inr sg"
    and tx: "ring_sig tx = sg"
    by (auto simp: prepare_transfer_def ebind_eq_Inr Let_def ring_def [symmetric] split: if_splits option.splits)
  note signed = ring_signD [OF sg]
  have "ring ! draw_real_index D = destination_one_time input"
    using signed(1) nth_insert_at [of "draw_real_index D" ?decoys "destination_one_time input"]
    by (cases "draw_real_index D \<le> length ?decoys") (simp_all add: ring_def insert_at_def)
  then have "sig_key_image sg = img"
    using signed(3) img by simp
  with priv img tx show ?thesis
    by blast
qed

text \<open>
  C20: a payment of the wallet, through the server, is the transfer of the node. The wallet
  lists the outputs of the pool that it recognises and takes the first that covers the
  amount; the node transfers from just that output, for exactly that amount and recipient,
  without a fee; on success the wallet returns the hash of the transaction and lists the
  new pool, on any exception of the node, or when no output is large enough, it returns no
  hash.
\<close>

theorem wallet_transfer_is_node_transfer:
  assumes "json_ok J" and "active_wallet W = Some w" and "paying_wallet S w" and "amt \<le> MAX_TRANSACTION_AMOUNT"
    and "length (addr_spend_public_key r) = 32" and "length (addr_view_public_key r) = 32"
    and "\<forall>u \<in> set (node_pool n). sized_output u" and "distinct (map destination_one_time (node_pool n))"
    and "points_sized S" and "\<forall>s. length (base_point S s) = 32"
  shows "wallet_transfer J (served_node L S J C D now) n W (encode_address r) amt
    = (case select_utxo (filter (scan_output S w) (node_pool n)) amt of
         None \<Rightarrow> (synced S W w n, n, None)
       | Some u \<Rightarrow>
           (case transfer_shielded L S D now n w u r amt 0 of
              (n', Inl e) \<Rightarrow> (synced S W w n, n', None)
            | (n', Inr tx) \<Rightarrow> (synced S W w n', n', Some (to_hex (tx_hash tx)))))"
proof -
  let ?P = "served_node L S J C D now"
  have k: "length (view_private_key w) = 32" "length (spend_public_key w) = 32"
    using assms(3) unfolding paying_wallet_def by blast+
  have active: "active_wallet (synced S W w n) = Some w"
    using assms(2) by (auto simp: synced_def active_wallet_def Let_def split: if_splits)
  have sync: "wallet_sync J ?P n W = (synced S W w n, n, True)"
    by (rule sync_with_node [OF assms(1,2) k assms(7)])
  have utxos: "wm_utxos (synced S W w n) = filter (scan_output S w) (node_pool n)"
    by (simp add: synced_def Let_def)
  show ?thesis
  proof (cases "select_utxo (filter (scan_output S w) (node_pool n)) amt")
    case None
    then show ?thesis
      by (simp add: wallet_transfer_def pay_with_def assms(2) sync utxos)
  next
    case (Some u)
    then have u: "u \<in> set (node_pool n)"
      using select_utxo_mem by fastforce
    obtain n' x where t: "transfer_shielded L S D now n w u r amt 0 = (n', x)"
      by fastforce
    note p = parse_transfer_request [OF assms(1,3) u _ assms(8,4,5,6)]
    show ?thesis
    proof (cases x)
      case (Inl e)
      have "pf_post ?P n url ''/api/v1/tx/transfer'' (transfer_request J w u (encode_address r) amt)
        = (n', Some (400, reply_content (failed_with J (error_text C) e)))" for url
        using p u assms(7) t by (simp add: served_node_def handle_transfer_def Inl)
      then show ?thesis
        by (simp add: wallet_transfer_def pay_with_def assms(2) sync utxos Some t Inl ok_document_def)
    next
      case (Inr tx)
      have "pf_post ?P n url ''/api/v1/tx/transfer'' (transfer_request J w u (encode_address r) amt)
        = (n', Some (200, js_dump J (transfer_document J n' tx amt 0)))" for url
        using p u assms(7) t by (simp add: served_node_def handle_transfer_def Inr answer_def transfer_document_def)
      moreover have "ok_document J (Some (200, js_dump J (transfer_document J n' tx amt 0))) = Some (transfer_document J n' tx amt 0)"
        using json_okD(1) [OF assms(1) plain_transfer] by (simp add: ok_document_def)
      moreover have "json_field J (js_get_string J) (transfer_document J n' tx amt 0) ''tx_hash'' = Inr (to_hex (tx_hash tx))"
        by (simp add: transfer_document_def json_object_simps [OF assms(1)] json_okD [OF assms(1)])
      moreover have "wallet_sync J ?P n' (synced S W w n) = (synced S (synced S W w n) w n', n', True)"
        by (rule sync_with_node [OF assms(1) active k]) (use transfer_pool [OF t [unfolded Inr] assms(9,10)] assms(7) in auto)
      moreover have "synced S (synced S W w n) w n' = synced S W w n'"
        by (simp add: synced_def Let_def)
      ultimately show ?thesis
        by (simp add: wallet_transfer_def pay_with_def assms(2) sync utxos Some t Inr)
    qed
  qed
qed

text \<open>The owner of the toy chain pays 60 units to the recipient over the server.\<close>

definition toy_payer :: stealth_wallet where
  "toy_payer = generate_random_wallet toy_sodium (scalar 3) (scalar 5)"

definition toy_manager :: wallet_manager where
  "toy_manager = (new_wallet_manager ''127.0.0.1'' 8080)\<lparr>wm_loaded := True, wm_wallet := Some toy_payer\<rparr>"

definition toy_paid :: shielded_transaction where
  "toy_paid = toy_tx\<lparr>public_fee := 0,
     tx_outputs := [\<lparr>ephemeral_public_key = point 1, destination_one_time = point 7, out_amount = 60\<rparr>,
                    \<lparr>ephemeral_public_key = point 2, destination_one_time = point 2, out_amount = 40\<rparr>]\<rparr>"

lemma toy_payment:
  "prepare_transfer toy_lmdb toy_sodium toy_spend toy_owner toy_payer toy_input toy_recipient 60 0 = Inr toy_paid"
  by code_simp

lemma toy_selection:
  "select_utxo (filter (scan_output toy_sodium toy_payer) (node_pool toy_owner)) 60 = Some toy_input"
  by code_simp

lemma toy_paying: "paying_wallet toy_sodium toy_payer"
  by code_simp

lemma toy_base_sized: "length (base_point toy_sodium s) = 32"
  by (simp add: base_point_def toy_sodium_def)

lemma toy_paid_transfer:
  obtains n' where "transfer_shielded toy_lmdb toy_sodium toy_spend 7 toy_owner toy_payer toy_input toy_recipient 60 0 = (n', Inr toy_paid)"
proof -
  obtain s where "db_env (node_db toy_owner) = Some s"
    using toy_db_open by (auto simp: toy_owner_def toy_node_def)
  moreover have "length (tx_timestamp toy_paid) \<le> 4294967295"
    by (simp add: toy_paid_def toy_tx_def transfer_timestamp_def)
  ultimately obtain n' where "settle_transaction toy_lmdb toy_sodium 7 toy_owner toy_paid = (n', Inr toy_paid)"
    using settle_succeeds [OF toy_lmdb_ok toy_lmdb_reliable] by blast
  then show ?thesis
    by (intro that) (simp add: transfer_shielded_def toy_payment)
qed

lemma toy_pool: "\<forall>u \<in> set (node_pool toy_owner). sized_output u" "distinct (map destination_one_time (node_pool toy_owner))"
  by (simp_all add: toy_owner_def toy_input_def sized_output_def)

lemma toy_recipient_sized: "length (addr_spend_public_key toy_recipient) = 32" "length (addr_view_public_key toy_recipient) = 32"
  by (simp_all add: toy_recipient_def)

lemma toy_active: "active_wallet toy_manager = Some toy_payer"
  by (simp add: active_wallet_def toy_manager_def)

theorem wallet_transfer_is_node_transfer_witness:
  "\<exists>n'. transfer_shielded toy_lmdb toy_sodium toy_spend 7 toy_owner toy_payer toy_input toy_recipient 60 0 = (n', Inr toy_paid)
    \<and> wallet_transfer toy_json_lib (served_node toy_lmdb toy_sodium toy_json_lib toy_config toy_spend 7) toy_owner
         toy_manager (encode_address toy_recipient) 60
      = (synced toy_sodium toy_manager toy_payer n', n', Some (to_hex (tx_hash toy_paid)))"
proof -
  obtain n' where t: "transfer_shielded toy_lmdb toy_sodium toy_spend 7 toy_owner toy_payer toy_input toy_recipient 60 0 = (n', Inr toy_paid)"
    by (rule toy_paid_transfer)
  have "60 \<le> MAX_TRANSACTION_AMOUNT"
    by (simp add: MAX_TRANSACTION_AMOUNT_def)
  from wallet_transfer_is_node_transfer [OF toy_json_ok toy_active toy_paying this toy_recipient_sized toy_pool toy_sized,
      of toy_lmdb toy_config toy_spend 7]
  show ?thesis
    using t toy_base_sized by (simp add: toy_selection)
qed

text \<open>
  C26: the wallet keeps choosing an output that it has spent. After a payment the pool
  still lists the output, the scan, which is sent no spending key, does not see that it is
  spent, and so for the same amount the wallet selects it again; whatever is asked of the
  node with it then fails. The output also stays in the balance.
\<close>

theorem wallet_reselects_spent_output:
  assumes "transfer_shielded L S D now n w u r amt fee = (n', Inr tx)"
    and "select_utxo (filter (scan_output S w) (node_pool n)) wanted = Some u"
    and "points_sized S" and "\<forall>s. length (base_point S s) = 32"
  shows "select_utxo (wm_utxos (synced S W w n')) wanted = Some u
    \<and> (\<exists>e. transfer_shielded L S D2 now2 n' w u r2 amt2 fee2 = (n', Inl e))"
proof -
  have pool: "node_pool n' = node_pool n @ tx_outputs tx"
    and ledger: "node_ledger n' = fst (register_key_image S (node_ledger n) (sig_key_image (ring_sig tx)))"
    using transfer_pool [OF assms(1,3,4)] by simp_all
  have "select_utxo (us @ vs) wanted = Some u" if "select_utxo us wanted = Some u" for us vs
    using that unfolding select_utxo_def by (induction us) (auto split: if_splits)
  then have sel: "select_utxo (wm_utxos (synced S W w n')) wanted = Some u"
    using assms(2) by (simp add: synced_def pool Let_def)
  obtain tx0 where p: "prepare_transfer L S D n w u r amt fee = Inr tx0" and s: "settle_transaction L S now n tx0 = (n', Inr tx)"
    using assms(1) by (auto simp: transfer_shielded_def split: sum.splits)
  have tx: "tx = tx0"
    by (rule settle_transactionD [OF s])
  obtain priv img where priv: "derive_one_time_private_key S w u = Inr priv"
    and img: "compute_key_image S priv (destination_one_time u) = Inr img"
    and signed: "sig_key_image (ring_sig tx) = img"
    using prepare_transfer_image [OF p] tx by metis
  have "image_spent L S n' img"
    by (auto simp: image_spent_def is_spent_def ledger signed register_key_image_def Let_def)
  then have "\<exists>e. prepare_transfer L S D2 n' w u r2 amt2 fee2 = Inl e"
    by (auto simp: prepare_transfer_def priv img split: option.split)
  then show ?thesis
    using sel by (auto simp: transfer_shielded_def)
qed

theorem wallet_reselects_spent_output_witness:
  "\<exists>n' e. transfer_shielded toy_lmdb toy_sodium toy_spend 7 toy_owner toy_payer toy_input toy_recipient 60 0 = (n', Inr toy_paid)
    \<and> select_utxo (wm_utxos (synced toy_sodium toy_manager toy_payer n')) 60 = Some toy_input
    \<and> transfer_shielded toy_lmdb toy_sodium toy_spend 8 n' toy_payer toy_input toy_recipient 60 0 = (n', Inl e)"
proof -
  obtain n' where t: "transfer_shielded toy_lmdb toy_sodium toy_spend 7 toy_owner toy_payer toy_input toy_recipient 60 0 = (n', Inr toy_paid)"
    by (rule toy_paid_transfer)
  from wallet_reselects_spent_output [OF t toy_selection toy_sized] t toy_base_sized show ?thesis
    by blast
qed

section \<open>Transactions from the browser\<close>

definition pushed_output :: "('j, 't) json_lib \<Rightarrow> one_time_output \<Rightarrow> 'j" where
  "pushed_output J u = js_object J
     [(''ephemeral_pubkey'', js_string J (to_hex (ephemeral_public_key u))),
      (''destination_one_time'', js_string J (to_hex (destination_one_time u))),
      (''amount_usdt'', js_double J (usdt_double (out_amount u)))]"

definition pushed_signature :: "('j, 't) json_lib \<Rightarrow> ring_signature \<Rightarrow> 'j" where
  "pushed_signature J sg = js_object J
     [(''key_image'', js_string J (to_hex (sig_key_image sg))),
      (''c0'', js_string J (to_hex (sig_c0 sg))),
      (''ring_pubkeys'', js_array J (map (\<lambda>k. js_string J (to_hex k)) (sig_ring_pubkeys sg))),
      (''responses'', js_array J (map (\<lambda>k. js_string J (to_hex k)) (sig_responses sg)))]"

definition push_document :: "('j, 't) json_lib \<Rightarrow> shielded_transaction \<Rightarrow> 'j" where
  "push_document J tx = js_object J
     [(''tx_hash'', js_string J (to_hex (tx_hash tx))),
      (''fee_usdt'', js_double J (usdt_double (public_fee tx))),
      (''timestamp'', js_string J (tx_timestamp tx)),
      (''outputs'', js_array J (map (pushed_output J) (tx_outputs tx))),
      (''ring_sig'', pushed_signature J (ring_sig tx))]"

definition sized_keys :: "bytes list \<Rightarrow> bool" where
  "sized_keys ks \<longleftrightarrow> (\<forall>k \<in> set ks. length k = 32)"

definition sized_signature :: "ring_signature \<Rightarrow> bool" where
  "sized_signature sg \<longleftrightarrow>
     sized_keys (sig_key_image sg # sig_c0 sg # sig_ring_pubkeys sg @ sig_responses sg)"

definition pushable :: "shielded_transaction \<Rightarrow> bool" where
  "pushable tx \<longleftrightarrow> length (tx_hash tx) = 32 \<and> public_fee tx \<le> MAX_TRANSACTION_AMOUNT \<and> ascii (tx_timestamp tx)
     \<and> (\<forall>u \<in> set (tx_outputs tx). sized_output u \<and> out_amount u \<le> MAX_TRANSACTION_AMOUNT)
     \<and> sized_signature (ring_sig tx)"

lemma push_keys [simp]:
  "ascii ''ephemeral_pubkey''" "ascii ''c0''" "ascii ''ring_pubkeys''" "ascii ''responses''"
  "ascii ''fee_usdt''" "ascii ''timestamp''" "ascii ''ring_sig''"
  by simp_all

lemma plain_amount: "a \<le> MAX_TRANSACTION_AMOUNT \<Longrightarrow> json_plain J (js_double J (usdt_double a))"
  by (erule usdt_double_allowed) (metis plain_double)

lemma amount_binary: "a \<le> MAX_TRANSACTION_AMOUNT \<Longrightarrow> is_binary64 (usdt_double a)"
  by (erule usdt_double_allowed)

lemma parse_pushed_document_output:
  assumes "json_ok J" and "sized_output u" and "out_amount u \<le> MAX_TRANSACTION_AMOUNT"
  shows "parse_pushed_output J (pushed_output J u) = Inr u"
  using assms(2)
  by (simp add: parse_pushed_output_def pushed_output_def json_object_simps [OF assms(1)] json_hex_to_hex [OF assms(1)]
      json_okD [OF assms(1)] amount_binary [OF assms(3)] parse_usdt_double [OF assms(3)] sized_output_def)

lemma parse_pushed_keys:
  assumes "json_ok J"
  shows "sized_keys ks \<Longrightarrow> each (parse_pushed_key J e) (map (\<lambda>k. js_string J (to_hex k)) ks) = Inr ks"
  by (induction ks) (simp_all add: parse_pushed_key_def json_hex_to_hex [OF assms] checked_key_def sized_keys_def)

lemma parse_push_document:
  assumes "json_ok J" and "pushable tx"
  shows "parse_push J (push_document J tx) = Inr tx"
proof -
  have fee: "public_fee tx \<le> MAX_TRANSACTION_AMOUNT"
    using assms(2) by (simp add: pushable_def)
  have outs: "each (parse_pushed_output J) (map (pushed_output J) (tx_outputs tx)) = Inr (tx_outputs tx)"
    using assms(2) by (intro each_map parse_pushed_document_output [OF assms(1)]) (simp_all add: pushable_def)
  have sg: "parse_pushed_signature J (pushed_signature J (ring_sig tx)) = Inr (ring_sig tx)"
    using assms(2)
    by (simp add: parse_pushed_signature_def pushed_signature_def json_object_simps [OF assms(1)] json_okD [OF assms(1)]
        json_hex_to_hex [OF assms(1)] parse_pushed_keys [OF assms(1)] pushable_def sized_signature_def sized_keys_def)
  show ?thesis
    using assms(2)
    by (simp add: parse_push_def push_document_def json_object_simps [OF assms(1)] json_okD [OF assms(1)]
        json_hex_to_hex [OF assms(1)] amount_binary [OF fee] parse_usdt_double [OF fee] outs sg checked_key_def pushable_def)
qed

lemma plain_push:
  assumes "pushable tx"
  shows "json_plain J (push_document J tx)"
proof -
  have keys: "json_plain J (js_array J (map (\<lambda>k. js_string J (to_hex k)) ks))" for ks
    by (rule plain_array) (auto intro!: plain_string ascii_hex)
  have sg: "json_plain J (pushed_signature J sg)" for sg
    unfolding pushed_signature_def by (rule plain_object) (auto intro!: plain_string ascii_hex keys)
  have out: "json_plain J (pushed_output J u)" if "out_amount u \<le> MAX_TRANSACTION_AMOUNT" for u
    unfolding pushed_output_def by (rule plain_object) (auto intro!: plain_string ascii_hex plain_amount that)
  show ?thesis
    unfolding push_document_def
    by (rule plain_object) (use assms in \<open>auto intro!: plain_string ascii_hex plain_amount plain_array out sg simp: pushable_def\<close>)
qed

text \<open>
  Pushing a transaction submits exactly it. When the endpoint is enabled, the document
  of a transaction whose amounts are within the limit of the vault is read back as that
  transaction, through floating point amounts, and the node is the one after
  \<open>submit_pre_signed_transaction\<close>; the reply has status 200 just when that returned.
\<close>

theorem push_submits_transaction:
  assumes "json_ok J" and "pushable tx" and "env_disable_push C = None"
    and "req_body req = js_dump J (push_document J tx)"
  shows "fst (handle_push L S J C now n req) = fst (submit_pre_signed_transaction L S now n tx)
    \<and> (reply_status (snd (handle_push L S J C now n req)) = 200
        \<longleftrightarrow> (\<exists>tx'. snd (submit_pre_signed_transaction L S now n tx) = Inr tx'))"
proof -
  have "ebind (parse_body J req) (parse_push J) = Inr tx"
    using json_okD(1) [OF assms(1) plain_push [OF assms(2)]] parse_push_document [OF assms(1,2)]
    by (simp add: parse_body_def assms(4))
  then show ?thesis
    by (auto simp: handle_push_def assms(3) split: prod.split sum.split)
qed

theorem push_submits_transaction_witness:
  "\<exists>n'. submit_pre_signed_transaction toy_lmdb toy_sodium 7 toy_owner toy_tx = (n', Inr toy_tx)
    \<and> fst (handle_push toy_lmdb toy_sodium toy_json_lib toy_config 7 toy_owner
         (toy_post (push_document toy_json_lib toy_tx))) = n'"
proof -
  obtain n' where "settle_transaction toy_lmdb toy_sodium 7 toy_owner toy_tx = (n', Inr toy_tx)"
    by (rule toy_settled)
  then have t: "submit_pre_signed_transaction toy_lmdb toy_sodium 7 toy_owner toy_tx = (n', Inr toy_tx)"
    by (simp add: submit_pre_signed_transaction_def toy_submitted)
  have "pushable toy_tx"
    by (simp add: pushable_def toy_tx_def transfer_timestamp_def sized_output_def sized_signature_def sized_keys_def
        MAX_TRANSACTION_AMOUNT_def)
  then show ?thesis
    using push_submits_transaction [OF toy_json_ok, of toy_tx toy_config "toy_post (push_document toy_json_lib toy_tx)"
        toy_lmdb toy_sodium 7 toy_owner] t
    by (simp add: toy_config_def toy_post_def)
qed

end
