(* ===== verification/ClientKeys.thy ===== *)
theory ClientKeys
  imports Clients
begin

text \<open>
  Key material of the clients: the states a wallet manager can reach, the file it writes
  and reads, and the functions of the browser against those of the library.
\<close>

section \<open>States of the wallet manager\<close>

text \<open>
  Without a wallet there is no name, phrase, balance or output; with one its keys are
  those of the phrase; and the address of the daemon is that of its host and port.
\<close>

definition manager_ok :: "sodium \<Rightarrow> wallet_manager \<Rightarrow> bool" where
  "manager_ok S W \<longleftrightarrow> wallet_consistent S W \<and> (wm_loaded W \<longleftrightarrow> wm_wallet W \<noteq> None)
   \<and> (\<not> wm_loaded W \<longrightarrow> wm_name W = [] \<and> wm_mnemonic W = [] \<and> wm_balance W = 0 \<and> wm_utxos W = [])"

inductive wallet_step ::
  "sodium \<Rightarrow> ('j, 't) json_lib \<Rightarrow> ('w, 't) platform \<Rightarrow> ('f, 't) file_system \<Rightarrow> wallet_manager \<Rightarrow> wallet_manager \<Rightarrow> bool"
  for S J P F where
  step_create: "length entropy = 32 \<Longrightarrow> wallet_step S J P F W (fst (create_wallet S entropy W name))"
| step_restore: "wallet_step S J P F W (fst (restore_wallet S W name mnemonic))"
| step_load: "wallet_step S J P F W (fst (load_wallet S J F f W path))"
| step_close: "wallet_step S J P F W (close_wallet W)"
| step_daemon: "wallet_step S J P F W (set_daemon W host port)"
| step_sync: "wallet_step S J P F W (fst (wallet_sync J P world W))"
| step_deposit: "wallet_step S J P F W (fst (wallet_deposit W gross))"
| step_transfer: "wallet_step S J P F W (fst (wallet_transfer J P world W recipient amt))"
| step_withdraw: "wallet_step S J P F W (fst (wallet_withdraw J P world W amt destination))"

lemma valid_phrase_keys: "validate_mnemonic S mnemonic \<longleftrightarrow> (\<exists>w. mnemonic_to_wallet S mnemonic = Inr w)"
  by (auto simp: mnemonic_to_wallet_def mnemonic_to_entropy_def Let_def)

lemma install_ok:
  assumes "manager_ok S W" and "validate_mnemonic S mnemonic"
  shows "manager_ok S (fst (install_phrase S W name mnemonic))"
proof -
  obtain w where "mnemonic_to_wallet S mnemonic = Inr w"
    using assms(2) valid_phrase_keys by blast
  with assms(1) show ?thesis
    by (simp add: install_phrase_def manager_ok_def wallet_consistent_def active_wallet_def Let_def)
qed

lemma restore_ok: "manager_ok S W \<Longrightarrow> manager_ok S (fst (restore_wallet S W name mnemonic))"
  by (simp add: restore_wallet_def install_ok)

lemma create_ok:
  assumes "manager_ok S W" and "length entropy = 32"
  shows "manager_ok S (fst (create_wallet S entropy W name))"
proof -
  have "validate_mnemonic S (generate_24_words S entropy)"
    by (rule validate_generated [OF assms(2)])
  from install_ok [OF assms(1) this, of name] show ?thesis
    by (auto simp: create_wallet_def Let_def split: prod.split sum.split)
qed

lemma load_ok: "manager_ok S W \<Longrightarrow> manager_ok S (fst (load_wallet S J F f W path))"
  by (auto simp: load_wallet_def restore_ok split: option.split sum.split)

lemma ok_balance:
  "manager_ok S W \<Longrightarrow> active_wallet W = Some w \<Longrightarrow> manager_ok S (W\<lparr>wm_balance := b, wm_utxos := us\<rparr>)"
  by (auto simp: manager_ok_def wallet_consistent_def active_wallet_def split: if_splits)

lemma sync_ok:
  assumes "manager_ok S W"
  shows "manager_ok S (fst (wallet_sync J P world W))"
  using assms ok_balance [OF assms]
  by (auto simp: wallet_sync_def apply_scan_def split: option.split prod.split sum.split)

lemma pay_ok:
  assumes "manager_ok S W"
  shows "manager_ok S (fst (pay_with J P path request result amt world W))"
  using sync_ok [OF assms, of J P world] sync_ok [of S _ J P] assms
  by (auto simp: pay_with_def split: option.split prod.split sum.split) (metis fst_conv)+

text \<open>
  The keys of a wallet manager are those of its phrase in every reachable state. From
  a new manager, whatever is created, restored, loaded, closed, synchronised or paid, and
  whatever the node and the files answer: the keys are those derived from the phrase it
  shows, and a manager without a wallet has no name, phrase, balance or output.
\<close>

theorem manager_keys_of_phrase:
  assumes "rtranclp (wallet_step S J P F) (new_wallet_manager host port) W"
  shows "manager_ok S W"
  using assms
proof (induction rule: rtranclp_induct)
  case base
  show ?case
    by (simp add: manager_ok_def wallet_consistent_def new_wallet_manager_def active_wallet_def)
next
  case (step W1 W2)
  from step(2,3) show ?case
  proof (cases rule: wallet_step.cases)
    case step_close
    then show ?thesis
      using step(3) by (simp add: manager_ok_def wallet_consistent_def close_wallet_def active_wallet_def)
  next
    case (step_daemon host port)
    then show ?thesis
      using step(3) by (simp add: manager_ok_def wallet_consistent_def set_daemon_def active_wallet_def)
  qed (use step(3) in \<open>auto simp: create_ok restore_ok load_ok sync_ok pay_ok wallet_deposit_def wallet_transfer_def wallet_withdraw_def\<close>)
qed

section \<open>The wallet file\<close>

lemma wallet_file_keys [simp]: "ascii ''name''" "ascii ''mnemonic''" "ascii ''stealth_address''" "ascii ''view_public_key''"
  by simp_all

text \<open>
  C27: a saved wallet is loaded again. When a wallet is saved without an exception, loading
  the file, into whatever manager, gives the same name, phrase and keys, with no balance
  until the next synchronization, although the file holds no private key.
\<close>

theorem wallet_file_roundtrip:
  assumes "json_ok J" and "fs_ok F" and "manager_ok S W" and "active_wallet W = Some w"
    and "ascii (wm_name W)" and "ascii (wm_mnemonic W)" and "save_wallet J F f W path = (f', Inr ())"
  shows "load_wallet S J F f' V path
    = (V\<lparr>wm_name := wm_name W, wm_mnemonic := wm_mnemonic W, wm_wallet := Some w, wm_loaded := True,
         wm_balance := 0, wm_utxos := []\<rparr>, Inr ())"
proof -
  have "json_plain J (wallet_document J W w)"
    unfolding wallet_document_def
    by (rule plain_object) (auto intro!: plain_string ascii_hex ascii_address assms(5,6))
  then have parse: "js_parse J (js_dump J (wallet_document J W w)) = Some (wallet_document J W w)"
    by (rule json_okD(1) [OF assms(1)])
  have keys: "mnemonic_to_wallet S (wm_mnemonic W) = Inr w"
    using assms(3,4) by (simp add: manager_ok_def wallet_consistent_def)
  then have valid: "validate_mnemonic S (wm_mnemonic W)"
    using valid_phrase_keys by blast
  have "fs_write F f path (js_dump J (wallet_document J W w)) = Some f'"
    using assms(4,7) by (auto simp: save_wallet_def split: option.splits)
  then have "fs_read F f' path = Some (js_dump J (wallet_document J W w))"
    using assms(2) by (simp add: fs_ok_def)
  then show ?thesis
    by (simp add: load_wallet_def parse)
       (simp add: wallet_document_def json_object_simps [OF assms(1)] json_okD [OF assms(1)] restore_wallet_def valid
          install_phrase_def keys Let_def)
qed

lemma ascii_join: "\<forall>w \<in> set ws. ascii w \<Longrightarrow> ascii (join ws)"
  by (induction ws rule: join.induct) simp_all

text \<open>The phrase of the entropy zero: the first word, and at the end the second.\<close>

definition toy_entropy :: bytes where
  "toy_entropy = replicate 32 0"

lemma toy_phrase_ascii: "ascii (generate_24_words toy_sodium toy_entropy)"
proof -
  have w: "map (word_index (toy_entropy @ [sha256 toy_sodium toy_entropy ! 0])) [0..<24] = replicate 23 0 @ [1]"
    by code_simp
  have words: "BIP39_WORDS ! 0 = ''abandon''" "BIP39_WORDS ! Suc 0 = ''ability''"
    unfolding BIP39_WORDS_def bip39_words_1_def by simp_all
  have "map (\<lambda>i. BIP39_WORDS ! unat i) (replicate 23 0 @ [1 :: 16 word]) = replicate 23 ''abandon'' @ [''ability'']"
    by (simp add: words)
  then have "phrase_words (toy_entropy @ [sha256 toy_sodium toy_entropy ! 0]) = replicate 23 ''abandon'' @ [''ability'']"
    by (simp add: phrase_words_def w [symmetric] comp_def)
  then have "\<forall>v \<in> set (phrase_words (toy_entropy @ [sha256 toy_sodium toy_entropy ! 0])). ascii v"
    by simp
  then show ?thesis
    by (simp add: generate_24_words_def phrase_words_def Let_def generate_join ascii_join)
qed

text \<open>A file system of named texts; a wallet is created, saved, and loaded by a new manager.\<close>

definition toy_files :: "((string \<times> toy_json) list, toy_json) file_system" where
  "toy_files = \<lparr>fs_write = (\<lambda>f path t. Some ((path, t) # f)), fs_read = map_of\<rparr>"

theorem manager_keys_of_phrase_witness:
  "manager_ok toy_sodium (fst (create_wallet toy_sodium (pad32 7) (new_wallet_manager ''127.0.0.1'' 8080) ''w''))"
proof -
  have "wallet_step toy_sodium toy_json_lib P toy_files (new_wallet_manager ''127.0.0.1'' 8080)
      (fst (create_wallet toy_sodium (pad32 7) (new_wallet_manager ''127.0.0.1'' 8080) ''w''))"
    for P :: "(unit, toy_json) platform"
    by (rule step_create) simp
  then show ?thesis
    using manager_keys_of_phrase by blast
qed

theorem wallet_file_roundtrip_witness:
  "\<exists>W w f'. create_wallet toy_sodium toy_entropy (new_wallet_manager ''127.0.0.1'' 8080) ''w''
      = (W, Inr (generate_24_words toy_sodium toy_entropy))
    \<and> save_wallet toy_json_lib toy_files [] W ''w.wallet'' = (f', Inr ())
    \<and> load_wallet toy_sodium toy_json_lib toy_files f' (new_wallet_manager ''h'' 1) ''w.wallet''
      = ((new_wallet_manager ''h'' 1)\<lparr>wm_name := ''w'', wm_mnemonic := generate_24_words toy_sodium toy_entropy,
           wm_wallet := Some w, wm_loaded := True\<rparr>, Inr ())"
proof -
  let ?phrase = "generate_24_words toy_sodium toy_entropy"
  have e: "length toy_entropy = 32"
    by (simp add: toy_entropy_def)
  obtain w where w: "mnemonic_to_wallet toy_sodium ?phrase = Inr w"
    using valid_phrase_keys validate_generated [OF e] by blast
  define W where "W = (new_wallet_manager ''127.0.0.1'' 8080)\<lparr>wm_name := ''w'', wm_mnemonic := ?phrase,
      wm_wallet := Some w, wm_loaded := True\<rparr>"
  have c: "create_wallet toy_sodium toy_entropy (new_wallet_manager ''127.0.0.1'' 8080) ''w'' = (W, Inr ?phrase)"
    by (simp add: create_wallet_def install_phrase_def w W_def new_wallet_manager_def Let_def)
  have "manager_ok toy_sodium (new_wallet_manager ''127.0.0.1'' 8080)"
    by (simp add: manager_ok_def wallet_consistent_def new_wallet_manager_def active_wallet_def)
  from create_ok [OF this e, of "''w''"] have m: "manager_ok toy_sodium W"
    by (simp add: c)
  have a: "active_wallet W = Some w" "ascii (wm_name W)"
    by (simp_all add: active_wallet_def W_def)
  have p: "ascii (wm_mnemonic W)"
    by (simp add: W_def toy_phrase_ascii)
  have fs: "fs_ok toy_files"
    by (simp add: fs_ok_def toy_files_def)
  obtain f' where s: "save_wallet toy_json_lib toy_files [] W ''w.wallet'' = (f', Inr ())"
    by (simp add: save_wallet_def a toy_files_def)
  from wallet_file_roundtrip [OF toy_json_ok fs m a p s, of "new_wallet_manager ''h'' 1"] c s show ?thesis
    by (auto simp: W_def new_wallet_manager_def)
qed

section \<open>The functions of the browser\<close>

lemma hex_keys: "sized_keys ks \<Longrightarrow> each (\<lambda>h. ebind (from_hex h) (checked_key e)) (map to_hex ks) = Inr ks"
  by (rule each_checked_key) (simp add: sized_keys_def list_all_iff)

lemma hex_verify_keys: "sized_keys ks \<Longrightarrow> wasm_keys (map to_hex ks) = Inr (Some ks)"
  by (rule wasm_keys_to_hex) (simp add: sized_keys_def list_all_iff)

definition hex_signature :: "ring_signature \<Rightarrow> string \<times> string \<times> string list \<times> string list" where
  "hex_signature sg =
     (to_hex (sig_key_image sg), to_hex (sig_c0 sg), map to_hex (sig_ring_pubkeys sg), map to_hex (sig_responses sg))"

text \<open>
  C28: the browser signs and verifies like the node. On hexadecimal text, for arguments of
  the right lengths, \<^verbatim>\<open>signTransaction\<close> gives the text of the signature that the library
  makes, or its exception, and \<^verbatim>\<open>verifySignature\<close> gives the verdict of the library on
  every signature with keys of 32 bytes.
\<close>

theorem browser_signs_like_library:
  assumes "length txh = 32" and "sized_keys ring" and "length x = 32"
  shows "wasm_sign_transaction S alpha response (to_hex txh) (map to_hex ring) slot (to_hex x)
      = ebind (ring_sign S txh ring slot x alpha response) (\<lambda>sg. Inr (hex_signature sg))
    \<and> (\<forall>sg. sized_signature sg \<longrightarrow>
        wasm_verify_signature S (to_hex txh) (to_hex (sig_key_image sg)) (map to_hex (sig_ring_pubkeys sg))
          (to_hex (sig_c0 sg)) (map to_hex (sig_responses sg)) = ring_verify S txh sg)"
proof (intro conjI allI impI)
  show "wasm_sign_transaction S alpha response (to_hex txh) (map to_hex ring) slot (to_hex x)
      = ebind (ring_sign S txh ring slot x alpha response) (\<lambda>sg. Inr (hex_signature sg))"
    by (simp add: wasm_sign_transaction_def hex_keys [OF assms(2)] checked_key_def assms(1,3) hex_signature_def)
next
  fix sg
  assume "sized_signature sg"
  then have k: "length (sig_key_image sg) = 32" "length (sig_c0 sg) = 32" "sized_keys (sig_ring_pubkeys sg)"
    "sized_keys (sig_responses sg)"
    by (auto simp: sized_signature_def sized_keys_def)
  show "wasm_verify_signature S (to_hex txh) (to_hex (sig_key_image sg)) (map to_hex (sig_ring_pubkeys sg))
          (to_hex (sig_c0 sg)) (map to_hex (sig_responses sg)) = ring_verify S txh sg"
    by (cases sg) (use k in \<open>simp add: wasm_verify_signature_def assms(1) hex_verify_keys\<close>)
qed

theorem browser_signs_like_library_witness:
  "\<exists>sg. wasm_sign_transaction toy_sodium (scalar 7) (\<lambda>_. scalar 4) (to_hex (pad32 9)) (map to_hex [point 5, point 3]) 1
        (to_hex (scalar 3)) = Inr (hex_signature sg)
    \<and> ring_sign toy_sodium (pad32 9) [point 5, point 3] 1 (scalar 3) (scalar 7) (\<lambda>_. scalar 4) = Inr sg"
proof -
  have r: "sized_keys [point 5, point 3]"
    by (simp add: sized_keys_def)
  have "\<not> isl (ring_sign toy_sodium (pad32 9) [point 5, point 3] 1 (scalar 3) (scalar 7) (\<lambda>_. scalar 4))"
    by code_simp
  then obtain sg where "ring_sign toy_sodium (pad32 9) [point 5, point 3] 1 (scalar 3) (scalar 7) (\<lambda>_. scalar 4) = Inr sg"
    by (metis isl_def sum.exhaust)
  with browser_signs_like_library [OF _ r, of "pad32 9" "scalar 3" toy_sodium "scalar 7" "\<lambda>_. scalar 4" 1] show ?thesis
    by simp
qed

end
