(* ===== verification/Solvency.thy ===== *)
theory Solvency
  imports Consensus Daemon
begin

text \<open>
  Solvency of the whole node: the vault in memory and the balances in the database satisfy
  the equation of the peg on numbers, and every operation of the node keeps it, whether it
  succeeds, fails half way, reorganises the chain or recovers from the database. The
  operations of the peer network and the handlers of the server inherit this.
\<close>

section \<open>Solvent databases\<close>

definition stored_solvent :: "'s lmdb \<Rightarrow> sodium \<Rightarrow> 's chain_db \<Rightarrow> bool" where
  "stored_solvent L S db \<longleftrightarrow>
     (case view_balances (chain_view_of L S db) of None \<Rightarrow> True
      | Some (c, s, f) \<Rightarrow> unat c = unat s + unat f)"

definition backed :: "'s lmdb \<Rightarrow> sodium \<Rightarrow> 's node \<Rightarrow> bool" where
  "backed L S n \<longleftrightarrow> solvent (node_vault n) \<and> stored_solvent L S (node_db n)"

lemma stored_solvent_env:
  "stored_solvent L S db \<longleftrightarrow>
     (case snapshot L db of None \<Rightarrow> True
      | Some s \<Rightarrow> (case Option.bind (mdb_get L s Metadata vault_state_key) read_balances of
          None \<Rightarrow> True | Some (c, s, f) \<Rightarrow> unat c = unat s + unat f))"
  by (auto simp: stored_solvent_def chain_view_of_def view_of_tables_def split: option.split)

lemma stored_solvent_cong: "db_env db' = db_env db \<Longrightarrow> stored_solvent L S db' = stored_solvent L S db"
  by (simp add: stored_solvent_env snapshot_def)

lemma stored_vault:
  assumes "db_env db = Some s" and "mdb_get L s Metadata vault_state_key = Some (vault_record v)" and "solvent v"
  shows "stored_solvent L S db"
  using assms by (auto simp: stored_solvent_env snapshot_def balances_def solvent_def split: option.splits)

lemma commit_block_stored:
  assumes "lmdb_ok L" and "solvent v" and "stored_solvent L S db" and "commit_block L S db b v outs kis = (db', r)"
  shows "stored_solvent L S db'"
proof (cases r)
  case (Inl e)
  with assms(3,4) show ?thesis
    by (metis commit_block_error)
next
  case (Inr x)
  obtain s t s' where w: "write_block L S s b v outs kis = Inr t" and c: "mdb_txn_commit L t = Some s'"
    and db': "db_env db' = Some s'"
    using assms(4) by (auto simp: commit_block_def Inr split: option.splits if_splits sum.splits)
  have "mdb_get L s' Metadata vault_state_key = Some (vault_record v)"
    using write_block_get [OF assms(1) w] by (auto simp: lmdb_okD(5) [OF assms(1) c])
  from stored_vault [OF db' this assms(2)] show ?thesis .
qed

lemma save_vault_state_stored:
  assumes "lmdb_ok L" and "solvent v" and "stored_solvent L S db"
  shows "stored_solvent L S (fst (save_vault_state L db v))"
proof (cases "\<exists>s t s'. snapshot L db = Some s \<and> mdb_put L s Metadata vault_state_key (vault_record v) = Some t
    \<and> mdb_txn_commit L t = Some s'")
  case True
  then obtain s t s' where st: "snapshot L db = Some s" "mdb_put L s Metadata vault_state_key (vault_record v) = Some t"
    "mdb_txn_commit L t = Some s'"
    by blast
  have "mdb_get L s' Metadata vault_state_key = Some (vault_record v)"
    by (simp add: lmdb_okD(5) [OF assms(1) st(3)] lmdb_okD(2) [OF assms(1) st(2)])
  moreover have "db_env (fst (save_vault_state L db v)) = Some s'"
    by (simp add: save_vault_state_def st)
  ultimately show ?thesis
    using assms(2) by (intro stored_vault)
next
  case False
  then have "fst (save_vault_state L db v) = db"
    by (auto simp: save_vault_state_def split: option.splits)
  with assms(3) show ?thesis
    by simp
qed

section \<open>Replays\<close>

lemma replay_deposits_solvent: "solvent v \<Longrightarrow> replay_deposits v ds = Inr v' \<Longrightarrow> solvent v'"
proof (induction ds arbitrary: v)
  case (Cons dep ds)
  then show ?case
    using deposit_solvent [OF Cons.prems(1), of "dep_gross_usdt_deposited dep" "dep_tx_hash dep" "[]"]
    by (auto split: prod.splits sum.splits)
qed simp

lemma replay_withdrawals_solvent: "solvent v \<Longrightarrow> replay_withdrawals v ws = Inr v' \<Longrightarrow> solvent v'"
  using replay_withdrawals_circulating by blast

lemma replay_block_solvent: "solvent v \<Longrightarrow> replay_block v b = Inr v' \<Longrightarrow> solvent v'"
  by (auto simp: replay_block_def ebind_eq_Inr intro: replay_deposits_solvent replay_withdrawals_solvent)

lemma replay_heights_solvent: "solvent v \<Longrightarrow> replay_heights L S t v hs = Inr v' \<Longrightarrow> solvent v'"
proof (induction hs arbitrary: v)
  case (Cons h hs)
  then show ?case
    by (auto simp: ebind_eq_Inr split: option.splits intro: replay_block_solvent)
qed simp

text \<open>A rollback that stops half way changes nothing on disk, a complete one stores a replayed vault or the old one.\<close>

lemma put_ignored_balances:
  assumes "lmdb_ok L"
  shows "mdb_get L (put_ignored L Metadata t top_height_key v) Metadata vault_state_key = mdb_get L t Metadata vault_state_key"
  by (auto simp: put_ignored_def lmdb_okD(2) [OF assms] split: option.split)

lemma rolled_back_stored:
  assumes "lmdb_ok L" and "stored_solvent L S db" and "db_env db = Some s"
    and "mdb_del L s Blocks k = Some t"
    and "replay_heights L S (put_ignored L Metadata (erase_block L S b t) top_height_key h) (new_vault 50 50) hs = Inr w"
    and "mdb_txn_commit L (put_ignored L Metadata (put_ignored L Metadata (erase_block L S b t) top_height_key h)
      vault_state_key (vault_record w)) = Some s'"
    and "db_env db' = Some s'"
  shows "stored_solvent L S db'"
proof -
  define t0 where "t0 = put_ignored L Metadata (erase_block L S b t) top_height_key h"
  note commit = assms(6) [folded t0_def]
  have solvent: "solvent w"
    by (rule replay_heights_solvent [OF _ assms(5)]) simp
  have same: "mdb_get L t0 Metadata vault_state_key = mdb_get L s Metadata vault_state_key"
    unfolding t0_def put_ignored_balances [OF assms(1)] erase_block_get [OF assms(1)] lmdb_okD(3) [OF assms(1,4)] by simp
  show ?thesis
  proof (cases "mdb_put L t0 Metadata vault_state_key (vault_record w)")
    case None
    then have "mdb_get L s' Metadata vault_state_key = mdb_get L s Metadata vault_state_key"
      using lmdb_okD(5) [OF assms(1) commit] same by (simp add: put_ignored_def)
    with assms(2) show ?thesis
      by (simp add: stored_solvent_env snapshot_open [OF assms(1,3)] snapshot_open [OF assms(1,7)])
  next
    case (Some t1)
    have "mdb_get L s' Metadata vault_state_key = Some (vault_record w)"
      using lmdb_okD(5) [OF assms(1) commit] lmdb_okD(2) [OF assms(1) Some] by (simp add: put_ignored_def Some)
    from stored_vault [OF assms(7) this solvent] show ?thesis .
  qed
qed

lemma stored_cases:
  "\<And>m. (m = None \<Longrightarrow> stored_solvent L S (fst f)) \<Longrightarrow> (\<And>x. m = Some x \<Longrightarrow> stored_solvent L S (fst (g x)))
    \<Longrightarrow> stored_solvent L S (fst (case m of None \<Rightarrow> f | Some x \<Rightarrow> g x))"
  "\<And>m. (\<And>e. m = Inl e \<Longrightarrow> stored_solvent L S (fst (f' e))) \<Longrightarrow> (\<And>x. m = Inr x \<Longrightarrow> stored_solvent L S (fst (g x)))
    \<Longrightarrow> stored_solvent L S (fst (case m of Inl e \<Rightarrow> f' e | Inr x \<Rightarrow> g x))"
  "(c \<Longrightarrow> stored_solvent L S (fst p)) \<Longrightarrow> (\<not> c \<Longrightarrow> stored_solvent L S (fst q))
    \<Longrightarrow> stored_solvent L S (fst (if c then p else q))"
  by (simp_all split: option.split sum.split)

lemma rollback_stored:
  assumes "lmdb_ok L" and "stored_solvent L S db"
  shows "stored_solvent L S (fst (rollback_top_block L S db))"
proof -
  have same: "stored_solvent L S (db\<lparr>db_top_hash := x, db_top_height := y\<rparr>)" for x y
    using assms(2) by (simp add: stored_solvent_env snapshot_def)
  show ?thesis
    unfolding rollback_top_block_def Let_def
    by (intro stored_cases) (simp_all add: assms(2) same rolled_back_stored [OF assms])
qed

section \<open>Operations of the node\<close>

lemma backed_db: "solvent (node_vault n) \<Longrightarrow> stored_solvent L S (node_db n) \<Longrightarrow> backed L S n"
  by (simp add: backed_def)

lemma restored_solvent: "solvent (fst (restore_state v c s f)) \<longleftrightarrow> unat c = unat s + unat f"
  by (simp add: fst_restore_state solvent_def)

lemma recover_backed:
  assumes "solvent (node_vault n)" and "stored_solvent L S (node_db n)"
  shows "backed L S (recover_state_from_db L S n)"
  using assms
  by (auto simp: backed_def recover_state_from_db_def Let_def load_vault_state_view [where S = S]
      stored_solvent_def restored_solvent split: option.splits)

lemma commit_or_recover_backed:
  assumes "lmdb_ok L" and "backed L S n"
  shows "backed L S (fst (commit_or_recover L S n b outs kis))"
proof -
  obtain db' r' where c: "commit_block L S (node_db n) b (node_vault n) outs kis = (db', r')"
    by fastforce
  have "stored_solvent L S db'"
    using assms(2) by (intro commit_block_stored [OF assms(1) _ _ c]) (simp_all add: backed_def)
  with assms(2) show ?thesis
    by (cases r') (simp_all add: commit_or_recover_def c backed_def recover_backed [unfolded backed_def])
qed

text \<open>How the property passes through the branches of an operation.\<close>

lemma backed_cases:
  "(\<And>a b. p = (a, b) \<Longrightarrow> backed L S (fst (h a b))) \<Longrightarrow> backed L S (fst (case p of (a, b) \<Rightarrow> h a b))"
  "(m = None \<Longrightarrow> backed L S (fst f)) \<Longrightarrow> (\<And>x. m = Some x \<Longrightarrow> backed L S (fst (g x)))
    \<Longrightarrow> backed L S (fst (case m of None \<Rightarrow> f | Some x \<Rightarrow> g x))"
  "(\<And>e. r = Inl e \<Longrightarrow> backed L S (fst (f' e))) \<Longrightarrow> (\<And>x. r = Inr x \<Longrightarrow> backed L S (fst (g' x)))
    \<Longrightarrow> backed L S (fst (case r of Inl e \<Rightarrow> f' e | Inr x \<Rightarrow> g' x))"
  "(c \<Longrightarrow> backed L S (fst u)) \<Longrightarrow> (\<not> c \<Longrightarrow> backed L S (fst v)) \<Longrightarrow> backed L S (fst (if c then u else v))"
  "(ok \<Longrightarrow> backed L S (fst u)) \<Longrightarrow> (\<not> ok \<Longrightarrow> backed L S (fst v))
    \<Longrightarrow> backed L S (fst (case ok of True \<Rightarrow> u | False \<Rightarrow> v))"
  by (simp_all split: prod.split option.split sum.split bool.split)

lemma backed_result: "backed L S (fst p) \<Longrightarrow> p = (n', r) \<Longrightarrow> backed L S n'"
  by simp

text \<open>Fields that solvency does not depend on.\<close>

lemma backed_update [simp]:
  "backed L S (n\<lparr>node_pool := p\<rparr>) = backed L S n"
  "backed L S (n\<lparr>node_ledger := l\<rparr>) = backed L S n"
  "backed L S (n\<lparr>node_history := h\<rparr>) = backed L S n"
  by (simp_all add: backed_def)

lemma backed_vault: "backed L S n \<Longrightarrow> solvent v \<Longrightarrow> backed L S (n\<lparr>node_vault := v\<rparr>)"
  by (simp add: backed_def)

lemma committed_backed:
  "lmdb_ok L \<Longrightarrow> commit_or_recover L S n b outs kis = (n', r) \<Longrightarrow> backed L S n \<Longrightarrow> backed L S n'"
  using commit_or_recover_backed [of L S n b outs kis] by simp

lemma buy_backed:
  assumes "lmdb_ok L" and "backed L S n"
  shows "backed L S (fst (buy_shielded L S rnd now n g a tx ts keys))"
proof -
  have v: "solvent (node_vault n)"
    using assms(2) by (simp add: backed_def)
  have d: "backed L S (n\<lparr>node_vault := v'\<rparr>)" if "deposit (node_vault n) g tx rnd = (v', x)" for v' x
    using deposit_solvent [OF v, of g tx rnd] that assms(2) by (simp add: backed_def)
  have u: "backed L S (m\<lparr>node_vault := v''\<rparr>)" if "restore_state v' (total_collateral (node_vault n)) (circulating_supply (node_vault n))
      (fee_pool_reserve (node_vault n)) = (v'', x)" and "backed L S m" for v' v'' x m
    using restore_solvent [OF v, of v'] that by (simp add: backed_def)
  show ?thesis
    unfolding buy_shielded_def Let_def
    by (intro backed_cases) (auto dest!: committed_backed [OF assms(1)] d u)
qed

lemma settle_backed:
  assumes "lmdb_ok L" and "backed L S n"
  shows "backed L S (fst (settle_transaction L S now n tx))"
  unfolding settle_transaction_def Let_def
  by (intro backed_cases) (auto simp: assms(2) dest!: committed_backed [OF assms(1)])

lemma transfer_backed:
  assumes "lmdb_ok L" and "backed L S n"
  shows "backed L S (fst (transfer_shielded L S D now n w u a amt fee))"
  unfolding transfer_shielded_def by (intro backed_cases) (simp_all add: assms settle_backed)

lemma submit_backed:
  assumes "lmdb_ok L" and "backed L S n"
  shows "backed L S (fst (submit_pre_signed_transaction L S now n tx))"
  unfolding submit_pre_signed_transaction_def by (intro backed_cases) (simp_all add: assms settle_backed)

lemma withdraw_backed:
  assumes "lmdb_ok L" and "backed L S n"
  shows "backed L S (fst (withdraw_shielded L S D T now n w u tokens dest))"
proof -
  have v: "backed L S (n\<lparr>node_vault := v'\<rparr>)" if "request_withdrawal (node_vault n) tokens (draw_order D) = (v', x)" for v' x
    using withdrawal_solvent [of "node_vault n" tokens "draw_order D"] assms(2) that by (simp add: backed_def)
  show ?thesis
    unfolding withdraw_shielded_def Let_def
    by (intro backed_cases) (auto simp: assms(2) dest!: v committed_backed [OF assms(1)])
qed

lemma claim_backed:
  assumes "lmdb_ok L" and "backed L S n"
  shows "backed L S (fst (claim_treasury_fees L rnd n amt dest))"
proof -
  have v: "solvent v'" if "claim_fees (node_vault n) amt dest rnd = (v', x)" for v' x
    using claim_solvent [of "node_vault n" amt dest rnd] assms(2) that by (simp add: backed_def)
  have "stored_solvent L S (node_db n)"
    using assms(2) by (simp add: backed_def)
  then show ?thesis
    unfolding claim_treasury_fees_def
    by (intro backed_cases) (auto simp: backed_def dest!: v intro: save_vault_state_stored [OF assms(1)])
qed

section \<open>Blocks from the network\<close>

lemma reorg_guard_backed:
  assumes "lmdb_ok L" and "backed L S n" and "solvent saved"
  shows "backed L S (fst (reorg_guard L S reorged saved n why))"
proof -
  have c: "stored_solvent L S db'"
    if "commit_block L S (node_db n) b saved outs kis = (db', x)" for b outs kis db' x
    using assms(2) by (intro commit_block_stored [OF assms(1,3) _ that]) (simp add: backed_def)
  have v: "solvent (node_vault n)" "stored_solvent L S (node_db n)"
    using assms(2) by (simp_all add: backed_def)
  show ?thesis
    unfolding reorg_guard_def
    by (intro backed_cases) (auto simp: v recover_backed dest!: c intro: backed_db)
qed

lemma apply_on_top_backed:
  assumes "lmdb_ok L" and "backed L S n" and "solvent saved"
  shows "backed L S (fst (apply_on_top L S reorged saved n b))"
proof (cases "validate_block L S n (db_top_height (node_db n)) b")
  case (Inl why)
  then show ?thesis
    by (simp add: apply_on_top_def reorg_guard_backed [OF assms])
next
  case (Inr res)
  obtain tv imgs outs where res: "res = (tv, imgs, outs)"
    by (metis prod_cases3)
  have "solvent tv"
    using validate_block_sound [OF Inr [unfolded res]] assms(2) replay_block_solvent by (auto simp: backed_def)
  then have v: "solvent v'" if "restore_state (node_vault n) (total_collateral tv) (circulating_supply tv)
      (fee_pool_reserve tv) = (v', x)" for v' x
    using restore_solvent [of tv "node_vault n"] that by simp
  have n1: "backed L S (n\<lparr>node_vault := v', node_ledger := led, node_pool := p, node_history := h, node_db := db'\<rparr>)"
    if "solvent v'" and "commit_block L S (node_db n) b v' outs imgs = (db', x)" for v' db' x led p h
    using that(1) commit_block_stored [OF assms(1) that(1) _ that(2)] assms(2) by (simp add: backed_def)
  note guard = reorg_guard_backed [OF assms(1) _ assms(3)]
  show ?thesis
    unfolding apply_on_top_def Inr res sum.case prod.case Let_def
    by (intro backed_cases) (auto intro!: guard backed_vault [OF assms(2)] dest!: v intro: n1)
qed

lemma apply_remote_block_backed:
  assumes "lmdb_ok L" and "backed L S n"
  shows "backed L S (fst (apply_remote_block L S n b))"
proof -
  have v: "solvent (node_vault n)"
    using assms(2) by (simp add: backed_def)
  have rolled: "stored_solvent L S db'" if "rollback_top_block L S (node_db n) = (db', ok)" for db' ok
    using rollback_stored [OF assms(1), of S "node_db n"] assms(2) that by (simp add: backed_def)
  have rolled_node: "backed L S (n\<lparr>node_db := db'\<rparr>)" if "rollback_top_block L S (node_db n) = (db', ok)" for db' ok
    using rolled [OF that] v by (simp add: backed_def)
  have recovered: "backed L S (recover_state_from_db L S (n\<lparr>node_db := db'\<rparr>))"
    if "rollback_top_block L S (node_db n) = (db', ok)" for db' ok
    using rolled [OF that] v by (intro recover_backed) auto
  show ?thesis
    unfolding apply_remote_block_def Let_def
    by (intro backed_cases) (auto simp: assms(2) v intro!: apply_on_top_backed [OF assms(1) _ v] intro: recovered rolled_node)
qed

section \<open>The peer network\<close>

lemma apply_items_backed:
  assumes "lmdb_ok L"
  shows "backed L S n \<Longrightarrow> backed L S (fst (apply_items L S J n items))"
proof (induction items arbitrary: n)
  case (Cons item items)
  show ?case
    using apply_remote_block_backed [OF assms Cons.prems] Cons
    by (auto split: sum.split prod.split remote_result.split) (metis fst_conv)+
qed simp

lemma sync_loop_backed:
  assumes "lmdb_ok L"
  shows "sync_loop fuel L S J P c n w = Some (n', w', v) \<Longrightarrow> backed L S n \<Longrightarrow> backed L S n'"
proof (induction fuel arbitrary: n w)
  case (Suc fuel)
  have items: "backed L S n1" if "apply_items L S J n items = (n1, x)" for items n1 x
    using apply_items_backed [OF assms Suc.prems(2), of J items] that by simp
  from Suc.prems show ?case
    by (auto split: prod.splits option.splits if_splits verdict.splits bool.splits dest: items Suc.IH)
qed simp

definition keeps_backing :: "'s lmdb \<Rightarrow> sodium \<Rightarrow> ('s, 'w) system \<Rightarrow> ('s, 'w) system \<Rightarrow> bool" where
  "keeps_backing L S s s' \<longleftrightarrow> (backed L S (sys_node s) \<longrightarrow> backed L S (sys_node s'))"

lemma keeps_backing_trans: "keeps_backing L S s1 s2 \<Longrightarrow> keeps_backing L S s2 s3 \<Longrightarrow> keeps_backing L S s1 s3"
  by (simp add: keeps_backing_def)

lemma keeps_same_node: "sys_node s' = sys_node s \<Longrightarrow> keeps_backing L S s s'"
  by (simp add: keeps_backing_def)

lemma sync_from_peer_backed:
  assumes "lmdb_ok L"
  shows "sync_from_peer fuel L S J P s u = Some (s', v) \<Longrightarrow> keeps_backing L S s s'"
  by (auto simp: sync_from_peer_def Let_def keeps_backing_def split: if_splits option.splits
      dest: sync_loop_backed [OF assms])

lemma push_node: "sys_node (fst (push_blocks_to_peer L S J P s u h)) = sys_node s"
  by (simp add: push_blocks_to_peer_def Let_def split: prod.split)

lemma catch_up_backed:
  assumes "lmdb_ok L"
  shows "catch_up fuel L S J P s c h = Some (s', v) \<Longrightarrow> keeps_backing L S s s'"
  using push_node [of L S J P s c "h + 1"]
  by (auto simp: catch_up_def keeps_same_node split: if_splits option.splits prod.splits verdict.splits
      dest: sync_from_peer_backed [OF assms])

lemma record_peer_node: "record_peer J P before s c data = (s', r) \<Longrightarrow> sys_node s' = sys_node s"
  by (auto simp: record_peer_def Let_def split: sum.splits prod.splits if_splits)

lemma handshake_step_backed:
  assumes "lmdb_ok L" and "peer_contact handshake (keeps_backing L S)"
    and "handshake_step handshake fuel L S J P s u = Some (s', v)"
  shows "keeps_backing L S s s'"
proof -
  note keeps = keeps_backing_def mark_disconnected_def
  have recorded: "sys_node s2 = sys_node s1" if "record_peer J P before s1 c data = (s2, r)" for before s1 c data s2 r
    using that by (rule record_peer_node)
  have exchange: "keeps_backing L S s1 s2" if "exchange_peers handshake J c s1 items = Some (s2, r)" for c s1 items s2 r
    using peer_contact.exchange_rel [OF assms(2) that] .
  from assms(3) show ?thesis
    unfolding handshake_step_def Let_def
    by (auto simp: keeps split: if_splits prod.splits option.splits sum.splits verdict.splits bool.splits
        dest!: recorded exchange [unfolded keeps] catch_up_backed [OF assms(1), unfolded keeps])
qed

lemma handshake_backed:
  assumes "lmdb_ok L"
  shows "handshake_with_peer fuel L S J P s u = Some (s', v) \<Longrightarrow> keeps_backing L S s s'"
proof (induction fuel arbitrary: s u s' v)
  case (Suc fuel)
  have "peer_contact (handshake_with_peer fuel L S J P) (keeps_backing L S)"
    by unfold_locales (auto intro: keeps_backing_trans keeps_same_node Suc.IH)
  from handshake_step_backed [OF assms this] Suc.prems show ?case
    by simp
qed simp

lemma backing_contact: "lmdb_ok L \<Longrightarrow> peer_contact (handshake_with_peer fuel L S J P) (keeps_backing L S)"
  by unfold_locales (auto intro: keeps_backing_trans keeps_same_node handshake_backed)

lemma add_peer_backed: "lmdb_ok L \<Longrightarrow> add_peer fuel L S J P s u = Some (s', v) \<Longrightarrow> keeps_backing L S s s'"
  unfolding add_peer_def by (rule peer_contact.add_peer_rel [OF backing_contact])

lemma background_round_backed:
  "lmdb_ok L \<Longrightarrow> background_round fuel L S J P s = Some (s', v) \<Longrightarrow> keeps_backing L S s s'"
  unfolding background_round_def by (rule peer_contact.heartbeat_rel [OF backing_contact])

lemma connect_seeds_backed:
  assumes "lmdb_ok L"
  shows "connect_seeds (add_peer fuel L S J P) s seeds = Some (s', v) \<Longrightarrow> keeps_backing L S s s'"
proof (induction seeds arbitrary: s)
  case (Cons peer seeds)
  then show ?case
    by (auto split: option.splits prod.splits verdict.splits dest!: add_peer_backed [OF assms] intro: keeps_backing_trans)
qed (simp add: keeps_same_node)

lemma mining_backed:
  assumes "\<And>n. backed L S n \<Longrightarrow> backed L S (fst (operation n))"
  shows "keeps_backing L S s (fst (mining J S P operation s))"
  using assms [of "sys_node s"] by (auto simp: mining_def keeps_backing_def split: prod.split)

section \<open>Handlers\<close>

lemma handlers_backed:
  assumes "lmdb_ok L" and "backed L S n"
  shows "backed L S (fst (handle_deposit L S J C rnd now n req))"
    and "backed L S (fst (handle_transfer L S J C D now n req))"
    and "backed L S (fst (handle_withdraw L S J C D T now n req))"
    and "backed L S (fst (handle_push L S J C now n req))"
    and "backed L S (fst (handle_claim_fees L J C tx n req))"
proof -
  show "backed L S (fst (handle_deposit L S J C rnd now n req))"
    unfolding handle_deposit_def
    by (intro backed_cases) (auto simp: assms(2) dest!: backed_result [OF buy_backed [OF assms]])
  show "backed L S (fst (handle_transfer L S J C D now n req))"
    unfolding handle_transfer_def
    by (intro backed_cases) (auto simp: assms(2) dest!: backed_result [OF transfer_backed [OF assms]])
  show "backed L S (fst (handle_withdraw L S J C D T now n req))"
    unfolding handle_withdraw_def
    by (intro backed_cases) (auto simp: assms(2) dest!: backed_result [OF withdraw_backed [OF assms]])
  show "backed L S (fst (handle_push L S J C now n req))"
    unfolding handle_push_def
    by (intro backed_cases) (auto simp: assms(2) dest!: backed_result [OF submit_backed [OF assms]])
  show "backed L S (fst (handle_claim_fees L J C tx n req))"
    unfolding handle_claim_fees_def
    by (intro backed_cases) (auto simp: assms(2) dest!: backed_result [OF claim_backed [OF assms]])
qed

lemma handle_add_peer_backed:
  "lmdb_ok L \<Longrightarrow> handle_add_peer fuel L S J C P s req = Some (s', r) \<Longrightarrow> keeps_backing L S s s'"
  by (auto simp: handle_add_peer_def keeps_same_node split: sum.splits if_splits option.splits prod.splits verdict.splits
      dest: add_peer_backed)

lemma handle_handshake_node: "sys_node (fst (handle_handshake J C P s req)) = sys_node s"
  by (auto simp: handle_handshake_def Let_def split: sum.split prod.split)

lemma accepted_gossip_node: "accepted_gossip S J C P s b u = (s', r) \<Longrightarrow> sys_node s' = sys_node s"
  by (auto simp: accepted_gossip_def split: prod.splits sum.splits)

lemma refused_gossip_backed:
  "lmdb_ok L \<Longrightarrow> refused_gossip fuel L S J C txt P s b u why = Some (s', r) \<Longrightarrow> keeps_backing L S s s'"
  by (auto simp: refused_gossip_def keeps_same_node split: if_splits option.splits prod.splits verdict.splits
      dest: sync_from_peer_backed)

lemma handle_block_backed:
  assumes "lmdb_ok L" and "handle_block fuel L S J C txt P s req = Some (s', r)"
  shows "keeps_backing L S s s'"
proof (cases "backed L S (sys_node s)")
  case True
  have n: "backed L S n" if "apply_remote_block L S (sys_node s) b = (n, x)" for b n x
    using apply_remote_block_backed [OF assms(1) True, of b] that by simp
  show ?thesis
    using assms(2)
    by (auto simp: handle_block_def keeps_backing_def split: sum.splits if_splits prod.splits remote_result.splits stop.splits
        dest!: n accepted_gossip_node refused_gossip_backed [OF assms(1), unfolded keeps_backing_def])
qed (simp add: keeps_backing_def)

end
