(* ===== verification/Server.thy ===== *)
theory Server
  imports Http Daemon
begin

text \<open>
  Model of the server as a whole: the routes that \<^verbatim>\<open>RpcServer::setup_routes\<close> in
  \<^verbatim>\<open>src/rpc_server.cpp\<close> registers, the limit of its constructor on the size of a request,
  the mounted web page, and the dispatch of a request to the handlers of \<open>Rpc\<close>. A handler
  that mines a block gossips it before it replies, by the callback of \<^verbatim>\<open>main.cpp\<close>.
\<close>

section \<open>Routes\<close>

datatype endpoint =
    Index_page | Node_health | Node_status | Chain_blocks | Chain_block string | Chain_decoys
  | P2p_status | P2p_peers | P2p_sync | Preflight
  | Wallet_generate | Wallet_scan | Vault_deposit | Tx_transfer | Tx_push | Vault_withdraw | Vault_claim_fees
  | Peer_add | Peer_handshake | Peer_block

text \<open>The pattern \<^verbatim>\<open>/api/v1/chain/block/(\d+)\<close>.\<close>

definition block_route :: "string \<Rightarrow> endpoint option" where
  "block_route path =
     (let prefix = ''/api/v1/chain/block/''; digits = drop (length prefix) path in
      if starts_with prefix path \<and> digits \<noteq> [] \<and> list_all is_digit digits then Some (Chain_block digits) else None)"

definition get_route :: "string \<Rightarrow> endpoint option" where
  "get_route path =
     (if path = ''/'' then Some Index_page
      else if path = ''/api/v1/node/health'' then Some Node_health
      else if path = ''/api/v1/node/status'' then Some Node_status
      else if path = ''/api/v1/chain/blocks'' then Some Chain_blocks
      else case block_route path of Some e \<Rightarrow> Some e
      | None \<Rightarrow>
      if path = ''/api/v1/chain/decoys'' then Some Chain_decoys
      else if path = ''/api/v1/p2p/status'' then Some P2p_status
      else if path = ''/api/v1/p2p/peers'' then Some P2p_peers
      else if path = ''/api/v1/p2p/sync'' then Some P2p_sync
      else None)"

definition post_route :: "string \<Rightarrow> endpoint option" where
  "post_route path =
     (if path = ''/api/v1/wallet/generate'' then Some Wallet_generate
      else if path = ''/api/v1/wallet/scan'' then Some Wallet_scan
      else if path = ''/api/v1/vault/deposit'' then Some Vault_deposit
      else if path = ''/api/v1/tx/transfer'' then Some Tx_transfer
      else if path = ''/api/v1/tx/push'' then Some Tx_push
      else if path = ''/api/v1/vault/withdraw'' then Some Vault_withdraw
      else if path = ''/api/v1/vault/claim-fees'' then Some Vault_claim_fees
      else if path = ''/api/v1/p2p/peers'' then Some Peer_add
      else if path = ''/api/v1/p2p/handshake'' then Some Peer_handshake
      else if path = ''/api/v1/p2p/block'' then Some Peer_block
      else None)"

text \<open>The pattern \<^verbatim>\<open>.*\<close> of the preflight requests does not match a line end.\<close>

definition route :: "string \<Rightarrow> string \<Rightarrow> endpoint option" where
  "route method path =
     (if method = ''GET'' \<or> method = ''HEAD'' then get_route path
      else if method = ''POST'' then post_route path
      else if method = ''OPTIONS'' \<and> \<not> list_ex (\<lambda>c. c = CHR 0x0A \<or> c = CHR 0x0D) path then Some Preflight
      else None)"

section \<open>Requests\<close>

text \<open>
  What arrives: the request line, the body with its declared length (\<open>None\<close> for a body that
  comes in chunks and for none), and the headers.
\<close>

record 't http_request =
  http_line :: string
  http_length :: "nat option"
  http_body :: 't
  http_header :: "string \<Rightarrow> string"

text \<open>The files beside the program: the mounted directory, the page, and plain text as content.\<close>

record 't site =
  site_stat :: "string \<Rightarrow> 't path_stat"
  site_mount :: "string option"
  site_page :: "'t option"
  site_text :: "string \<Rightarrow> 't"

definition mounted_directory :: "(string \<Rightarrow> bool) \<Rightarrow> string option" where
  "mounted_directory exists =
     (if exists ''./public'' then Some ''./public''
      else if exists ''/app/public'' then Some ''/app/public'' else None)"

definition index_content :: "(string \<Rightarrow> bool) \<Rightarrow> (string \<Rightarrow> 't option) \<Rightarrow> 't option" where
  "index_content exists read =
     (if exists ''./public/index.html'' then read ''./public/index.html''
      else if exists ''/app/public/index.html'' then read ''/app/public/index.html'' else None)"

definition payload_max_length :: nat where
  "payload_max_length = 5 * 1024 * 1024"

text \<open>What the handlers draw at random and read from the environment.\<close>

record server_draws =
  sd_hash :: bytes
  sd_spend :: spend_draws
  sd_plan :: draws
  sd_pick :: "nat \<Rightarrow> nat"
  sd_spend_scalar :: bytes
  sd_view_scalar :: bytes
  sd_tx :: bytes

record 't server_config =
  srv_rpc :: rpc_config
  srv_db_path :: string
  srv_rejection_text :: "rejection \<Rightarrow> string"
  srv_site :: "'t site"

text \<open>The headers of every reply, from the environment.\<close>

definition default_headers :: "(string \<Rightarrow> string option) \<Rightarrow> (string \<times> string) list" where
  "default_headers getenv =
     [(''Access-Control-Allow-Origin'', case getenv ''CORS_ALLOWED_ORIGIN'' of None \<Rightarrow> ''http://localhost:8080'' | Some o' \<Rightarrow> o'),
      (''Access-Control-Allow-Methods'', ''GET, POST, OPTIONS''),
      (''Access-Control-Allow-Headers'', ''Content-Type, Authorization, X-Admin-Token'')]"

definition empty_reply :: "'t server_config \<Rightarrow> nat \<Rightarrow> 't reply" where
  "empty_reply R status = \<lparr>reply_status = status, reply_content = site_text (srv_site R) []\<rparr>"

definition index_fallback :: string where
  "index_fallback = ''<html><body><h1>CryptoPegUSDT Node Daemon</h1><p>API activa en /api/v1/node/status</p></body></html>''"

definition handle_index :: "'t site \<Rightarrow> 't reply" where
  "handle_index site = \<lparr>reply_status = 200,
     reply_content = (case site_page site of Some page \<Rightarrow> page | None \<Rightarrow> site_text site index_fallback)\<rparr>"

section \<open>Dispatch\<close>

text \<open>Requests that read.\<close>

definition serve_get ::
  "'s lmdb \<Rightarrow> sodium \<Rightarrow> ('j, 't) json_lib \<Rightarrow> 't server_config \<Rightarrow> ('w, 't) platform \<Rightarrow> server_draws
     \<Rightarrow> ('s, 'w) system \<Rightarrow> 't request \<Rightarrow> endpoint \<Rightarrow> 't reply" where
  "serve_get L S J R P D s req e =
     (let n = sys_node s; C = srv_rpc R in case e of
        Index_page \<Rightarrow> handle_index (srv_site R)
      | Node_health \<Rightarrow> handle_health J
      | Node_status \<Rightarrow> handle_status J (srv_db_path R) n
      | Chain_blocks \<Rightarrow> handle_blocks L S J n req
      | Chain_block digits \<Rightarrow> handle_block_detail L S J n (req\<lparr>req_match := digits\<rparr>)
      | Chain_decoys \<Rightarrow> handle_decoys J C (sd_pick D) n req
      | P2p_status \<Rightarrow> handle_p2p_status J C P s
      | P2p_peers \<Rightarrow> handle_p2p_peers J C P s
      | P2p_sync \<Rightarrow> handle_sync L S J C n req
      | Wallet_generate \<Rightarrow> handle_generate S J (sd_spend_scalar D) (sd_view_scalar D)
      | Wallet_scan \<Rightarrow> handle_scan L S J C n req
      | _ \<Rightarrow> empty_reply R 200)"

text \<open>Requests of clients that may mine a block.\<close>

definition client_operation ::
  "'s lmdb \<Rightarrow> sodium \<Rightarrow> ('j, 't) json_lib \<Rightarrow> rpc_config \<Rightarrow> server_draws \<Rightarrow> u64 \<Rightarrow> 't request \<Rightarrow> endpoint
     \<Rightarrow> ('s node \<Rightarrow> 's node \<times> 't reply) option" where
  "client_operation L S J C D now req e =
     (case e of
        Vault_deposit \<Rightarrow> Some (\<lambda>n. handle_deposit L S J C (sd_hash D) now n req)
      | Tx_transfer \<Rightarrow> Some (\<lambda>n. handle_transfer L S J C (sd_spend D) now n req)
      | Tx_push \<Rightarrow> Some (\<lambda>n. handle_push L S J C now n req)
      | Vault_withdraw \<Rightarrow> Some (\<lambda>n. handle_withdraw L S J C (sd_spend D) (sd_plan D) now n req)
      | Vault_claim_fees \<Rightarrow> Some (\<lambda>n. handle_claim_fees L J C (sd_tx D) n req)
      | _ \<Rightarrow> None)"

definition serve_endpoint ::
  "nat \<Rightarrow> 's lmdb \<Rightarrow> sodium \<Rightarrow> ('j, 't) json_lib \<Rightarrow> 't server_config \<Rightarrow> ('w, 't) platform \<Rightarrow> server_draws
     \<Rightarrow> ('s, 'w) system \<Rightarrow> 't request \<Rightarrow> endpoint \<Rightarrow> (('s, 'w) system \<times> 't reply option) option" where
  "serve_endpoint fuel L S J R P D s req e =
     (case client_operation L S J (srv_rpc R) D (pf_now P (sys_world s)) req e of
        Some operation \<Rightarrow> (case mining J S P operation s of (s, r) \<Rightarrow> Some (s, Some r))
      | None \<Rightarrow>
     (case e of
        Peer_add \<Rightarrow> handle_add_peer fuel L S J (srv_rpc R) P s req
      | Peer_handshake \<Rightarrow> (case handle_handshake J (srv_rpc R) P s req of (s, r) \<Rightarrow> Some (s, Some r))
      | Peer_block \<Rightarrow> handle_block fuel L S J (srv_rpc R) (srv_rejection_text R) P s req
      | _ \<Rightarrow> Some (s, Some (serve_get L S J R P D s req e))))"

text \<open>
  A request from its first line to the reply: a malformed line is refused, files of the
  mounted directory go before the handlers, a body declared too long is not read, and a
  path without a route is not found.
\<close>

definition serve ::
  "nat \<Rightarrow> 's lmdb \<Rightarrow> sodium \<Rightarrow> ('j, 't) json_lib \<Rightarrow> 't server_config \<Rightarrow> ('w, 't) platform \<Rightarrow> server_draws
     \<Rightarrow> ('s, 'w) system \<Rightarrow> 't http_request \<Rightarrow> (('s, 'w) system \<times> 't reply option) option" where
  "serve fuel L S J R P D s hr =
     (let site = srv_site R; answer_now = (\<lambda>r. Some (s, Some r)) in
      if length (http_line hr) > 8192 then answer_now (empty_reply R 414)
      else case parse_request_line (http_line hr) of
        None \<Rightarrow> answer_now (empty_reply R 400)
      | Some (method, path, params) \<Rightarrow>
     (case (if method = ''GET'' \<or> method = ''HEAD''
            then handle_file_request (site_stat site) (site_text site []) (site_mount site) path else None) of
        Some r \<Rightarrow> answer_now r
      | None \<Rightarrow>
      if (case http_length hr of None \<Rightarrow> False | Some len \<Rightarrow> len > payload_max_length)
      then answer_now (empty_reply R 413)
      else case route method path of
        None \<Rightarrow> answer_now (empty_reply R (if list_ex (\<lambda>m. m = method) [''CONNECT'', ''TRACE'', ''PRI''] then 400 else 404))
      | Some e \<Rightarrow> serve_endpoint fuel L S J R P D s
          \<lparr>req_body = http_body hr, req_params = map_of params, req_header = http_header hr, req_match = []\<rparr> e))"

section \<open>Life cycle\<close>

text \<open>
  Whether the flag of the server is set, its socket listens, and a worker thread has not
  been joined. \<open>bound\<close> says that the port could be opened; when the worker cannot, it ends
  at once, and the loop that waits for the server to listen does not.
\<close>

record rpc_life =
  rl_running :: bool
  rl_listening :: bool
  rl_joinable :: bool

datatype 'a outcome = Returns 'a | Waits_forever | Process_aborted

definition new_rpc_life :: rpc_life where
  "new_rpc_life = \<lparr>rl_running = False, rl_listening = False, rl_joinable = False\<rparr>"

definition listen_begins :: "bool \<Rightarrow> rpc_life \<Rightarrow> rpc_life" where
  "listen_begins bound s = s\<lparr>rl_running := True, rl_listening := bound\<rparr>"

definition listen_ends :: "rpc_life \<Rightarrow> rpc_life" where
  "listen_ends s = s\<lparr>rl_running := False, rl_listening := False\<rparr>"

text \<open>Assigning to a thread that was not joined aborts the process.\<close>

definition start_async :: "bool \<Rightarrow> rpc_life \<Rightarrow> rpc_life outcome" where
  "start_async bound s =
     (if rl_running s then Returns s
      else if rl_joinable s then Process_aborted
      else if \<not> bound then Waits_forever
      else Returns ((listen_begins bound s)\<lparr>rl_joinable := True, rl_running := True\<rparr>))"

definition stop_server :: "rpc_life \<Rightarrow> rpc_life" where
  "stop_server s = (listen_ends s)\<lparr>rl_joinable := False, rl_running := False\<rparr>"

text \<open>What a signal does to the peer network and the server.\<close>

definition signal_handler :: "p2p_manager \<times> rpc_life \<Rightarrow> p2p_manager \<times> rpc_life" where
  "signal_handler services = (case services of (M, s) \<Rightarrow> (stop_p2p M, stop_server s))"

text \<open>A stopped server can be started again; one whose port is taken never finishes starting.\<close>

lemma restart: "start_async True (stop_server s) = Returns \<lparr>rl_running = True, rl_listening = True, rl_joinable = True\<rparr>"
  by (simp add: start_async_def stop_server_def listen_ends_def listen_begins_def)

lemma port_taken: "start_async False (stop_server s) = Waits_forever"
  by (simp add: start_async_def stop_server_def listen_ends_def)

end
