(* ===== verification/Guarantees.thy ===== *)
theory Guarantees
  imports Solvency Server Clients Downloads
begin

text \<open>
  What the running daemon guarantees whatever is sent to it: reading requests change
  nothing, a request of a client is done completely or not at all, and in every state that
  requests, peers, restarts and the outside world can lead to the node is solvent.
\<close>

section \<open>Requests\<close>

lemma client_operation_backed:
  assumes "lmdb_ok L" and "client_operation L S J C D now req e = Some operation" and "backed L S n"
  shows "backed L S (fst (operation n))"
  using assms(2) handlers_backed [OF assms(1,3)]
  by (auto simp: client_operation_def split: endpoint.splits)

lemma serve_endpoint_backed:
  assumes "lmdb_ok L" and "serve_endpoint fuel L S J R P D s req e = Some (s', r)"
  shows "keeps_backing L S s s'"
proof (cases "client_operation L S J (srv_rpc R) D (pf_now P (sys_world s)) req e")
  case (Some operation)
  then have "keeps_backing L S s (fst (mining J S P operation s))"
    by (intro mining_backed client_operation_backed [OF assms(1)])
  with Some assms(2) show ?thesis
    by (auto simp: serve_endpoint_def split: prod.splits)
next
  case None
  have same: "keeps_backing L S s s1" if "handle_handshake J C P s req = (s1, x)" for C s1 x
    using handle_handshake_node [of J C P s req] that by (simp add: keeps_same_node)
  show ?thesis
    using assms(2) None handle_add_peer_backed [OF assms(1)] handle_block_backed [OF assms(1)]
    by (cases e) (auto simp: serve_endpoint_def keeps_same_node split: prod.splits dest: same)
qed

lemma serve_cases:
  assumes "serve fuel L S J R P D s hr = Some (s', r)"
  shows "s' = s \<and> r \<noteq> None
    \<or> (\<exists>req e. serve_endpoint fuel L S J R P D s req e = Some (s', r))"
proof (cases "parse_request_line (http_line hr)")
  case None
  with assms show ?thesis
    by (auto simp: serve_def Let_def split: if_splits)
next
  case (Some x)
  obtain verb target params where x: "x = (verb, target, params)"
    by (metis prod_cases3)
  define page where "page = (if verb = ''GET'' \<or> verb = ''HEAD''
    then handle_file_request (site_stat (srv_site R)) (site_text (srv_site R) []) (site_mount (srv_site R)) target else None)"
  note run = assms [unfolded serve_def Let_def Some x option.case prod.case page_def [symmetric]]
  show ?thesis
  proof (cases "length (http_line hr) > 8192 \<or> page \<noteq> None \<or> route verb target = None")
    case True
    with run show ?thesis
      by (cases page; cases "route verb target") (auto split: if_split_asm)
  next
    case False
    then obtain e where "page = None" and "route verb target = Some e" and "\<not> length (http_line hr) > 8192"
      by auto
    with run show ?thesis
      by (simp split: if_splits) blast+
  qed
qed

lemma serve_backed: "lmdb_ok L \<Longrightarrow> serve fuel L S J R P D s hr = Some (s', r) \<Longrightarrow> keeps_backing L S s s'"
  using serve_cases [of fuel L S J R P D s hr s' r] by (auto simp: keeps_same_node serve_endpoint_backed)

section \<open>Reading\<close>

lemma get_route_reads:
  assumes "get_route path = Some e"
  shows "serve_endpoint fuel L S J R P D s req e = Some (s, Some (serve_get L S J R P D s req e))"
  using assms
  by (auto simp: get_route_def block_route_def serve_endpoint_def client_operation_def Let_def split: if_splits)

text \<open>
  C11: reading is safe. Every GET, HEAD or OPTIONS request is answered at once, whatever the
  peers do, and leaves the node, the table of peers and the outside world as they were.
\<close>

theorem reading_changes_nothing:
  assumes "parse_request_line (http_line hr) = Some (method, path, params)"
    and "method = ''GET'' \<or> method = ''HEAD'' \<or> method = ''OPTIONS''"
  shows "\<exists>r. serve fuel L S J R P D s hr = Some (s, Some r)"
proof -
  have preflight: "serve_endpoint fuel L S J R P D s req Preflight = Some (s, Some (serve_get L S J R P D s req Preflight))" for req
    by (simp add: serve_endpoint_def client_operation_def)
  show ?thesis
    using assms preflight
    by (auto simp: serve_def Let_def route_def get_route_reads split: option.split)
qed

section \<open>All or nothing\<close>

lemma commit_result:
  "commit_or_recover L S n b outs kis = (n', Inl e) \<Longrightarrow> node_db n' = node_db n"
  "commit_or_recover L S n b outs kis = (n', Inr ()) \<Longrightarrow>
     commit_block L S (node_db n) b (node_vault n) outs kis = (node_db n', Inr ()) \<and> node_vault n' = node_vault n
     \<and> node_announced n' = (if node_callback_set n then node_announced n @ [b] else node_announced n)"
  by (auto simp: commit_or_recover_def recover_fields split: prod.splits sum.splits dest: commit_block_error)

text \<open>The chain of the node grew by one block, which was stored with the vault and announced.\<close>

definition mined_one :: "'s lmdb \<Rightarrow> sodium \<Rightarrow> 's node \<Rightarrow> 's node \<Rightarrow> bool" where
  "mined_one L S n n' \<longleftrightarrow>
     (\<exists>b outs kis. hdr_height (header b) = get_blockchain_height n + 1
        \<and> prev_block_hash (header b) = get_top_block_hash n
        \<and> commit_block L S (node_db n) b (node_vault n') outs kis = (node_db n', Inr ())
        \<and> node_announced n' = (if node_callback_set n then node_announced n @ [b] else node_announced n))"

lemma added_header:
  "hdr_height (add_quorum_signature h pk sg) = hdr_height h"
  "prev_block_hash (add_quorum_signature h pk sg) = prev_block_hash h"
  by (simp_all add: add_quorum_signature_def Let_def)

lemma sealed_header:
  assumes "seal_block S n b = Inr b'"
  shows "hdr_height (header b') = hdr_height (header b)" and "prev_block_hash (header b') = prev_block_hash (header b)"
  using assms by (auto simp: seal_block_def ebind_eq_Inr Let_def sign_header_def added_header split: if_splits)

lemma cosigned_header:
  "hdr_height (foldl (cosign S) h keys) = hdr_height h" "prev_block_hash (foldl (cosign S) h keys) = prev_block_hash h"
  by (induction keys arbitrary: h) (simp_all add: cosign_def added_header)

lemma mined_oneI:
  assumes "commit_or_recover L S m b outs kis = (n', Inr ())"
    and "hdr_height (header b) = db_top_height (node_db n) + 1" and "prev_block_hash (header b) = db_top_hash (node_db n)"
    and "node_db m = node_db n" and "node_callback_set m = node_callback_set n" and "node_announced m = node_announced n"
  shows "mined_one L S n n'"
  using commit_result(2) [OF assms(1)] assms(2-)
  unfolding mined_one_def get_blockchain_height_def get_top_block_hash_def by metis

lemma next_header: "hdr_height (header (next_block n t)) = db_top_height (node_db n) + 1"
  "prev_block_hash (header (next_block n t)) = db_top_hash (node_db n)"
  by (simp_all add: next_block_def)

text \<open>The outcome of an operation of the node: an exception that leaves the database alone, or a block.\<close>

definition all_or_nothing :: "'s lmdb \<Rightarrow> sodium \<Rightarrow> 's node \<Rightarrow> 's node \<times> (error + 'a) \<Rightarrow> bool" where
  "all_or_nothing L S n p \<longleftrightarrow>
     (case p of (n', Inl e) \<Rightarrow> node_db n' = node_db n | (n', Inr x) \<Rightarrow> mined_one L S n n')"

lemma outcome_cases:
  "(\<And>a b. p = (a, b) \<Longrightarrow> all_or_nothing L S n (h a b)) \<Longrightarrow> all_or_nothing L S n (case p of (a, b) \<Rightarrow> h a b)"
  "(\<And>e. r = Inl e \<Longrightarrow> all_or_nothing L S n (f e)) \<Longrightarrow> (\<And>x. r = Inr x \<Longrightarrow> all_or_nothing L S n (g x))
    \<Longrightarrow> all_or_nothing L S n (case r of Inl e \<Rightarrow> f e | Inr x \<Rightarrow> g x)"
  "(c \<Longrightarrow> all_or_nothing L S n u) \<Longrightarrow> (\<not> c \<Longrightarrow> all_or_nothing L S n v)
    \<Longrightarrow> all_or_nothing L S n (if c then u else v)"
  by (simp_all split: prod.split sum.split)

lemma outcome_simps [simp]:
  "all_or_nothing L S n (n', Inl e) \<longleftrightarrow> node_db n' = node_db n"
  "all_or_nothing L S n (n', Inr x) \<longleftrightarrow> mined_one L S n n'"
  by (simp_all add: all_or_nothing_def)

lemma settle_outcome: "all_or_nothing L S n (settle_transaction L S now n tx)"
  unfolding settle_transaction_def Let_def
  by (intro outcome_cases)
     (auto simp: sealed_header next_header dest!: commit_result(1) intro!: mined_oneI)

lemma transfer_outcome: "all_or_nothing L S n (transfer_shielded L S D now n w u a amt fee)"
  unfolding transfer_shielded_def by (intro outcome_cases) (simp_all add: settle_outcome)

lemma submit_outcome: "all_or_nothing L S n (submit_pre_signed_transaction L S now n tx)"
  unfolding submit_pre_signed_transaction_def by (intro outcome_cases) (simp_all add: settle_outcome)

lemma withdraw_outcome: "all_or_nothing L S n (withdraw_shielded L S D T now n w u tokens dest)"
  unfolding withdraw_shielded_def Let_def
  by (intro outcome_cases)
     (auto simp: sealed_header next_header dest!: commit_result(1) intro!: mined_oneI)

lemma buy_outcome: "all_or_nothing L S n (buy_shielded L S rnd now n gross addr txh stamp keys)"
  unfolding buy_shielded_def Let_def
  by (intro outcome_cases)
     (auto simp: sealed_header cosigned_header next_header dest!: commit_result(1) intro!: mined_oneI)


text \<open>The reply of a handler follows the outcome.\<close>

lemma mined_one_node: "mined_one L S n n' \<Longrightarrow> n'' = n' \<Longrightarrow> mined_one L S n n''"
  by simp

lemma refusals:
  "reply_status (failed_with J f e) = 400" "reply_status (refuse J status t) = status"
  "reply_status (answer J status kvs) = status"
  by (simp_all add: failed_with_def refuse_def answer_def)

lemma authorize_refused: "authorize_deposit L S J C n req = Inl r \<Longrightarrow> reply_status r \<noteq> 200"
  by (auto simp: authorize_deposit_def parse_deposit_def guarded_def ebind_eq_Inl refusals
      split: sum.splits if_splits)

lemma parse_withdrawal_refused:
  "ebind (guarded J C (parse_body J req)) (parse_withdrawal S J C pool) = Inl r \<Longrightarrow> reply_status r \<noteq> 200"
  by (auto simp: parse_withdrawal_def guarded_def ebind_eq_Inl refusals split: sum.splits if_splits)

text \<open>
  C2: a request of a client is done completely or not at all. A deposit, a transfer, a
  pushed transaction or a withdrawal that is answered with status 200 has put exactly one
  block on top of the chain, stored together with the vault and announced to the peers; one
  that is answered with an error has left the database as it was.
\<close>

theorem client_request_atomic:
  assumes "client_operation L S J C D now req e = Some operation" and "e \<noteq> Vault_claim_fees"
    and "operation n = (n', r)"
  shows "if reply_status r = 200 then mined_one L S n n' else node_db n' = node_db n"
proof -
  have outcome: "p = (m, Inl x) \<Longrightarrow> all_or_nothing L S n p \<Longrightarrow> node_db m = node_db n"
    "p = (m, Inr y) \<Longrightarrow> all_or_nothing L S n p \<Longrightarrow> mined_one L S n m" for p :: "_ node \<times> (error + 'z)" and m x y
    by simp_all
  show ?thesis
    using assms
    by (cases e)
       (auto simp: client_operation_def handle_deposit_def handle_transfer_def handle_push_def handle_withdraw_def refusals
          split: sum.splits prod.splits if_splits
          dest!: authorize_refused parse_withdrawal_refused
          dest: outcome [OF _ buy_outcome] outcome [OF _ transfer_outcome] outcome [OF _ submit_outcome]
            outcome [OF _ withdraw_outcome])
qed

section \<open>The running daemon\<close>

text \<open>
  The methods that change the node. Each holds the mutex of the node from its first to its
  last line, so whatever threads do at the same time, to the node it is a sequence of these.
\<close>

inductive node_operation :: "'s lmdb \<Rightarrow> sodium \<Rightarrow> 's node \<Rightarrow> 's node \<Rightarrow> bool" for L S n where
  operation_buy: "node_operation L S n (fst (buy_shielded L S rnd now n gross addr txh stamp keys))"
| operation_transfer: "node_operation L S n (fst (transfer_shielded L S D now n w u addr amt fee))"
| operation_submit: "node_operation L S n (fst (submit_pre_signed_transaction L S now n tx))"
| operation_withdraw: "node_operation L S n (fst (withdraw_shielded L S D T now n w u tokens dest))"
| operation_claim: "node_operation L S n (fst (claim_treasury_fees L rnd n amt dest))"
| operation_remote: "node_operation L S n (fst (apply_remote_block L S n b))"

lemma node_operation_backed: "lmdb_ok L \<Longrightarrow> node_operation L S n n' \<Longrightarrow> backed L S n \<Longrightarrow> backed L S n'"
  by (erule node_operation.cases)
     (simp_all add: buy_backed transfer_backed submit_backed withdraw_backed claim_backed apply_remote_block_backed)

text \<open>
  What can happen to a daemon: requests, rounds of the heartbeat and the demonstration as a
  whole; single methods of the node, changes of the outside world and of the peer table,
  whose sequences are the interleavings of the threads that handle requests, gossip and
  downloads; and the end of the process between two of them with a new start on the
  database it left.
\<close>

inductive daemon_step ::
  "'s lmdb \<Rightarrow> sodium \<Rightarrow> ('j, 't) json_lib \<Rightarrow> 't server_config \<Rightarrow> ('w, 't) platform
     \<Rightarrow> ('s, 'w) system \<Rightarrow> ('s, 'w) system \<Rightarrow> bool"
  for L S J R P where
  daemon_request: "serve fuel L S J R P D s hr = Some (s', r) \<Longrightarrow> daemon_step L S J R P s s'"
| daemon_heartbeat: "background_round fuel L S J P s = Some (s', v) \<Longrightarrow> daemon_step L S J R P s s'"
| daemon_demo: "mining J S P (\<lambda>n. run_demo L S alice bob rnd D1 D2 T now n) s = (s', r) \<Longrightarrow> daemon_step L S J R P s s'"
| daemon_thread: "node_operation L S (sys_node s) n \<Longrightarrow> daemon_step L S J R P s (s\<lparr>sys_node := n\<rparr>)"
| daemon_outside: "daemon_step L S J R P s (s\<lparr>sys_p2p := M, sys_world := w\<rparr>)"
| daemon_restart: "start_daemon fuel L S J P kp fresh rid getenv (db_env (node_db (sys_node s))) w c = Inr (Some (s', v))
    \<Longrightarrow> daemon_step L S J R P s s'"

lemma run_demo_backed:
  assumes "lmdb_ok L" and "backed L S n"
  shows "backed L S (fst (run_demo L S alice bob rnd D1 D2 T now n))"
  unfolding run_demo_def Let_def
  by (intro backed_cases)
     (auto dest!: backed_result [OF buy_backed [OF assms]] backed_result [OF transfer_backed [OF assms(1)], rotated]
        backed_result [OF withdraw_backed [OF assms(1)], rotated])

text \<open>A database that has no balances yet, or solvent ones.\<close>

definition opened_solvent :: "'s lmdb \<Rightarrow> 's option \<Rightarrow> bool" where
  "opened_solvent L opened \<longleftrightarrow>
     (case opened of None \<Rightarrow> True
      | Some st \<Rightarrow> (case Option.bind (mdb_get L st Metadata vault_state_key) read_balances of
          None \<Rightarrow> True | Some (c, s, f) \<Rightarrow> unat c = unat s + unat f))"

lemma new_node_backed:
  assumes "lmdb_ok L" and "opened_solvent L opened" and "new_node L S kp fresh pv au d w opened = (n, Inr ())"
  shows "backed L S n"
proof -
  have env: "stored_solvent L S db" if "db_env db = opened" for db
    using assms(2) that by (auto simp: opened_solvent_def stored_solvent_env snapshot_def split: option.splits)
  have opens: "db_env db = opened" if "db_open L S new_chain_db opened = (db, Inr x)" for db x
    using that by (auto simp: db_open_def new_chain_db_def split: option.splits prod.splits)
  have commits: "stored_solvent L S db'"
    if "commit_block L S db b (new_vault d w) [] [] = (db', x)" and "db_env db = opened" for db b db' x
    by (rule commit_block_stored [OF assms(1) _ env [OF that(2)] that(1)]) simp
  show ?thesis
    using assms(3)
    by (auto simp: new_node_def init_or_recover_database_def Let_def
        split: prod.splits sum.splits if_splits dest!: opens commits intro!: recover_backed intro: env backed_db)
qed

lemma start_daemon_backed:
  assumes "lmdb_ok L" and "opened_solvent L opened"
    and "start_daemon fuel L S J P kp fresh rid getenv opened w c = Inr (Some (s, v))"
  shows "backed L S (sys_node s)"
proof -
  obtain n where n: "new_node L S kp fresh (getenv ''VALIDATOR_PRIVATE_KEY'') (getenv ''AUTHORIZED_VALIDATOR_KEYS'')
      (cfg_deposit_bps c) (cfg_withdraw_bps c) opened = (n, Inr ())"
    and seeds: "\<exists>M. connect_seeds (add_peer fuel L S J P)
      \<lparr>sys_node = set_on_block_mined n, sys_p2p = M, sys_world = w\<rparr> (cfg_seed_peers c) = Some (s, v)"
    using assms(3) by (auto simp: start_daemon_def Let_def split: prod.splits sum.splits)
  have "backed L S (set_on_block_mined n)"
    using new_node_backed [OF assms(1,2) n] by (simp add: backed_def set_on_block_mined_def)
  with seeds connect_seeds_backed [OF assms(1)] show ?thesis
    by (fastforce simp: keeps_backing_def)
qed

lemma backed_opened: "backed L S n \<Longrightarrow> lmdb_ok L \<Longrightarrow> opened_solvent L (db_env (node_db n))"
  by (auto simp: backed_def opened_solvent_def stored_solvent_env snapshot_open split: option.splits)

lemma daemon_step_backed:
  assumes "lmdb_ok L"
  shows "daemon_step L S J R P s s' \<Longrightarrow> keeps_backing L S s s'"
proof (induction rule: daemon_step.induct)
  case (daemon_request fuel D s hr s' r)
  then show ?case by (rule serve_backed [OF assms])
next
  case (daemon_heartbeat fuel s s' v)
  then show ?case by (rule background_round_backed [OF assms])
next
  case (daemon_demo alice bob rnd D1 D2 T now s s' r)
  then show ?case
    using mining_backed [of L S "\<lambda>n. run_demo L S alice bob rnd D1 D2 T now n" s J P] run_demo_backed [OF assms] by simp
next
  case (daemon_thread s n)
  then show ?case
    using node_operation_backed [OF assms] by (simp add: keeps_backing_def)
next
  case (daemon_outside s M w)
  then show ?case by (simp add: keeps_same_node)
next
  case (daemon_restart fuel kp fresh rid getenv s w c s' v)
  then show ?case
    using start_daemon_backed [OF assms _ daemon_restart] backed_opened [OF _ assms] by (auto simp: keeps_backing_def)
qed

text \<open>
  C1: the running system is always solvent. A daemon that started on a database without
  balances is solvent after any sequence of requests, malformed ones included, heartbeats,
  answers of peers, changes of the outside world, demonstrations, crashes and restarts,
  and any interleaving of the threads:
  the collateral of its vault equals, as a number, what it owes plus the fees, the balances
  on disk satisfy the same equation, and the audit it reports is positive.
\<close>

theorem daemon_always_solvent:
  assumes "lmdb_ok L" and "mdb_get L st Metadata vault_state_key = None"
    and "start_daemon fuel L S J P kp fresh rid getenv (Some st) w c = Inr (Some (s0, v))"
    and "rtranclp (daemon_step L S J R P) s0 s"
  shows "solvent (node_vault (sys_node s)) \<and> stored_solvent L S (node_db (sys_node s)) \<and> audit_system (sys_node s)"
proof -
  have "backed L S (sys_node s0)"
    using assms(2) by (intro start_daemon_backed [OF assms(1) _ assms(3)]) (simp add: opened_solvent_def)
  with assms(4) have "backed L S (sys_node s)"
  proof (induction rule: rtranclp_induct)
    case (step s1 s2)
    then show ?case
      using daemon_step_backed [OF assms(1) step.hyps(2)] by (simp add: keeps_backing_def)
  qed
  then show ?thesis
    by (simp add: backed_def audit_system_def solvent_audit)
qed

section \<open>An instance\<close>

text \<open>A server without files, and a client that asks for the state of health.\<close>

definition toy_draws :: server_draws where
  "toy_draws = \<lparr>sd_hash = [], sd_spend = toy_spend, sd_plan = \<lparr>draw_fragments = 5, draw_cut = (\<lambda>i a. 1), draw_hops = (\<lambda>i. 2),
       draw_address = (\<lambda>i j. []), draw_delay = (\<lambda>i j. 100), draw_tx = (\<lambda>i j. [])\<rparr>, sd_pick = (\<lambda>i. 0),
     sd_spend_scalar = [], sd_view_scalar = [], sd_tx = []\<rparr>"

definition toy_site :: "toy_json site" where
  "toy_site = \<lparr>site_stat = (\<lambda>p. Absent), site_mount = None, site_page = None, site_text = Toy_string\<rparr>"

definition toy_server_config :: "toy_json server_config" where
  "toy_server_config = \<lparr>srv_rpc = toy_config, srv_db_path = ''./data/lmdb'', srv_rejection_text = (\<lambda>r. ''refused''),
     srv_site = toy_site\<rparr>"

definition toy_http :: "string \<Rightarrow> string \<Rightarrow> toy_json \<Rightarrow> toy_json http_request" where
  "toy_http method path j = \<lparr>http_line = write_request_line method path, http_length = Some 10, http_body = j,
     http_header = (\<lambda>k. [])\<rparr>"

theorem reading_changes_nothing_witness:
  "\<exists>r. serve 1 toy_lmdb toy_sodium toy_json_lib toy_server_config (toy_server toy_node) toy_draws (toy_system toy_node)
     (toy_http ''GET'' ''/api/v1/chain/blocks?limit=5&offset=0'' (Toy_object [])) = Some (toy_system toy_node, Some r)"
proof -
  have "parse_request_line (http_line (toy_http ''GET'' ''/api/v1/chain/blocks?limit=5&offset=0'' (Toy_object [])))
    = Some (''GET'', ''/api/v1/chain/blocks'', [(''limit'', ''5''), (''offset'', ''0'')])"
    by code_simp
  then show ?thesis
    using reading_changes_nothing by blast
qed

theorem client_request_atomic_witness:
  "\<exists>n' r. handle_push toy_lmdb toy_sodium toy_json_lib toy_config 7 toy_owner
       (toy_post (push_document toy_json_lib toy_tx)) = (n', r)
     \<and> reply_status r = 200 \<and> mined_one toy_lmdb toy_sodium toy_owner n'"
proof -
  let ?req = "toy_post (push_document toy_json_lib toy_tx)"
  obtain m where "settle_transaction toy_lmdb toy_sodium 7 toy_owner toy_tx = (m, Inr toy_tx)"
    by (rule toy_settled)
  then have t: "submit_pre_signed_transaction toy_lmdb toy_sodium 7 toy_owner toy_tx = (m, Inr toy_tx)"
    by (simp add: submit_pre_signed_transaction_def toy_submitted)
  have "pushable toy_tx"
    by (simp add: pushable_def toy_tx_def transfer_timestamp_def sized_output_def sized_signature_def sized_keys_def
        MAX_TRANSACTION_AMOUNT_def)
  then have "ebind (parse_body toy_json_lib ?req) (parse_push toy_json_lib) = Inr toy_tx"
    using parse_push_document [OF toy_json_ok, of toy_tx] by (simp add: parse_body_def toy_post_def toy_json_lib_def)
  then obtain n' r where h: "handle_push toy_lmdb toy_sodium toy_json_lib toy_config 7 toy_owner ?req = (n', r)"
    and r: "reply_status r = 200"
    by (simp add: handle_push_def toy_config_def t refusals)
  have "client_operation toy_lmdb toy_sodium toy_json_lib toy_config toy_draws 7 ?req Tx_push
    = Some (\<lambda>n. handle_push toy_lmdb toy_sodium toy_json_lib toy_config 7 n ?req)"
    by (simp add: client_operation_def)
  from client_request_atomic [OF this _ h] h r show ?thesis
    by simp
qed

text \<open>A daemon on an empty database, which then answers a request.\<close>

definition toy_start :: daemon_config where
  "toy_start = \<lparr>cfg_db_dir = ''d'', cfg_port = 8080, cfg_seed_peers = [], cfg_node_id = ''n'', cfg_p2p_url = ''http://me'',
      cfg_demo = False, cfg_deposit_bps = 50, cfg_withdraw_bps = 50, cfg_host = ''h''\<rparr>"

lemma toy_genesis:
  obtains g bs where "create_genesis toy_sodium = Inr g" and "serialize_block g = Inr bs"
proof -
  have "case create_genesis toy_sodium of Inr g \<Rightarrow> \<not> isl (serialize_block g) | Inl e \<Rightarrow> False"
    by code_simp
  then show thesis
    using that by (auto simp: isl_def split: sum.splits) (metis sum.exhaust)
qed

lemma toy_started:
  obtains s where "start_daemon 1 toy_lmdb toy_sodium toy_json_lib (toy_server toy_node) (\<lambda>seed. (seed, seed)) ([], []) []
     (\<lambda>name. None) (Some (\<lambda>d. [])) () toy_start = Inr (Some (s, Returned True))"
proof -
  let ?db = "\<lparr>db_env = Some (\<lambda>d. []), db_top_height = 0, db_top_hash = zero_key\<rparr>"
  obtain g bs where g: "create_genesis toy_sodium = Inr g" "serialize_block g = Inr bs"
    by (rule toy_genesis)
  obtain db where c: "commit_block toy_lmdb toy_sodium ?db g (new_vault 50 50) [] [] = (db, Inr ())"
    using commit_block_succeeds [OF toy_lmdb_ok toy_lmdb_reliable g(2), of ?db "\<lambda>d. []" toy_sodium "new_vault 50 50" "[]" "[]"] by auto
  have "db_open toy_lmdb toy_sodium new_chain_db (Some (\<lambda>d. [])) = (?db, Inr ())"
    "get_block_by_height toy_lmdb toy_sodium ?db 0 = None"
    by (simp_all add: db_open_def new_chain_db_def init_top_height_def toy_lmdb_def get_block_by_height_def snapshot_def
        stored_block_def)
  with g(1) c show thesis
    by (intro that) (simp add: start_daemon_def new_node_def init_or_recover_database_def validator_keys_def toy_start_def Let_def)
qed

theorem daemon_always_solvent_witness:
  "\<exists>s0 r. serve 1 toy_lmdb toy_sodium toy_json_lib toy_server_config (toy_server toy_node) toy_draws s0
      (toy_http ''GET'' ''/api/v1/node/status'' (Toy_object [])) = Some (s0, Some r)
    \<and> solvent (node_vault (sys_node s0)) \<and> audit_system (sys_node s0)"
proof -
  obtain s0 where start: "start_daemon 1 toy_lmdb toy_sodium toy_json_lib (toy_server toy_node) (\<lambda>seed. (seed, seed)) ([], []) []
     (\<lambda>name. None) (Some (\<lambda>d. [])) () toy_start = Inr (Some (s0, Returned True))"
    by (rule toy_started)
  have line: "parse_request_line (http_line (toy_http ''GET'' ''/api/v1/node/status'' (Toy_object [])))
    = Some (''GET'', ''/api/v1/node/status'', [])"
    by code_simp
  have short: "\<not> length (http_line (toy_http ''GET'' ''/api/v1/node/status'' (Toy_object []))) > 8192"
    by code_simp
  have "\<exists>r. serve 1 toy_lmdb toy_sodium toy_json_lib toy_server_config (toy_server toy_node) toy_draws s0
      (toy_http ''GET'' ''/api/v1/node/status'' (Toy_object [])) = Some (s0, Some r)"
    unfolding serve_def Let_def line
    using short by (auto simp: route_def get_route_reads split: option.split)
  then obtain r where r: "serve 1 toy_lmdb toy_sodium toy_json_lib toy_server_config (toy_server toy_node) toy_draws s0
      (toy_http ''GET'' ''/api/v1/node/status'' (Toy_object [])) = Some (s0, Some r)"
    by blast
  then have "rtranclp (daemon_step toy_lmdb toy_sodium toy_json_lib toy_server_config (toy_server toy_node)) s0 s0"
    by (intro r_into_rtranclp daemon_request)
  from daemon_always_solvent [OF toy_lmdb_ok _ start this] r show ?thesis
    by (auto simp: toy_lmdb_def)
qed

end
