(* ===== verification/Sessions.thy ===== *)
theory Sessions
  imports Cli ClientKeys Guarantees
begin

text \<open>
  What holds of a session of the command line wallet: the amounts it reads, the states it
  reaches, the phrases it shows, the treasury command against a server, and how it ends.
\<close>

section \<open>Amounts\<close>

lemma dec_string_length: "n < 10 ^ k \<Longrightarrow> 0 < k \<Longrightarrow> length (dec_string n) \<le> k"
proof (induction k arbitrary: n)
  case (Suc k)
  show ?case
  proof (cases "n < 10")
    case False
    with Suc have "length (dec_string (n div 10)) \<le> k"
      by (cases k) auto
    with False show ?thesis
      by (simp add: dec_string.simps [of n])
  qed (simp add: dec_string.simps [of n])
qed simp

lemma split_from_digits: "list_all (\<lambda>c. \<not> isspace c) t \<Longrightarrow> split_from w (t @ s) = split_from (w @ t) s"
  by (rule split_from_word) (simp add: list_all_iff)

lemma isspace_is_space: "isspace = is_space"
  by (simp add: fun_eq_iff isspace_def is_space_def)

text \<open>
  C15: an amount is read as it is displayed. The number that the wallet shows for an amount
  of up to the limit of the vault, typed back as an argument of a command, is read as
  exactly that amount, although it passes through a rounded \<^verbatim>\<open>double\<close>; and so is every
  number with up to six decimals below that limit.
\<close>

theorem displayed_amount_typed:
  assumes "a \<le> MAX_TRANSACTION_AMOUNT"
  shows "\<exists>t. parse_tokens (format_usdt a) = [t, ''USDT''] \<and> typed_usdt t = Inr a"
proof -
  define w d where "w = dec_string (unat (a div USDT_UNIT))" and "d = set_width 6 (dec_string (unat (a mod USDT_UNIT)))"
  have units: "unat (a div USDT_UNIT) = unat a div 1000000" "unat (a mod USDT_UNIT) = unat a mod 1000000"
    by (simp_all add: USDT_UNIT_def unat_div unat_mod)
  have "length (dec_string (unat a mod 1000000)) \<le> 6"
    by (rule dec_string_length) simp_all
  then have len: "length d = 6"
    by (simp add: d_def units set_width_def)
  have digits: "list_all is_digit w" "list_all is_digit d"
    using is_digit_dec_string [of "unat a div 1000000"] is_digit_dec_string [of "unat a mod 1000000"]
    by (simp_all add: w_def d_def units set_width_def) (simp add: is_digit_def list_all_iff)
  then have plain: "plain_decimal (w @ ''.'' @ d) w d"
    using len by (auto simp: plain_decimal_def)
  have sum: "dec_value w * 1000000 + dec_value d * 10 ^ (6 - length d) = unat a"
    by (simp add: len) (simp add: w_def d_def units)
  moreover have "unat a \<le> 100000000000000"
    using assms by (simp add: MAX_TRANSACTION_AMOUNT_def word_le_nat_alt)
  ultimately have typed: "typed_usdt (w @ ''.'' @ d) = Inr a"
    using typed_amount [OF plain] by (simp add: typed_usdt_def len)
  have "list_all (\<lambda>c. \<not> isspace c) (w @ ''.'' @ d)"
    using plain_chars(2) [OF plain] by (auto simp: list_all_iff isspace_is_space)
  from split_from_digits [OF this, of "[]" "'' USDT''"]
  have "parse_tokens ((w @ ''.'' @ d) @ '' USDT'') = [w @ ''.'' @ d, ''USDT'']"
    by (simp add: parse_tokens_def isspace_def)
  moreover have "format_usdt a = (w @ ''.'' @ d) @ '' USDT''"
    by (simp add: format_usdt_def w_def d_def Let_def)
  ultimately show ?thesis
    using typed by auto
qed

theorem displayed_amount_typed_witness:
  "\<exists>t. parse_tokens (format_usdt 12345678) = [t, ''USDT''] \<and> typed_usdt t = Inr 12345678"
  using displayed_amount_typed [of 12345678] by (simp add: MAX_TRANSACTION_AMOUNT_def)

section \<open>States\<close>

definition session_ok :: "sodium \<Rightarrow> ('w, 'f) session \<Rightarrow> bool" where
  "session_ok S s \<longleftrightarrow> manager_ok S (ses_manager s) \<and> (\<forall>i. length (ses_entropy s i) = 32)"

lemma session_okI:
  "session_ok S s \<Longrightarrow> manager_ok S W \<Longrightarrow> session_ok S (s\<lparr>ses_manager := W\<rparr>)"
  "session_ok S s \<Longrightarrow> session_ok S (s\<lparr>ses_world := w\<rparr>)"
  "session_ok S s \<Longrightarrow> session_ok S (s\<lparr>ses_files := f\<rparr>)"
  "session_ok S s \<Longrightarrow> session_ok S (s\<lparr>ses_entropy := \<lambda>i. ses_entropy s (Suc i)\<rparr>)"
  by (simp_all add: session_ok_def)

lemma sync_session_ok: "session_ok S s \<Longrightarrow> sync_session J P s = (s', ok) \<Longrightarrow> session_ok S s'"
  using sync_ok [of S "ses_manager s" J P "ses_world s"]
  by (auto simp: sync_session_def session_ok_def split: prod.splits)

lemma sync_session_fst: "session_ok S s \<Longrightarrow> session_ok S (fst (sync_session J P s))"
  by (cases "sync_session J P s") (simp add: sync_session_ok)

lemma session_ok_files: "session_ok S (s\<lparr>ses_files := f\<rparr>) \<longleftrightarrow> session_ok S s"
  by (simp add: session_ok_def)

text \<open>Notices that show no memory beyond a vector.\<close>

definition defined_notice :: "('j, 't) shown \<Rightarrow> bool" where
  "defined_notice x = (case x of Phrase_past_end _ \<Rightarrow> False | _ \<Rightarrow> True)"

lemma defined_simps [simp]:
  "defined_notice (Say n)" "defined_notice (Say_text n t)" "defined_notice (Say_flag n b)" "defined_notice (Say_json n j)"
  "defined_notice (Say_body n u)" "defined_notice (Say_error n e)" "defined_notice (Phrase_words ws)" "defined_notice (Prompt p)"
  "\<not> defined_notice (Phrase_past_end ws)"
  by (simp_all add: defined_notice_def)

lemma shown_until_subset: "shown_until items = (xs, r) \<Longrightarrow> x \<in> set xs \<Longrightarrow> Inr x \<in> set items"
  by (induction items arbitrary: xs r rule: shown_until.induct) (auto split: prod.splits)

lemma attempt_defined:
  "(\<And>e. defined_notice (h e)) \<Longrightarrow> (\<And>x. Inr x \<in> set items \<Longrightarrow> defined_notice x)
    \<Longrightarrow> list_all defined_notice (attempt h items)"
  by (auto simp: attempt_def list_all_iff split: prod.split option.split dest!: sym [of _ "shown_until items"] dest: shown_until_subset)

lemma slots_defined:
  "slot_json J X n v k = Inr x \<Longrightarrow> defined_notice x" "slot_text J X n v k = Inr x \<Longrightarrow> defined_notice x"
  "slot_flag J X n v k = Inr x \<Longrightarrow> defined_notice x"
  by (auto simp: slot_json_def slot_text_def slot_flag_def ebind_eq_Inr)

lemma vault_slots_defined:
  "vault_slot (slot_text J X n) J X j k = Inr x \<Longrightarrow> defined_notice x"
  "vault_slot (slot_flag J X n) J X j k = Inr x \<Longrightarrow> defined_notice x"
  by (auto simp: vault_slot_def ebind_eq_Inr dest: slots_defined)

lemma items_defined:
  "Inr x \<in> set (status_items J X url j) \<Longrightarrow> defined_notice x"
  "Inr x \<in> set (connect_items J X j) \<Longrightarrow> defined_notice x"
  "Inr x \<in> set (claim_items J X j) \<Longrightarrow> defined_notice x"
  "Inr x \<in> set (peer_items J X i p) \<Longrightarrow> defined_notice x"
  by (auto simp: status_items_def connect_items_def claim_items_def peer_items_def ebind_eq_Inr Let_def
      dest!: sym [of "Inr x"] dest: slots_defined vault_slots_defined)

lemma peers_items_defined: "Inr x \<in> set (peers_items J X j) \<Longrightarrow> defined_notice x"
  by (auto simp: peers_items_def ebind_eq_Inr dest: items_defined(4) dest!: sym [of "Inr x"] split: option.splits if_splits)

lemma attempts_defined [simp]:
  "list_all defined_notice (attempt (Say_error n) (status_items J X url j))"
  "list_all defined_notice (attempt (\<lambda>_. Say n) (connect_items J X j))"
  "list_all defined_notice (attempt (Say_error n) (claim_items J X j))"
  "list_all defined_notice (attempt (Say_error n) (peers_items J X j))"
  by (auto intro!: attempt_defined dest: items_defined peers_items_defined)

text \<open>What a command may do: keep the state well formed, show defined memory, and end as \<^verbatim>\<open>stoi\<close> ends it.\<close>

definition good_reply :: "sodium \<Rightarrow> ('w, 'f) session \<times> ('j, 't) shown list \<Rightarrow> bool" where
  "good_reply S r \<longleftrightarrow> session_ok S (fst r) \<and> list_all defined_notice (snd r)"

definition good_end :: "ending \<Rightarrow> bool" where
  "good_end e \<longleftrightarrow> (\<forall>x. e = Terminates x \<longrightarrow> x \<in> {Service_error Number_missing, Service_error Number_out_of_range})"

lemma good_end_simps [simp]: "good_end Goes_on" "good_end Quits"
  by (simp_all add: good_end_def)

lemma good_replyI [simp]: "good_reply S (s, out) \<longleftrightarrow> session_ok S s \<and> list_all defined_notice out"
  by (simp add: good_reply_def)

lemma loaded_phrase:
  assumes "session_ok S s" and "has_wallet (ses_manager s)"
  shows "24 \<le> length (split_words (wm_mnemonic (ses_manager s)))"
proof -
  have "validate_mnemonic S (wm_mnemonic (ses_manager s))"
    using assms
    by (auto simp: session_ok_def manager_ok_def wallet_consistent_def has_wallet_def active_wallet_def valid_phrase_keys)
  then show ?thesis
    by (auto simp: validate_mnemonic_def Let_def split: if_splits)
qed

lemma box_defined: "24 \<le> length (split_words m) \<Longrightarrow> list_all defined_notice (display_mnemonic_box m)"
  by (simp add: display_mnemonic_box_def Let_def)

lemma parse_endpoint_end: "parse_endpoint port ep = Inl e \<Longrightarrow> good_end (Terminates e)"
  by (auto simp: parse_endpoint_def stoi_def ebind_eq_Inl good_end_def Let_def split: list.splits prod.splits if_splits)

lemma daemon_good:
  assumes "session_ok S s" and "cmd_daemon s args = (s', out, e)"
  shows "session_ok S s' \<and> list_all defined_notice out \<and> good_end e"
proof -
  have "manager_ok S (set_daemon (ses_manager s) h p)" for h p
    using assms(1) by (simp add: session_ok_def manager_ok_def wallet_consistent_def set_daemon_def active_wallet_def)
  with assms show ?thesis
    by (auto simp: cmd_daemon_def Let_def session_okI split: list.splits sum.splits prod.splits dest: parse_endpoint_end)
qed

lemma address_good:
  assumes "session_ok S s" and "cmd_address s = (s', out, e)"
  shows "session_ok S s' \<and> list_all defined_notice out \<and> good_end e"
proof -
  have "\<exists>a. get_address (ses_manager s) = Inr a" if "has_wallet (ses_manager s)"
    using assms(1) that by (auto simp: session_ok_def manager_ok_def has_wallet_def get_address_def active_wallet_def)
  with assms show ?thesis
    by (auto simp: cmd_address_def split: if_splits sum.splits)
qed

lemma create_good:
  assumes "session_ok S s"
  shows "good_reply S (cmd_create S J P F s args)"
proof -
  have e: "length (ses_entropy s 0) = 32"
    using assms by (simp add: session_ok_def)
  have m: "manager_ok S W" "r = Inr phrase \<Longrightarrow> 24 \<le> length (split_words phrase)"
    if "create_wallet S (ses_entropy s 0) (ses_manager s) name = (W, r)" for name W r phrase
  proof -
    show "manager_ok S W"
      using create_ok [OF _ e, of S "ses_manager s" name] assms that by (simp add: session_ok_def)
    show "24 \<le> length (split_words phrase)" if "r = Inr phrase"
      using that \<open>create_wallet S (ses_entropy s 0) (ses_manager s) name = (W, r)\<close> validate_generated [OF e, of S]
      by (auto simp: create_wallet_def validate_mnemonic_def Let_def split: prod.splits sum.splits if_splits)
  qed
  have k: "session_ok S (s\<lparr>ses_manager := W, ses_entropy := \<lambda>i. ses_entropy s (Suc i)\<rparr>)"
    if "create_wallet S (ses_entropy s 0) (ses_manager s) name = (W, r)" for name W r
    using assms m(1) [OF that] by (simp add: session_ok_def)
  show ?thesis
    by (auto simp: cmd_create_def Let_def box_defined sync_session_fst session_ok_files assms
        split: list.split prod.split sum.split dest: m(2) k)
qed

lemma install_session:
  assumes "session_ok S s"
  shows "restore_wallet S (ses_manager s) name phrase = (W, r) \<Longrightarrow> session_ok S (s\<lparr>ses_manager := W\<rparr>)"
    and "load_wallet S J F f (ses_manager s) path = (W, r) \<Longrightarrow> session_ok S (s\<lparr>ses_manager := W\<rparr>)"
  using assms restore_ok [of S "ses_manager s" name phrase] load_ok [of S "ses_manager s" J F f path]
  by (auto simp: session_ok_def)

lemma restore_good: "session_ok S s \<Longrightarrow> good_reply S (cmd_restore S J P phrase s args)"
  unfolding cmd_restore_def Let_def
  by (auto split: list.split prod.split sum.split bool.split dest: install_session sync_session_ok)

lemma open_good: "session_ok S s \<Longrightarrow> good_reply S (cmd_open S J P F s args)"
  unfolding cmd_open_def Let_def
  by (auto split: list.split prod.split sum.split bool.split dest: install_session(2) sync_session_ok)

lemma save_good: "session_ok S s \<Longrightarrow> good_reply S (cmd_save J F s args)"
  by (auto simp: cmd_save_def Let_def session_ok_files split: prod.split sum.split)

lemma close_good:
  assumes "session_ok S s"
  shows "good_reply S (cmd_close s)"
proof -
  have "manager_ok S (close_wallet (ses_manager s))"
    using assms by (simp add: session_ok_def manager_ok_def wallet_consistent_def close_wallet_def active_wallet_def)
  with assms show ?thesis
    by (simp add: cmd_close_def Let_def session_okI)
qed

lemma seed_good: "session_ok S s \<Longrightarrow> good_reply S (cmd_seed s)"
  by (simp add: cmd_seed_def with_wallet_def box_defined loaded_phrase)

lemma rows_defined: "list_all defined_notice (balance_rows us)"
  by (auto simp: balance_rows_def list_all_iff)

lemma balance_good: "session_ok S s \<Longrightarrow> good_reply S (cmd_balance J P s)"
  by (auto simp: cmd_balance_def with_wallet_def Let_def rows_defined split: prod.split dest: sync_session_ok)

lemma sync_good: "session_ok S s \<Longrightarrow> good_reply S (cmd_sync J P s)"
  by (auto simp: cmd_sync_def with_wallet_def Let_def split: prod.split bool.split dest: sync_session_ok)

lemma deposit_good: "session_ok S s \<Longrightarrow> good_reply S (cmd_deposit s args)"
  by (auto simp: cmd_deposit_def with_wallet_def wallet_deposit_def Let_def split: list.split sum.split)

lemma paid_session:
  assumes "session_ok S s" and "pay_with J P path request result amt w (ses_manager s) = (W, w', r)"
  shows "session_ok S (s\<lparr>ses_manager := W, ses_world := w'\<rparr>)"
  using assms pay_ok [of S "ses_manager s" J P path request result amt w] by (simp add: session_ok_def)

lemma transfer_good: "session_ok S s \<Longrightarrow> good_reply S (cmd_transfer J P s args)"
  by (auto simp: cmd_transfer_def with_wallet_def wallet_transfer_def Let_def
      split: list.split sum.split prod.split option.split dest: paid_session)

lemma withdraw_good: "session_ok S s \<Longrightarrow> good_reply S (cmd_withdraw J P s args)"
  by (auto simp: cmd_withdraw_def with_wallet_def wallet_withdraw_def Let_def
      split: list.split sum.split prod.split option.split dest: paid_session)

lemma status_good: "session_ok S s \<Longrightarrow> good_reply S (cmd_status J X P s)"
  by (auto simp: cmd_status_def session_okI split: prod.split option.split)

lemma peers_good: "session_ok S s \<Longrightarrow> good_reply S (cmd_peers J X P s)"
  by (auto simp: cmd_peers_def session_okI split: prod.split option.split)

lemma addpeer_good: "session_ok S s \<Longrightarrow> good_reply S (cmd_addpeer J P s args)"
  by (auto simp: cmd_addpeer_def session_okI split: list.split prod.split option.split)

lemma claim_message_defined [simp]: "defined_notice (claim_message J body)"
  by (simp add: claim_message_def split: option.split)

lemma claimfees_good: "session_ok S s \<Longrightarrow> good_reply S (cmd_claimfees J X P s args)"
  by (auto simp: cmd_claimfees_def session_okI split: list.split sum.split prod.split option.split)

lemmas replies_good = status_good peers_good addpeer_good create_good restore_good open_good save_good close_good seed_good
  balance_good sync_good deposit_good transfer_good withdraw_good claimfees_good

definition good_step :: "sodium \<Rightarrow> ('w, 'f) session \<times> ('j, 't) shown list \<times> ending \<Rightarrow> bool" where
  "good_step S r \<longleftrightarrow> good_reply S (fst r, fst (snd r)) \<and> good_end (snd (snd r))"

lemma good_step_simps [simp]:
  "good_step S (goes_on r) \<longleftrightarrow> good_reply S r"
  "good_step S (s, out, e) \<longleftrightarrow> session_ok S s \<and> list_all defined_notice out \<and> good_end e"
  by (simp_all add: good_step_def goes_on_def good_reply_def)

lemma good_stepI:
  "(\<And>s' out e. r = (s', out, e) \<Longrightarrow> session_ok S s' \<and> list_all defined_notice out \<and> good_end e) \<Longrightarrow> good_step S r"
  by (cases r) simp

lemma steps_good: "session_ok S s \<Longrightarrow> good_step S (cmd_daemon s args)" "session_ok S s \<Longrightarrow> good_step S (cmd_address s)"
  by (rule good_stepI, erule (1) daemon_good) (rule good_stepI, erule (1) address_good)

lemma good_if: "good_step S a \<Longrightarrow> good_step S b \<Longrightarrow> good_step S (if c then a else b)"
  by simp

lemma command_good:
  assumes "session_ok S s" and "run_command S J X P F next_line s cmd args = (s', out, e)"
  shows "session_ok S s' \<and> list_all defined_notice out \<and> good_end e"
proof -
  have "good_step S (run_command S J X P F next_line s cmd args)"
    unfolding run_command_def
    by (intro good_if) (simp_all add: steps_good [OF assms(1)] replies_good [OF assms(1)] assms(1))
  then show ?thesis
    by (simp add: assms(2))
qed

lemma lines_good:
  "session_ok S s \<Longrightarrow> run_lines S J X P F s lines = (s', out, e)
    \<Longrightarrow> session_ok S s' \<and> list_all defined_notice out \<and> good_end e"
proof (induction S J X P F s lines arbitrary: s' out e rule: run_lines.induct)
  case (1 S J X P F s)
  then show ?case
    by (auto simp: prompt_def)
next
  case (2 S J X P F s line rest)
  show ?case
  proof (cases "parse_tokens line")
    case Nil
    with 2 show ?thesis
      by (fastforce simp: prompt_def split: prod.splits)
  next
    case (Cons cmd args)
    let ?next = "case rest of [] \<Rightarrow> [] | l # _ \<Rightarrow> l"
    obtain s1 out1 e1 where c: "run_command S J X P F ?next s cmd args = (s1, out1, e1)"
      by (metis prod_cases3)
    have good: "session_ok S s1 \<and> list_all defined_notice out1 \<and> good_end e1"
      by (rule command_good [OF 2(3) c])
    show ?thesis
    proof (cases "e1 = Goes_on")
      case True
      obtain t out2 e2 where r: "run_lines S J X P F s1 (drop (lines_read cmd args) rest) = (t, out2, e2)"
        by (metis prod_cases3)
      have "session_ok S t \<and> list_all defined_notice out2 \<and> good_end e2"
        using 2(2) [OF Cons c [symmetric] refl _ _ r] good True by simp
      with 2(4) good show ?thesis
        by (simp add: Cons c True r prompt_def) auto
    next
      case False
      with 2(4) good show ?thesis
        by (simp add: Cons c prompt_def) auto
    qed
  qed
qed

lemma connect_good: "session_ok S s \<Longrightarrow> good_reply S (connect_cli J X P s)"
  by (auto simp: connect_cli_def session_okI split: prod.split option.split)

lemma initial_good: "session_ok S s \<Longrightarrow> good_reply S (open_initial S J P F s path)"
  by (auto simp: open_initial_def Let_def split: prod.split sum.split dest: install_session(2) sync_session_ok)

lemma read_options_end: "read_options opt argv = Inl e \<Longrightarrow> good_end (Terminates e)"
proof (induction opt argv rule: read_options.induct)
  case (2 opt arg rest)
  then show ?case
    by (auto simp: ebind_eq_Inl parse_endpoint_end split: if_splits)
qed simp


section \<open>How a session ends\<close>

lemma stoi_slashes: "stoi (''//'' @ host) = Inl (Service_error Number_missing)"
  by (simp add: stoi_def split_sign_def is_space_def is_digit_def Let_def)

text \<open>
  An address with a scheme kills the wallet. \<^verbatim>\<open>daemon http://host:port\<close>, the form that
  \<^verbatim>\<open>addpeer\<close> wants, and the option \<^verbatim>\<open>--daemon http://host:port\<close> throw outside any handler,
  so that the process is terminated and the rest of the input is not read.
\<close>

theorem daemon_url_kills_wallet:
  assumes "list_all (\<lambda>c. \<not> isspace c) host"
  shows "run_lines S J X P F s ((''daemon http://'' @ host) # rest)
      = (s, [prompt s], Terminates (Service_error Number_missing))
    \<and> wallet_cli S J X P F w f entropy (''--daemon'' # (''http://'' @ host) # argv) input
      = (None, [], Terminates (Service_error Number_missing))"
proof -
  have "parse_tokens (''daemon http://'' @ host) = [''daemon'', ''http://'' @ host]"
    using split_from_digits [OF assms, of "''http://''" "[]"] by (simp add: parse_tokens_def isspace_def)
  moreover have "parse_endpoint port (''http://'' @ host) = Inl (Service_error Number_missing)" for port
    using stoi_slashes [of host] by (simp add: parse_endpoint_def)
  ultimately show ?thesis
    by (simp add: run_command_def cmd_daemon_def wallet_cli_def)
qed

section \<open>Phrases\<close>

lemma sync_session_keeps:
  "sync_session J P s = (s', ok) \<Longrightarrow> active_wallet (ses_manager s') = active_wallet (ses_manager s)
     \<and> wm_mnemonic (ses_manager s') = wm_mnemonic (ses_manager s)"
  by (auto simp: sync_session_def wallet_sync_def apply_scan_def active_wallet_def split: prod.splits option.splits sum.splits)

text \<open>
  C14: the phrase that is shown restores the wallet. After \<^verbatim>\<open>create\<close> the box shows 24 words;
  typed with spaces after \<^verbatim>\<open>restore\<close> in any other session, with another node and other
  files, they give the same keys and the same phrase.
\<close>

theorem shown_phrase_restores:
  fixes P' :: "('v, 'u) platform" and F' :: "('g, 'u) file_system"
  assumes "session_ok S s" and "cmd_create S J P F s [name] = (s1, out)"
    and "list_all (\<lambda>c. \<not> isspace c) (n # new)"
  shows "\<exists>ws w. length ws = 24 \<and> Phrase_words ws \<in> set out \<and> active_wallet (ses_manager s1) = Some w
    \<and> (\<forall>t. \<exists>t1 out1. run_lines S J' X' P' F' t [''restore '' @ n # new, join ws] = (t1, out1, Quits)
          \<and> active_wallet (ses_manager t1) = Some w \<and> wm_mnemonic (ses_manager t1) = wm_mnemonic (ses_manager s1))"
proof -
  let ?entropy = "ses_entropy s 0"
  define phrase where "phrase = generate_24_words S ?entropy"
  have e: "length ?entropy = 32"
    using assms(1) by (simp add: session_ok_def)
  have valid: "validate_mnemonic S phrase"
    unfolding phrase_def by (rule validate_generated [OF e])
  then obtain w where w: "mnemonic_to_wallet S phrase = Inr w"
    using valid_phrase_keys by blast
  define ws where "ws = split_words phrase"
  have ws: "length ws = 24" "join ws = phrase"
    unfolding ws_def phrase_def split_generated
    by (simp_all add: phrase_words_def generate_24_words_def generate_join Let_def)
  define W where "W = (ses_manager s)\<lparr>wm_name := name, wm_mnemonic := phrase, wm_wallet := Some w, wm_loaded := True,
      wm_balance := 0, wm_utxos := []\<rparr>"
  have c: "create_wallet S ?entropy (ses_manager s) name = (W, Inr phrase)"
    using w by (simp add: create_wallet_def install_phrase_def W_def phrase_def Let_def)
  have W: "active_wallet W = Some w" "wm_mnemonic W = phrase"
    by (simp_all add: active_wallet_def W_def)
  have shown: "Phrase_words ws \<in> set (display_mnemonic_box phrase)"
    using ws by (simp add: display_mnemonic_box_def Let_def flip: ws_def)
  have s1: "active_wallet (ses_manager s1) = Some w \<and> wm_mnemonic (ses_manager s1) = phrase \<and> Phrase_words ws \<in> set out"
    using assms(2) W shown
    by (auto simp: cmd_create_def c Let_def sync_session_keeps [OF prod.collapse [symmetric]]
        split: sum.splits prod.splits)
  have restored: "\<exists>t1 out1. run_lines S J' X' P' F' t [''restore '' @ n # new, join ws] = (t1, out1, Quits)
      \<and> active_wallet (ses_manager t1) = Some w \<and> wm_mnemonic (ses_manager t1) = phrase" for t :: "('v, 'g) session"
  proof -
    define V where "V = (ses_manager t)\<lparr>wm_name := n # new, wm_mnemonic := phrase, wm_wallet := Some w, wm_loaded := True,
        wm_balance := 0, wm_utxos := []\<rparr>"
    have V: "active_wallet V = Some w" "wm_mnemonic V = phrase"
      by (simp_all add: active_wallet_def V_def)
    have r: "restore_wallet S (ses_manager t) (n # new) phrase = (V, Inr ())"
      using w valid by (simp add: restore_wallet_def install_phrase_def V_def Let_def)
    obtain t1 out1 where cmd: "cmd_restore S J' P' phrase t [n # new] = (t1, out1)"
      by fastforce
    then have t1: "active_wallet (ses_manager t1) = Some w \<and> wm_mnemonic (ses_manager t1) = phrase"
      using V by (auto simp: cmd_restore_def r Let_def address_text_def get_address_def
          split: prod.splits bool.splits dest!: sync_session_keeps)
    have tokens: "parse_tokens (''restore '' @ n # new) = [''restore'', n # new]"
      using split_from_digits [OF assms(3), of "[]" "[]"] by (simp add: parse_tokens_def isspace_def)
    have "run_command S J' X' P' F' phrase t ''restore'' [n # new] = (t1, out1, Goes_on)"
      by (simp add: run_command_def goes_on_def cmd)
    with tokens ws(2) have "run_lines S J' X' P' F' t [''restore '' @ n # new, join ws]
        = (t1, prompt t # out1 @ [prompt t1], Quits)"
      by (simp add: lines_read_def)
    with t1 show ?thesis
      by blast
  qed
  with s1 ws(1) show ?thesis
    by auto
qed

section \<open>Treasury\<close>

lemma mining_nothing: "operation (sys_node s) = (sys_node s, r) \<Longrightarrow> mining J S P operation s = (s, r)"
  by (simp add: mining_def gossip_mined_def)

lemma claim_request_line:
  "parse_request_line (write_request_line ''POST'' ''/api/v1/vault/claim-fees'') = Some (''POST'', ''/api/v1/vault/claim-fees'', [])"
  "\<not> length (write_request_line ''POST'' ''/api/v1/vault/claim-fees'') > 8192"
  by code_simp+

lemma claim_without_token:
  fixes L :: "'s lmdb"
  assumes "http_line hr = write_request_line ''POST'' ''/api/v1/vault/claim-fees''"
    and "http_header hr ''X-Admin-Token'' = []" and "http_header hr ''Authorization'' = []"
  shows "\<exists>r. serve fuel L S J R P D n hr = Some (n, Some r) \<and> reply_status r \<in> {401, 413}"
proof -
  let ?req = "\<lparr>req_body = http_body hr, req_params = map_of [], req_header = http_header hr, req_match = []\<rparr>"
  have "handle_claim_fees L J (srv_rpc R) tx m ?req = (m, refuse J 401 ''No autorizado: se requiere un token administrativo valido'')"
    for tx and m :: "'s node"
    using assms(2,3) by (auto simp: handle_claim_fees_def presented_token_def starts_with_def dest: sym)
  then have "serve_endpoint fuel L S J R P D n ?req Vault_claim_fees
    = Some (n, Some (refuse J 401 ''No autorizado: se requiere un token administrativo valido''))"
    by (simp add: serve_endpoint_def client_operation_def mining_nothing)
  then show ?thesis
    using assms(1)
    by (simp add: serve_def Let_def claim_request_line route_def post_route_def empty_reply_def refusals
        split: option.split)
qed

text \<open>
  C16: \<^verbatim>\<open>claimfees\<close> never claims. The wallet sends the request without the headers of a token,
  and a server answers such a request with an error and without any change, whatever its
  configuration is, so that the command always shows an error.
\<close>

theorem claimfees_never_claims:
  assumes "stod t = Inr val"
    and "http_line hr = write_request_line ''POST'' ''/api/v1/vault/claim-fees''"
    and "http_header hr ''X-Admin-Token'' = []" and "http_header hr ''Authorization'' = []"
    and "serve fuel L S J R Q D n hr = Some (n', Some r)"
    and "pf_post P (ses_world s) (daemon_url (ses_manager s)) ''/api/v1/vault/claim-fees''
           (js_dump J (claim_document J val dest)) = (w, Some (reply_status r, reply_content r))"
  shows "n' = n \<and> cmd_claimfees J X P s [t, dest]
    = (s\<lparr>ses_world := w\<rparr>, [Say ''claiming'', claim_message J (reply_content r)])"
proof -
  have "n' = n" "reply_status r \<noteq> 200"
    using claim_without_token [OF assms(2-4), of fuel L S J R Q D n] assms(5) by auto
  then show ?thesis
    by (simp add: cmd_claimfees_def assms(1,6))
qed

section \<open>An instance\<close>

definition toy_values :: "toy_json json_values" where
  "toy_values = \<lparr>jv_null = (\<lambda>j. False), jv_bool = (\<lambda>j. None), jv_int = (\<lambda>j. None)\<rparr>"

text \<open>A daemon that answers every request in the same way.\<close>

definition answering :: "(nat \<times> toy_json) option \<Rightarrow> (unit, toy_json) platform" where
  "answering r = \<lparr>pf_post = (\<lambda>w u p b. (w, r)), pf_get = (\<lambda>w u p. (w, r)), pf_now = (\<lambda>w. 0),
     pf_elapsed_ms = (\<lambda>v w. 0), pf_order = (\<lambda>ks. ks)\<rparr>"

definition toy_session :: "(unit, (string \<times> toy_json) list) session" where
  "toy_session = \<lparr>ses_manager = new_wallet_manager ''127.0.0.1'' 8080, ses_world = (), ses_files = [],
     ses_entropy = (\<lambda>i. toy_entropy)\<rparr>"

lemma toy_session_ok: "session_ok S toy_session"
  by (simp add: session_ok_def toy_session_def toy_entropy_def manager_ok_def wallet_consistent_def new_wallet_manager_def
      active_wallet_def)


theorem daemon_url_kills_wallet_witness:
  "run_lines toy_sodium toy_json_lib toy_values (answering None) toy_files toy_session [''daemon http://localhost:8080'', ''help'']
    = (toy_session, [prompt toy_session], Terminates (Service_error Number_missing))"
  using daemon_url_kills_wallet [of "''localhost:8080''" toy_sodium toy_json_lib toy_values "answering None" toy_files toy_session
      "[''help'']"]
  by (simp add: isspace_def)

theorem shown_phrase_restores_witness:
  "\<exists>s1 out ws w. cmd_create toy_sodium toy_json_lib (answering None) toy_files toy_session [''w''] = (s1, out)
    \<and> Phrase_words ws \<in> set out
    \<and> (\<exists>t1 out1. run_lines toy_sodium toy_json_lib toy_values (answering None) toy_files toy_session [''restore again'', join ws]
          = (t1, out1, Quits) \<and> active_wallet (ses_manager t1) = active_wallet (ses_manager s1))"
proof -
  obtain s1 out where c: "cmd_create toy_sodium toy_json_lib (answering None) toy_files toy_session [''w''] = (s1, out)"
    by fastforce
  have "list_all (\<lambda>c. \<not> isspace c) (CHR ''a'' # ''gain'')"
    by (simp add: isspace_def)
  then obtain ws w where "Phrase_words ws \<in> set out" and a: "active_wallet (ses_manager s1) = Some w"
    and t: "\<forall>t. \<exists>t1 out1. run_lines toy_sodium toy_json_lib toy_values (answering None) toy_files t
        [''restore '' @ CHR ''a'' # ''gain'', join ws] = (t1, out1, Quits)
      \<and> active_wallet (ses_manager t1) = Some w \<and> wm_mnemonic (ses_manager t1) = wm_mnemonic (ses_manager s1)"
    using shown_phrase_restores [OF toy_session_ok c, of "CHR ''a''" "''gain''" toy_json_lib toy_values "answering None" toy_files]
    by blast
  moreover from t obtain t1 out1 where "run_lines toy_sodium toy_json_lib toy_values (answering None) toy_files toy_session
        [''restore '' @ CHR ''a'' # ''gain'', join ws] = (t1, out1, Quits)"
      "active_wallet (ses_manager t1) = Some w"
    by blast
  moreover have "''restore '' @ CHR ''a'' # ''gain'' = ''restore again''"
    by simp
  ultimately show ?thesis
    using c by metis
qed

theorem claimfees_never_claims_witness:
  "\<exists>val r s. stod ''5'' = Inr val \<and> serve 1 toy_lmdb toy_sodium toy_json_lib toy_server_config (toy_server toy_node) toy_draws (toy_system toy_node)
        (toy_http ''POST'' ''/api/v1/vault/claim-fees'' (claim_document toy_json_lib val ''0x''))
      = Some (toy_system toy_node, Some r)
    \<and> cmd_claimfees toy_json_lib toy_values (answering (Some (reply_status r, reply_content r))) toy_session [''5'', ''0x'']
      = (s, [Say ''claiming'', claim_message toy_json_lib (reply_content r)])"
proof -
  have "plain_decimal ''5'' ''5'' []" "dec_value ''5'' = 5" "dec_value [] = 0"
    by (simp_all add: plain_decimal_def is_digit_def dec_value_def)
  then have "ebind (stod ''5'') parse_usdt = Inr (of_nat 5000000)"
    using typed_amount [of "''5''" "''5''" "[]"] by simp
  then obtain val where five: "stod ''5'' = Inr val"
    by (auto simp: ebind_eq_Inr)
  let ?hr = "toy_http ''POST'' ''/api/v1/vault/claim-fees'' (claim_document toy_json_lib val ''0x'')"
  have hr: "http_line ?hr = write_request_line ''POST'' ''/api/v1/vault/claim-fees''" "http_header ?hr ''X-Admin-Token'' = []"
    "http_header ?hr ''Authorization'' = []"
    by (simp_all add: toy_http_def)
  obtain r where r: "serve 1 toy_lmdb toy_sodium toy_json_lib toy_server_config (toy_server toy_node) toy_draws
      (toy_system toy_node) ?hr = Some (toy_system toy_node, Some r)"
    using claim_without_token [OF hr] by blast
  have post: "pf_post (answering (Some (reply_status r, reply_content r))) w u p b = ((), Some (reply_status r, reply_content r))"
    for w u p b
    by (simp add: answering_def)
  show ?thesis
    by (intro exI conjI) (rule five, rule r, rule claimfees_never_claims [OF five hr r post, THEN conjunct2])
qed

end
