(* ===== verification/Requests.thy ===== *)
theory Requests
  imports Sessions
begin

text \<open>
  From the text of a request to its handler: what a client of the HTTP library writes is
  read by the server as the same method, path and parameters; so the requests of a
  download reach the handler that answers them.
\<close>

section \<open>Pieces\<close>

lemma pieces_none: "d \<notin> set t \<Longrightarrow> pieces d t = [t]"
  by (induction t) auto

lemma pieces_append: "d \<notin> set t \<Longrightarrow> pieces d (t @ d # s) = t # pieces d s"
  by (induction t) auto

lemma divide_at_append: "d \<notin> set t \<Longrightarrow> divide_at d (t @ d # s) = (t, s)"
  by (induction t) (auto simp: divide_at_def)

lemma divide_at_none: "d \<notin> set t \<Longrightarrow> divide_at d t = (t, [])"
  by (induction t) (auto simp: divide_at_def)

lemma dropWhile_none: "list_all (\<lambda>c. \<not> P c) s \<Longrightarrow> dropWhile P s = s"
  by (cases s) simp_all

lemma trim_id: "list_all (\<lambda>c. \<not> is_space_or_tab c) s \<Longrightarrow> trim_copy s = s"
proof -
  assume "list_all (\<lambda>c. \<not> is_space_or_tab c) s"
  then have "dropWhile is_space_or_tab s = s" "dropWhile is_space_or_tab (rev s) = rev s"
    by (simp_all add: dropWhile_none)
  then show ?thesis
    by (simp add: trim_copy_def)
qed

section \<open>Encoded text\<close>

text \<open>Characters that no part of a request takes for a separator.\<close>

definition inert :: "char \<Rightarrow> bool" where
  "inert c \<longleftrightarrow> c \<notin> set [CHR ''&'', CHR ''='', CHR ''?'', CHR ''#'', CHR '' '', CHR 0x09, CHR 0x00, CHR 0x0D, CHR 0x0A]"

definition escaped :: "(char \<Rightarrow> bool) \<Rightarrow> string \<Rightarrow> string" where
  "escaped f s = concat (map (\<lambda>c. if f c then percent c else [c]) s)"

lemma inert_simps:
  "list_all inert s \<Longrightarrow> CHR ''&'' \<notin> set s" "list_all inert s \<Longrightarrow> CHR ''='' \<notin> set s" "list_all inert s \<Longrightarrow> CHR ''?'' \<notin> set s"
  "list_all inert s \<Longrightarrow> CHR ''#'' \<notin> set s" "list_all inert s \<Longrightarrow> CHR '' '' \<notin> set s" "list_all inert s \<Longrightarrow> CHR 0x00 \<notin> set s"
  "list_all inert s \<Longrightarrow> list_all (\<lambda>c. \<not> is_space_or_tab c) s"
  by (auto simp: list_all_iff inert_def is_space_or_tab_def)

lemma upper_hex_char: "n < 16 \<Longrightarrow> inert (upper_hex n) \<and> \<not> escaped_in_url (upper_hex n)"
proof -
  have "list_all (\<lambda>n. inert (upper_hex n) \<and> \<not> escaped_in_url (upper_hex n)) [0..<16]"
    by code_simp
  then show "n < 16 \<Longrightarrow> inert (upper_hex n) \<and> \<not> escaped_in_url (upper_hex n)"
    by (simp add: list_all_iff)
qed

lemma percent_chars: "list_all (\<lambda>c. inert c \<and> \<not> escaped_in_url c) (percent c)"
proof -
  have "(of_char c :: nat) div 16 < 16" "(of_char c :: nat) mod 16 < 16"
    using of_char_less [of c] by (auto simp: less_mult_imp_div_less)
  then have h: "inert (upper_hex (of_char c div 16))" "\<not> escaped_in_url (upper_hex (of_char c div 16))"
    "inert (upper_hex (of_char c mod 16))" "\<not> escaped_in_url (upper_hex (of_char c mod 16))"
    using upper_hex_char by blast+
  have "inert (CHR ''%'')" "\<not> escaped_in_url (CHR ''%'')"
    by code_simp+
  with h show ?thesis
    by (simp add: percent_def Let_def)
qed

lemma unreserved_low: "unreserved c \<Longrightarrow> (of_char c :: nat) < 128"
  by (auto simp: unreserved_def is_alnum_def Let_def)

lemma reserved:
  "\<forall>d \<in> set [CHR ''&'', CHR ''='', CHR ''?'', CHR ''#'', CHR '' '', CHR 0x09, CHR 0x00, CHR 0x0D, CHR 0x0A,
     CHR ''%'', CHR ''+'', CHR '','', CHR '';'']. \<not> unreserved d"
  by code_simp

lemma unreserved_char:
  assumes "unreserved c"
  shows "inert c \<and> c \<noteq> CHR ''%'' \<and> c \<noteq> CHR ''+'' \<and> (escaped_in_url c \<longleftrightarrow> c = CHR 0x27)"
proof -
  have no: "c \<noteq> d" if "d \<in> set [CHR ''&'', CHR ''='', CHR ''?'', CHR ''#'', CHR '' '', CHR 0x09, CHR 0x00, CHR 0x0D, CHR 0x0A,
     CHR ''%'', CHR ''+'', CHR '','', CHR '';'']" for d
    using reserved assms that by blast
  have "inert c"
    using no unfolding inert_def set_simps by blast
  moreover have "c \<noteq> CHR ''%'' \<and> c \<noteq> CHR ''+''"
    using no unfolding set_simps by blast
  moreover have "\<not> list_ex (\<lambda>d. d = c) [CHR '' '', CHR ''+'', CHR 0x0D, CHR 0x0A, CHR '','', CHR '';'']"
    using no unfolding list_ex_iff set_simps by blast
  then have "escaped_in_url c \<longleftrightarrow> c = CHR 0x27"
    using unreserved_low [OF assms] by (auto simp: escaped_in_url_def)
  ultimately show ?thesis
    by blast
qed

text \<open>Both encodings one after the other.\<close>

definition wire_char :: "char \<Rightarrow> bool" where
  "wire_char c \<longleftrightarrow> \<not> unreserved c \<or> c = CHR 0x27"

lemma escaped_append: "escaped f (s @ t) = escaped f s @ escaped f t"
  by (simp add: escaped_def)

lemma escaped_id: "list_all (\<lambda>c. \<not> f c) s \<Longrightarrow> escaped f s = s"
  by (induction s) (simp_all add: escaped_def)

lemma escaped_twice: "escaped escaped_in_url (escaped (\<lambda>c. \<not> unreserved c) s) = escaped wire_char s"
proof (induction s)
  case (Cons c s)
  have "escaped escaped_in_url (percent c) = percent c"
    using percent_chars [of c] by (intro escaped_id) (simp add: list_all_iff)
  moreover have "escaped_in_url c \<longleftrightarrow> c = CHR 0x27" if "unreserved c"
    using unreserved_char [OF that] by blast
  ultimately show ?case
    using Cons by (cases "unreserved c"; cases "c = CHR 0x27") (simp_all add: escaped_def wire_char_def)
qed (simp add: escaped_def)

lemma escaped_inert:
  assumes "list_all (\<lambda>c. f c \<or> inert c) s"
  shows "list_all inert (escaped f s)"
proof -
  have "list_all inert (percent c)" for c
    using percent_chars [of c] by (simp add: list_all_iff)
  with assms show ?thesis
    by (induction s) (auto simp: escaped_def)
qed

lemma escaped_decoded:
  assumes "list_all (\<lambda>c. f c \<or> unreserved c) s"
  shows "decode_url b (escaped f s) = s"
  using decode_encoded [of s f b "[]"] assms
  by (auto simp: escaped_def list_all_iff dest: unreserved_char)

lemma wire_inert: "list_all inert (escaped wire_char s)" "decode_url b (escaped wire_char s) = s"
  by (rule escaped_inert, auto simp: list_all_iff wire_char_def dest: unreserved_char)
     (rule escaped_decoded, auto simp: list_all_iff wire_char_def)

lemma encode_escaped: "encode_query_param v = escaped (\<lambda>c. \<not> unreserved c) v"
  unfolding encode_query_param_def escaped_def by (rule arg_cong [of _ _ concat], rule map_cong) simp_all

lemma encode_url_escaped: "CHR 0x00 \<notin> set s \<Longrightarrow> encode_url s = escaped escaped_in_url s"
proof -
  assume "CHR 0x00 \<notin> set s"
  then have "takeWhile (\<lambda>c. c \<noteq> CHR 0x00) s = s"
    by (auto simp: takeWhile_eq_all_conv)
  then show ?thesis
    by (simp only: encode_url_def escaped_def)
qed

section \<open>Parameters\<close>

text \<open>A parameter and a query as they go over the wire.\<close>

definition wire_param :: "string \<times> string \<Rightarrow> string" where
  "wire_param kv = escaped wire_char (fst kv) @ CHR ''='' # escaped wire_char (snd kv)"

fun wire_query :: "(string \<times> string) list \<Rightarrow> string" where
  "wire_query [] = []"
| "wire_query [kv] = wire_param kv"
| "wire_query (kv # kv' # kvs) = wire_param kv @ CHR ''&'' # wire_query (kv' # kvs)"

lemma wire_param_read:
  "divide_at (CHR ''='') (wire_param (k, v)) = (escaped wire_char k, escaped wire_char v)"
  using inert_simps(2) [OF wire_inert(1) [of k]] by (simp add: wire_param_def divide_at_append)

lemma wire_param_chars: "CHR ''&'' \<notin> set (wire_param kv)" "list_all (\<lambda>c. \<not> is_space_or_tab c) (wire_param kv)"
  "wire_param kv \<noteq> []"
  using inert_simps(1,7) [OF wire_inert(1) [of "fst kv"]] inert_simps(1,7) [OF wire_inert(1) [of "snd kv"]]
  by (auto simp: wire_param_def is_space_or_tab_def)

lemma query_pieces: "kvs \<noteq> [] \<Longrightarrow> pieces (CHR ''&'') (wire_query kvs) = map wire_param kvs"
  by (induction kvs rule: wire_query.induct) (simp_all add: pieces_none pieces_append wire_param_chars)

lemma query_split: "split_at (CHR ''&'') (wire_query kvs) = map wire_param kvs"
proof (cases "kvs = []")
  case True
  then show ?thesis
    by (simp add: split_at_def trim_copy_def)
next
  case False
  have "map trim_copy (map wire_param kvs) = map wire_param kvs"
    by (simp add: trim_id wire_param_chars)
  moreover have "filter (\<lambda>t. t \<noteq> []) (map wire_param kvs) = map wire_param kvs"
    by (simp add: filter_map comp_def wire_param_chars)
  ultimately show ?thesis
    using query_pieces [OF False] by (simp only: split_at_def)
qed

lemma query_read:
  assumes "distinct kvs" and "\<forall>kv \<in> set kvs. fst kv \<noteq> []"
  shows "parse_query_text (wire_query kvs) = kvs"
proof -
  let ?read = "\<lambda>t. case divide_at (CHR ''='') t of (k, v) \<Rightarrow> (decode_url True k, decode_url True v)"
  have inverse: "?read (wire_param kv) = kv" for kv
    by (cases kv) (simp add: wire_param_read wire_inert(2))
  then have "inj_on wire_param (set kvs)"
    by (rule inj_on_inverseI)
  with assms(1) have d: "distinct (map wire_param kvs)"
    by (simp add: distinct_map)
  have nonempty: "fst (divide_at (CHR ''='') (wire_param kv)) \<noteq> []" if "kv \<in> set kvs" for kv
  proof -
    have "decode_url True (fst (divide_at (CHR ''='') (wire_param kv))) = fst kv"
      using inverse [of kv] by (auto split: prod.splits)
    with assms(2) that show ?thesis
      by auto
  qed
  have "filter (\<lambda>kv. fst kv \<noteq> []) (map (divide_at (CHR ''='')) (map wire_param kvs))
      = map (divide_at (CHR ''='')) (map wire_param kvs)"
    using nonempty by (simp add: filter_id_conv)
  moreover have "rev (remdups (rev (map wire_param kvs))) = map wire_param kvs"
    using d by (simp add: distinct_remdups_id)
  ultimately have "parse_query_text (wire_query kvs)
      = map (\<lambda>(k, v). (decode_url True k, decode_url True v)) (map (divide_at (CHR ''='')) (map wire_param kvs))"
    by (simp only: parse_query_text_def query_split)
  also have "\<dots> = map (\<lambda>kv. ?read (wire_param kv)) kvs"
    by simp
  finally show ?thesis
    by (simp only: inverse) simp
qed

text \<open>What the client writes is the query over the wire, once the whole target is encoded.\<close>

lemma params_on_wire:
  assumes "\<forall>kv \<in> set kvs. list_all unreserved (fst kv)"
  shows "escaped escaped_in_url (params_to_query_str kvs) = wire_query kvs"
    and "CHR 0x00 \<notin> set (params_to_query_str kvs)"
proof -
  have key: "escaped escaped_in_url k = escaped wire_char k" if "list_all unreserved k" for k
    using escaped_twice [of k] escaped_id [of "\<lambda>c. \<not> unreserved c" k] that by simp
  have zero: "CHR 0x00 \<notin> set (encode_query_param v)" for v
    unfolding encode_escaped
    by (rule inert_simps(6), rule escaped_inert) (auto simp: list_all_iff dest: unreserved_char)
  have "\<not> unreserved (CHR 0x00)"
    by code_simp
  then have zero_key: "CHR 0x00 \<notin> set k" if "list_all unreserved k" for k
    using that by (auto simp: list_all_iff)
  have mark: "escaped escaped_in_url (CHR ''='' # s) = CHR ''='' # escaped escaped_in_url s"
    "escaped escaped_in_url (CHR ''&'' # s) = CHR ''&'' # escaped escaped_in_url s" for s
    by (simp_all add: escaped_def escaped_in_url_def)
  have param: "escaped escaped_in_url (k @ ''='' @ encode_query_param v @ t) = wire_param (k, v) @ escaped escaped_in_url t"
    if "list_all unreserved k" for k v t
    using key [OF that] by (simp add: escaped_append mark wire_param_def encode_escaped escaped_twice)
  show "escaped escaped_in_url (params_to_query_str kvs) = wire_query kvs"
    using assms param [of _ _ "[]"] param
    by (induction kvs rule: params_to_query_str.induct) (simp_all add: mark escaped_def [of _ "[]"])
  show "CHR 0x00 \<notin> set (params_to_query_str kvs)"
    using assms by (induction kvs rule: params_to_query_str.induct) (simp_all add: zero zero_key)
qed

section \<open>The request line\<close>

definition path_char :: "char \<Rightarrow> bool" where
  "path_char c \<longleftrightarrow> unreserved c \<and> c \<noteq> CHR 0x27 \<or> c = CHR ''/''"

definition request_target :: "string \<Rightarrow> (string \<times> string) list \<Rightarrow> string" where
  "request_target path kvs = (if kvs = [] then path else path @ ''?'' @ params_to_query_str kvs)"

text \<open>Characters that do not end a part of the line.\<close>

definition in_line :: "char \<Rightarrow> bool" where
  "in_line c \<longleftrightarrow> c \<notin> set [CHR '' '', CHR 0x09, CHR 0x00, CHR ''#'']"

lemma inert_in_line: "list_all inert s \<Longrightarrow> list_all in_line s"
  by (auto simp: list_all_iff inert_def in_line_def)

lemma in_lineD:
  assumes "list_all in_line s"
  shows "CHR '' '' \<notin> set s" and "CHR 0x00 \<notin> set s" and "CHR ''#'' \<notin> set s" and "trim_copy s = s"
proof -
  have no: "d \<notin> set s" if "\<not> in_line d" for d
    using assms that by (auto simp: list_all_iff)
  then show "CHR '' '' \<notin> set s" "CHR 0x00 \<notin> set s" "CHR ''#'' \<notin> set s"
    by (simp_all add: in_line_def)
  have "\<not> in_line (CHR 0x09)"
    by (simp add: in_line_def)
  from no [OF this] no [of "CHR '' ''"] show "trim_copy s = s"
    by (intro trim_id) (auto simp: list_all_iff is_space_or_tab_def in_line_def)
qed

lemma query_in_line: "list_all in_line (wire_query kvs)"
proof -
  have "in_line (CHR ''&'')" "in_line (CHR ''='')"
    by code_simp+
  then show ?thesis
    by (induction kvs rule: wire_query.induct)
       (simp_all add: wire_param_def inert_in_line [OF wire_inert(1)])
qed

lemma path_chars:
  assumes "list_all path_char path"
  shows "list_all in_line path" and "CHR ''?'' \<notin> set path" and "decode_url False path = path"
    and "escaped escaped_in_url path = path"
proof -
  have slash: "inert (CHR ''/'')" "\<not> escaped_in_url (CHR ''/'')"
    by code_simp+
  have c: "inert c" "\<not> escaped_in_url c" "c \<noteq> CHR ''%''" if "path_char c" for c
    using that slash unreserved_char [of c] by (auto simp: path_char_def)
  then have "list_all inert path"
    using assms by (auto simp: list_all_iff)
  then show "list_all in_line path" and "CHR ''?'' \<notin> set path"
    by (rule inert_in_line, rule inert_simps(3))
  show "decode_url False path = path"
    using decode_encoded [of path "\<lambda>c. False" False "[]"] assms c by (auto simp: list_all_iff)
  show "escaped escaped_in_url path = path"
    using assms c by (intro escaped_id) (auto simp: list_all_iff)
qed

lemma target_on_wire:
  assumes "list_all path_char path" and "\<forall>kv \<in> set kvs. list_all unreserved (fst kv)"
  shows "encode_url (request_target path kvs) = (if kvs = [] then path else path @ CHR ''?'' # wire_query kvs)"
proof -
  note p = path_chars [OF assms(1)] and q = params_on_wire [OF assms(2)]
  have zero: "CHR 0x00 \<notin> set (request_target path kvs)"
    using in_lineD(2) [OF p(1)] q(2) by (simp add: request_target_def)
  have "escaped escaped_in_url (CHR ''?'' # s) = CHR ''?'' # escaped escaped_in_url s" for s
    by (simp add: escaped_def escaped_in_url_def)
  then show ?thesis
    using p(4) q(1) by (simp add: encode_url_escaped [OF zero]) (simp add: request_target_def escaped_append)
qed

lemma parts_of_line:
  assumes "list_all in_line m" "list_all in_line t" "list_all in_line v" and "m \<noteq> []" "t \<noteq> []" "v \<noteq> []"
  shows "split_at (CHR '' '') (m @ CHR '' '' # t @ CHR '' '' # v) = [m, t, v]"
proof -
  have "pieces (CHR '' '') (m @ CHR '' '' # t @ CHR '' '' # v) = [m, t, v]"
    using in_lineD(1) assms(1-3) by (simp add: pieces_append pieces_none)
  then show ?thesis
    using assms by (simp add: split_at_def in_lineD(4))
qed

lemma methods_in_line: "\<forall>m \<in> set http_methods. m \<noteq> [] \<and> list_all in_line m"
  by code_simp

lemma takeWhile_none: "d \<notin> set s \<Longrightarrow> takeWhile (\<lambda>c. c \<noteq> d) s = s"
  by (auto simp: takeWhile_eq_all_conv)

text \<open>
  The server reads the request that the client writes. For a plain path, distinct
  parameters with plain names and any values, encoded and decoded twice on the way, the
  request line is read as the same method, path and parameters.
\<close>

theorem request_line_roundtrip:
  assumes "method \<in> set http_methods" and "list_all path_char path" and "path \<noteq> []"
    and "distinct kvs" and "\<forall>kv \<in> set kvs. fst kv \<noteq> [] \<and> list_all unreserved (fst kv)"
  shows "parse_request_line (write_request_line method (request_target path kvs)) = Some (method, path, kvs)"
proof -
  define t where "t = (if kvs = [] then path else path @ CHR ''?'' # wire_query kvs)"
  have wire: "encode_url (request_target path kvs) = t"
    using target_on_wire [OF assms(2)] assms(5) by (simp add: t_def)
  have m: "method \<noteq> []" "list_all in_line method"
    using methods_in_line assms(1) by auto
  have "in_line (CHR ''?'')"
    by code_simp
  then have t: "list_all in_line t" "t \<noteq> []"
    using path_chars(1) [OF assms(2)] query_in_line [of kvs] assms(3) by (simp_all add: t_def)
  have v: "list_all in_line ''HTTP/1.1''"
    by code_simp
  define line where "line = method @ CHR '' '' # t @ CHR '' '' # ''HTTP/1.1''"
  have whole: "write_request_line method (request_target path kvs) = line @ [CHR 0x0D, CHR 0x0A]"
    by (simp add: write_request_line_def wire line_def)
  have "CHR 0x00 \<notin> set (line @ [CHR 0x0D, CHR 0x0A])"
    using in_lineD(2) m(2) t(1) by (simp add: line_def)
  note complete = takeWhile_none [OF this]
  have parts: "split_at (CHR '' '') line = [method, t, ''HTTP/1.1'']"
    unfolding line_def by (rule parts_of_line [OF m(2) t(1) v m(1) t(2)]) simp
  have fragment: "takeWhile (\<lambda>c. c \<noteq> CHR ''#'') t = t"
    by (rule takeWhile_none [OF in_lineD(3) [OF t(1)]])
  have query: "divide_at (CHR ''?'') t = (path, wire_query kvs)"
    using path_chars(2) [OF assms(2)] by (simp add: t_def divide_at_append divide_at_none)
  have "parse_query_text (wire_query kvs) = kvs"
    using assms(4,5) by (intro query_read) auto
  then show ?thesis
    using assms(1) path_chars(3) [OF assms(2)]
    by (simp add: parse_request_line_def whole complete Let_def butlast_append parts fragment query list_ex_iff)
qed

theorem request_line_roundtrip_witness:
  "parse_request_line (write_request_line ''GET'' (request_target ''/api/v1/chain/blocks'' [(''note'', ''a+b & 100%'')]))
    = Some (''GET'', ''/api/v1/chain/blocks'', [(''note'', ''a+b & 100%'')])"
proof -
  have "list_all path_char ''/api/v1/chain/blocks''" "list_all unreserved ''note''" "''GET'' \<in> set http_methods"
    by code_simp+
  then show ?thesis
    by (intro request_line_roundtrip) simp_all
qed

section \<open>Downloads over the wire\<close>

lemma digit_unreserved: "is_digit c \<Longrightarrow> unreserved c \<and> c \<noteq> CHR 0x27"
  by (auto simp: is_digit_def unreserved_def is_alnum_def Let_def)

lemma digits_plain:
  assumes "list_all is_digit ds"
  shows "encode_query_param ds = ds" and "escaped wire_char ds = ds"
proof -
  have "list_all (\<lambda>c. unreserved c \<and> c \<noteq> CHR 0x27) ds"
    using assms by (simp add: list_all_iff digit_unreserved)
  then show "encode_query_param ds = ds" "escaped wire_char ds = ds"
    unfolding encode_escaped by (simp_all add: escaped_id list_all_iff wire_char_def)
qed

definition sync_params :: "u64 \<Rightarrow> (string \<times> string) list" where
  "sync_params h = [(''from_height'', dec_string (unat h)), (''limit'', ''50'')]"

lemma sync_names: "list_all unreserved ''from_height''" "list_all unreserved ''limit''" "list_all path_char ''/api/v1/p2p/sync''"
  "list_all is_digit ''50''"
  by code_simp+

lemma sync_query_target: "sync_query h = request_target ''/api/v1/p2p/sync'' (sync_params h)"
  using digits_plain(1) [OF is_digit_dec_string [of "unat h"]] digits_plain(1) [OF sync_names(4)]
  by (simp add: sync_query_def request_target_def sync_params_def)

lemma sync_line_read:
  "parse_request_line (write_request_line ''GET'' (sync_query h)) = Some (''GET'', ''/api/v1/p2p/sync'', sync_params h)"
  unfolding sync_query_target
  by (rule request_line_roundtrip) (use sync_names in \<open>simp_all add: http_methods_def sync_params_def\<close>)

lemma sync_line_short: "\<not> length (write_request_line ''GET'' (sync_query h)) > 8192"
proof -
  have "unat h < 10 ^ 20"
    using unat64_less [of h] by (rule less_le_trans) simp
  then have "length (dec_string (unat h)) \<le> 20"
    by (rule dec_string_length) simp
  moreover have names: "escaped wire_char ''from_height'' = ''from_height''" "escaped wire_char ''limit'' = ''limit''"
    by code_simp+
  moreover have "encode_url (sync_query h) = ''/api/v1/p2p/sync'' @ CHR ''?'' # wire_query (sync_params h)"
    unfolding sync_query_target using target_on_wire [OF sync_names(3), of "sync_params h"] sync_names
    by (simp add: sync_params_def)
  ultimately show ?thesis
    using digits_plain(2) [OF is_digit_dec_string [of "unat h"]] digits_plain(2) [OF sync_names(4)]
    by (simp add: write_request_line_def sync_params_def wire_param_def)
qed

lemma sync_request_served:
  assumes "http_line hr = write_request_line ''GET'' (sync_query h)" and "http_length hr = None"
    and "handle_file_request (site_stat (srv_site R)) (site_text (srv_site R) []) (site_mount (srv_site R)) ''/api/v1/p2p/sync'' = None"
  shows "serve fuel L S J R P D s hr
    = Some (s, Some (handle_sync L S J (srv_rpc R) (sys_node s) (sync_request (http_body hr) h)))"
proof -
  have e: "route ''GET'' ''/api/v1/p2p/sync'' = Some P2p_sync"
    by code_simp
  have "handle_sync L S J (srv_rpc R) (sys_node s) \<lparr>req_body = http_body hr, req_params = map_of (sync_params h),
      req_header = http_header hr, req_match = []\<rparr>
    = handle_sync L S J (srv_rpc R) (sys_node s) (sync_request (http_body hr) h)"
    by (simp add: handle_sync_def parse_sync_def sync_request_def sync_params_def)
  then show ?thesis
    unfolding serve_def Let_def assms(1) sync_line_read
    using sync_line_short [of h] assms(2,3)
    by (simp add: e serve_endpoint_def client_operation_def serve_get_def)
qed

text \<open>A peer whose address is that of a running server, which answers a GET request by what it serves.\<close>

definition answers_as ::
  "nat \<Rightarrow> 's lmdb \<Rightarrow> sodium \<Rightarrow> ('j, 't) json_lib \<Rightarrow> 't server_config \<Rightarrow> ('w, 't) platform \<Rightarrow> server_draws \<Rightarrow> ('s, 'w) system
     \<Rightarrow> ('v, 't) platform \<Rightarrow> 't \<Rightarrow> string \<Rightarrow> bool" where
  "answers_as fuel L S J R Q D s P nothing url \<longleftrightarrow>
     (\<forall>w path. \<exists>header. snd (pf_get P w url path)
        = (case serve fuel L S J R Q D s \<lparr>http_line = write_request_line ''GET'' path, http_length = None, http_body = nothing,
                http_header = header\<rparr> of
             Some (s', Some r) \<Rightarrow> Some (reply_status r, reply_content r) | _ \<Rightarrow> None))"

text \<open>
  C12: a running server serves its chain. A peer that is a server of this program, unless a
  mounted file hides the route, answers each request of a download with the blocks of its
  node from the height that was asked for: the text of the request line, its parameters and
  the routes give the handler the request that the downloads of \<open>Downloads\<close> rely on.
\<close>

theorem running_server_serves_chain:
  assumes "answers_as fuel L S J R Q D s P nothing url"
    and "handle_file_request (site_stat (srv_site R)) (site_text (srv_site R) []) (site_mount (srv_site R)) ''/api/v1/p2p/sync'' = None"
  shows "serves_chain L S J (srv_rpc R) P nothing url (sys_node s)"
  unfolding serves_chain_def
proof (intro allI)
  fix w h
  obtain header where "snd (pf_get P w url (sync_query h))
      = (case serve fuel L S J R Q D s \<lparr>http_line = write_request_line ''GET'' (sync_query h), http_length = None,
            http_body = nothing, http_header = header\<rparr> of
           Some (s', Some r) \<Rightarrow> Some (reply_status r, reply_content r) | _ \<Rightarrow> None)"
    using assms(1) unfolding answers_as_def by blast
  then show "snd (pf_get P w url (sync_query h))
      = (case handle_sync L S J (srv_rpc R) (sys_node s) (sync_request nothing h) of
           r \<Rightarrow> Some (reply_status r, reply_content r))"
    by (simp add: sync_request_served [OF _ _ assms(2)])
qed

text \<open>A platform on which every address is a toy node with its server.\<close>

definition toy_internet :: "(unit, toy_json) platform" where
  "toy_internet = \<lparr>pf_post = (\<lambda>w u p b. (w, None)),
     pf_get = (\<lambda>w u path. (w, case serve 1 toy_lmdb toy_sodium toy_json_lib toy_server_config (toy_server toy_node) toy_draws
         (toy_system toy_node) \<lparr>http_line = write_request_line ''GET'' path, http_length = None, http_body = Toy_object [],
           http_header = (\<lambda>k. [])\<rparr> of
         Some (s', Some r) \<Rightarrow> Some (reply_status r, reply_content r) | _ \<Rightarrow> None)),
     pf_now = (\<lambda>w. 0), pf_elapsed_ms = (\<lambda>v w. 0), pf_order = (\<lambda>ks. ks)\<rparr>"

theorem running_server_serves_chain_witness:
  "serves_chain toy_lmdb toy_sodium toy_json_lib toy_config toy_internet (Toy_object []) ''http://me''
     (sys_node (toy_system toy_node))"
proof -
  have "answers_as 1 toy_lmdb toy_sodium toy_json_lib toy_server_config (toy_server toy_node) toy_draws (toy_system toy_node)
      toy_internet (Toy_object []) ''http://me''"
    by (auto simp: answers_as_def toy_internet_def)
  from running_server_serves_chain [OF this] show ?thesis
    by (simp add: toy_server_config_def toy_site_def handle_file_request_def)
qed

section \<open>Mounted files\<close>

text \<open>
  The directories below the mounted one that the components of a path lead to; none when it
  climbs out. A path that is served never does.
\<close>

fun walk :: "string list \<Rightarrow> string list \<Rightarrow> string list option" where
  "walk dirs [] = Some dirs"
| "walk dirs (c # cs) =
     (if c = ''.'' then walk dirs cs
      else if c = ''..'' then (case dirs of [] \<Rightarrow> None | d # ds \<Rightarrow> walk ds cs)
      else walk (c # dirs) cs)"

lemma valid_walk: "valid_components (length dirs) cs \<Longrightarrow> walk dirs cs \<noteq> None"
  by (induction dirs cs rule: walk.induct) (auto split: if_splits list.splits)

lemma served_file_inside:
  "handle_file_request stat nothing base path = Some r \<Longrightarrow> walk [] (path_components (''/'' @ drop 1 path)) \<noteq> None"
  using valid_walk [of "[]"] by (auto simp: handle_file_request_def is_valid_path_def Let_def split: option.splits if_splits)

end
