(* ===== verification/Spec2Isabelle.thy ===== *)
theory Spec2Isabelle
  imports Pedersen Tumbler Contacts Requests
begin

text \<open>
  A verification library for a private stablecoin node: the C++ sources under
  \<^verbatim>\<open>include/\<close> and \<^verbatim>\<open>src/\<close> of the repository.

  \<^bold>\<open>The program.\<close> Users deposit USDT and receive private outputs of the same value less a
  fee (\<^verbatim>\<open>Vault\<close>); outputs belong to one-time keys derived from a stealth address
  (\<^verbatim>\<open>StealthProtocol\<close>), are spent with ring signatures and key images
  (\<^verbatim>\<open>RingSignatureEngine\<close>, \<^verbatim>\<open>KeyImageLedger\<close>) and are burned for USDT with a burn proof and
  a plan of small payments (\<^verbatim>\<open>TumblerEngine\<close>). Every operation is put into a block of its
  own (\<^verbatim>\<open>Block\<close>, with a Merkle root and a quorum of validator signatures), serialized
  (\<^verbatim>\<open>ByteWriter\<close>, \<^verbatim>\<open>ByteReader\<close>) and stored by LMDB (\<^verbatim>\<open>BlockchainDB\<close>). \<^verbatim>\<open>Node\<close> composes
  these parts, and \<^verbatim>\<open>Node::apply_remote_block\<close> validates the blocks of other nodes, with a
  fork choice that may replace the local top block. \<^verbatim>\<open>P2PManager\<close> finds other nodes, gossips
  blocks to them and downloads theirs; \<^verbatim>\<open>RpcServer\<close> answers HTTP requests of peers and
  clients; \<^verbatim>\<open>WalletManager\<close>, with the command line on top of it, and the browser bindings
  are the clients, which keep the keys and sign; \<^verbatim>\<open>main\<close> reads the configuration and connects node, network and server.

  \<^bold>\<open>Theories.\<close>
  \<^item> \<open>Prelude\<close>: bytes, words, the errors of all components, sequencing of fallible
    computations, and the hint collections.
  \<^item> \<open>Amounts\<close>: \<^verbatim>\<open>types.hpp\<close>, checked arithmetic, fees, hexadecimal and decimal text, EVM
    addresses.
  \<^item> \<open>Vault\<close>: \<^verbatim>\<open>vault.hpp\<close>, \<^verbatim>\<open>vault.cpp\<close>. The solvency invariant on numbers, the complete
    behaviour of each operation, and a refinement to an abstract peg; the contract of an
    operation that keeps an invariant is a locale, interpreted on the vault.
  \<^item> \<open>Serial\<close>: \<^verbatim>\<open>serialization.hpp\<close>. Writers, readers, and the locale of codecs with its
    round trips, interpreted here and in \<open>Blocks\<close> for every format.
  \<^item> \<open>Sodium\<close>: the interface to libsodium and OpenSSL, an argument of all definitions that
    use it, the documented laws the theorems rely on as named hypotheses, and an instance
    on which they hold and the witnesses compute.
  \<^item> \<open>Stealth\<close>, \<open>RingSig\<close>: \<^verbatim>\<open>stealth.cpp\<close>, \<^verbatim>\<open>ring_signature.cpp\<close>. Recognition and spending
    of outputs, the verifiers against the mathematical predicate of a ring signature, the
    correctness of signing, what the hashed messages bind, and the ledger of images.
  \<^item> \<open>Blocks\<close>, \<open>Headers\<close>, \<open>Merkle\<close>: \<^verbatim>\<open>block.hpp\<close>, \<^verbatim>\<open>block.cpp\<close>. Round trip and limits of
    the binary form, the quorum as a count of validators, and what a Merkle root commits to.
  \<^item> \<open>WordList\<close>, \<open>Mnemonic\<close>: \<^verbatim>\<open>bip39_words.hpp\<close>, \<^verbatim>\<open>mnemonic.cpp\<close>. \<open>Pedersen\<close>:
    \<^verbatim>\<open>pedersen.cpp\<close>. \<open>Tumbler\<close>: \<^verbatim>\<open>tumbler.cpp\<close>.
  \<^item> \<open>ChainDB\<close>: \<^verbatim>\<open>blockchain_db.cpp\<close> over an interface to LMDB whose documented behaviour is
    the hypothesis \<open>lmdb_ok\<close>. The tables refine the abstract chain that readers see; commit
    extends it and rollback undoes that.
  \<^item> \<open>Validation\<close>: the checks of \<^verbatim>\<open>Node::apply_remote_block\<close> in \<^verbatim>\<open>node.cpp\<close>, and what they
    establish. \<open>Node\<close>: all other operations of \<^verbatim>\<open>node.cpp\<close>.
  \<^item> \<open>Consensus\<close>: what the outcomes of \<^verbatim>\<open>apply_remote_block\<close> guarantee. \<open>Peers\<close>: why peers
    accept what a node mines. \<open>Network\<close>: these properties, and a toy chain on which
    their witnesses compute.
  \<^item> \<open>Doubles\<close>: the floating-point part of \<^verbatim>\<open>types.hpp\<close>, \<^verbatim>\<open>parse_usdt\<close>, on binary64 with its
    rounding written out.
  \<^item> \<open>Services\<close>: what the services share: numbers in text (\<^verbatim>\<open>std::stoull\<close>), HTTP requests and
    replies, the JSON library, the HTTP client and the clock as records of functions.
  \<^item> \<open>P2P\<close>: \<^verbatim>\<open>p2p.hpp\<close>, \<^verbatim>\<open>p2p.cpp\<close>: the table of peers, handshake with peer exchange,
    gossip, pushing and pulling blocks. \<open>Progress\<close>: when its loops end.
  \<^item> \<open>Rpc\<close>: \<^verbatim>\<open>rpc_server.cpp\<close>, one function for each request handler.
  \<^item> \<open>Wallet\<close>: \<^verbatim>\<open>wallet_manager.cpp\<close>. \<open>Wasm\<close>: \<^verbatim>\<open>wasm_bindings.cpp\<close>. \<open>Daemon\<close>: \<^verbatim>\<open>main.cpp\<close>,
    configuration, start, demonstration.
  \<^item> \<open>Exchange\<close>: deposits over HTTP need a certificate of validators (and may reuse it); a
    toy JSON library. \<open>Downloads\<close>: a node that downloads from another one ends with its
    chain, blocks gossiped are treated as they should. \<open>Contacts\<close>: handshakes end, and the
    table of peers stays well formed in every reachable state. \<open>Clients\<close>: fees, transfers
    and pushed transactions, from the client through the handler to the node.
    \<open>ClientKeys\<close>: the reachable states of the wallet, its file, and the keys and signatures
    of the browser.
  \<^item> \<open>Http\<close>: the part of the vendored \<^verbatim>\<open>httplib.h\<close> that decides what a handler sees: encoding of
    addresses, parameters, request lines, mounted files. \<open>Server\<close>: the routes of
    \<^verbatim>\<open>setup_routes\<close>, the dispatch of a request from its first line to the reply (\<open>serve\<close>), and
    the life cycle of the server.
  \<^item> \<open>Solvency\<close>: every operation of node, network and handlers keeps the node backed: a solvent
    vault in memory and a solvent record on disk. \<open>Guarantees\<close>: from this, a running daemon is
    solvent in every state that requests, peers, crashes and restarts lead to; reading
    changes nothing; a request is done completely or not at all.
  \<^item> \<open>NumberText\<close>: \<^verbatim>\<open>std::stod\<close>, correctly rounded. \<open>Cli\<close>: \<^verbatim>\<open>wallet_cli.cpp\<close>, its options, commands
    and loop. \<open>Sessions\<close>: what a session guarantees, from typed amounts to restored phrases,
    and how it ends. \<open>Requests\<close>: the text that a client writes is the request that the
    server reads, so a running server fulfils the contract the downloads rely on.

  \<^bold>\<open>State and effects.\<close> A class is a record with its fields, a method a function that returns
  the new record together with its result or the exception, with what it had already
  changed when it threw. Amounts are 64-bit words and fees are computed on 128 bits as in
  the source. The mutex of each class makes a method one step. Random draws, the clock and
  the environment of the process are arguments. An operation of the peer network acts on
  the node, the manager and the outside world, and runs alone: other threads that handle
  requests at the same time do not interleave with it in the model. Only for solvency are
  interleavings covered: \<open>daemon_step\<close> has, beside whole operations, the single methods of
  the node, each of which holds its mutex.

  \<^bold>\<open>Loops.\<close> The loops of the library are bounded by the data they run over, so these
  definitions are total without fuel; the Merkle loop ends because a level halves its
  length; the loop of the command line runs over the lines typed. The bounds on counts and
  strings of the binary format are those of \<^verbatim>\<open>block.cpp\<close> and \<^verbatim>\<open>serialization.hpp\<close>. The two loops of \<^verbatim>\<open>p2p.cpp\<close> run over what a peer
  keeps sending: \<open>sync_loop\<close> and \<open>handshake_with_peer\<close> have fuel, and their results do not
  depend on it once there is one. Enough is one unit for each batch of 50 blocks a peer
  sends and one for each address not yet known (\<open>contacts_left\<close>). No fuel is enough against
  a peer that repeats the top block or invents addresses: the theorems that end in
  \<open>never_end\<close> or \<open>never_ends\<close> state that these operations do not return.

  \<^bold>\<open>Hypotheses.\<close> On libsodium: the group laws of \<open>Sodium\<close>, only where a signature must
  verify or an output be recognised; safety properties hold for any library. On LMDB:
  \<open>lmdb_ok\<close>, and \<open>lmdb_reliable\<close>, that writing does not fail, where a block must be
  stored or restored. \<open>mirrors\<close> says that memory agrees with the database,
  \<open>rewindable\<close> that the top block was committed on a chain that did not use its keys.
  On JSON: \<open>json_ok\<close>, a document of ASCII texts is read as it was built. On the file
  system: \<open>fs_ok\<close>. On peers, for termination only: \<open>advertised_within\<close>, the addresses they
  send are of a finite set, \<open>quiet\<close> and \<open>full_batches_rank\<close>, they send finitely many
  full batches. A peer that is a server of this program: \<open>answers_as\<close>, a GET request is
  answered by what \<open>serve\<close> returns for its request line.

  \<^bold>\<open>Not modelled.\<close> The rest of the vendored \<^verbatim>\<open>httplib.h\<close>: sockets, headers, ranges,
  compression, chunked bodies and the transport of the client, which is an interface; the
  scheduling of threads, timers and timeouts; the initialization of libsodium; the contracts
  and the web page; the wording of what is printed and the wiping of memory, which have no
  effect on results; the texts of error messages, which are a parameter of the handlers.
\<close>

end
